(* ===== verification/Prelude.thy ===== *)
theory Prelude
  imports Complex_Main "HOL-Library.Word"
begin

text \<open>
  What every component theory shares: the names of the value types the program handles
  (identifiers, points in time), a small calculus of Python computations (a state, and
  either a value or a raised exception), and tables of rows (lists with a key) with the
  four statements the repositories issue on them: select by key, insert, update where,
  and ordered select with a limit.
\<close>

section \<open>Value types\<close>

text \<open>
  A \<^verbatim>\<open>uuid.UUID\<close> is a 128-bit value. A \<^verbatim>\<open>datetime\<close> with a timezone is a point on one
  time line, counted here in microseconds, so that comparison and subtraction of a
  \<^verbatim>\<open>timedelta\<close> are those of the integers.
\<close>

type_synonym uuid = "128 word"
type_synonym instant = int

definition timedelta_seconds :: "int \<Rightarrow> int" where
  "timedelta_seconds n = n * 1000000"

section \<open>Python computations\<close>

text \<open>
  A computation takes the state and returns the new state together with either the
  exception that escaped (\<open>Inl\<close>) or the value (\<open>Inr\<close>). An exception keeps the effects
  made before it, as in Python.
\<close>

type_synonym ('e, 's, 'a) py = "'s \<Rightarrow> ('e + 'a) \<times> 's"

definition py_return :: "'a \<Rightarrow> ('e, 's, 'a) py" where
  "py_return x = (\<lambda>s. (Inr x, s))"

definition py_raise :: "'e \<Rightarrow> ('e, 's, 'a) py" where
  "py_raise e = (\<lambda>s. (Inl e, s))"

definition py_bind :: "('e, 's, 'a) py \<Rightarrow> ('a \<Rightarrow> ('e, 's, 'b) py) \<Rightarrow> ('e, 's, 'b) py" where
  "py_bind m f = (\<lambda>s. case m s of (Inl e, s') \<Rightarrow> (Inl e, s') | (Inr x, s') \<Rightarrow> f x s')"

text \<open>\<open>try: m  except ...: h\<close>; the handler re-raises what it does not catch.\<close>

definition py_try :: "('e, 's, 'a) py \<Rightarrow> ('e \<Rightarrow> ('e, 's, 'b) py) \<Rightarrow> ('a \<Rightarrow> ('e, 's, 'b) py) \<Rightarrow> ('e, 's, 'b) py" where
  "py_try m h k = (\<lambda>s. case m s of (Inl e, s') \<Rightarrow> h e s' | (Inr x, s') \<Rightarrow> k x s')"

definition py_lift :: "'e + 'a \<Rightarrow> ('e, 's, 'a) py" where
  "py_lift r = (\<lambda>s. (r, s))"

definition py_modify :: "('s \<Rightarrow> 's) \<Rightarrow> ('e, 's, unit) py" where
  "py_modify f = (\<lambda>s. (Inr (), f s))"

text \<open>The effect of each combinator once the first computation's outcome is known.\<close>

named_theorems py_simps \<open>evaluation of Python computations\<close>

lemma py_return_app [py_simps]: "py_return x s = (Inr x, s)"
  by (simp add: py_return_def)

lemma py_raise_app [py_simps]: "py_raise e s = (Inl e, s)"
  by (simp add: py_raise_def)

lemma py_modify_app [py_simps]: "py_modify f s = (Inr (), f s)"
  by (simp add: py_modify_def)

lemma py_lift_app [py_simps]: "py_lift r s = (r, s)"
  by (simp add: py_lift_def)

lemma py_bind_Inr: "m s = (Inr x, s') \<Longrightarrow> py_bind m f s = f x s'"
  by (simp add: py_bind_def)

lemma py_bind_Inl: "m s = (Inl e, s') \<Longrightarrow> py_bind m f s = (Inl e, s')"
  by (simp add: py_bind_def)

lemma py_try_Inr: "m s = (Inr x, s') \<Longrightarrow> py_try m h k s = k x s'"
  by (simp add: py_try_def)

lemma py_try_Inl: "m s = (Inl e, s') \<Longrightarrow> py_try m h k s = h e s'"
  by (simp add: py_try_def)

lemma py_bind_assoc: "py_bind (py_bind m f) g = py_bind m (\<lambda>x. py_bind (f x) g)"
  by (rule ext) (simp add: py_bind_def split: prod.splits sum.splits)

lemma py_bind_return_left [py_simps]: "py_bind (py_return x) f = f x"
  by (rule ext) (simp add: py_bind_def py_return_def)

lemma py_bind_return_right: "py_bind m py_return = m"
  by (rule ext) (simp add: py_bind_def py_return_def split: prod.splits sum.splits)

text \<open>
  A predicate on states that a computation keeps, whatever its outcome. The combinators
  keep what their parts keep, which is how the component invariants are proved.
\<close>

definition keeps :: "('s \<Rightarrow> bool) \<Rightarrow> ('e, 's, 'a) py \<Rightarrow> bool" where
  "keeps I m \<longleftrightarrow> (\<forall>s. I s \<longrightarrow> I (snd (m s)))"

named_theorems keeps_intros \<open>computations that keep a state predicate\<close>

lemma keepsI: "(\<And>s. I s \<Longrightarrow> I (snd (m s))) \<Longrightarrow> keeps I m"
  by (simp add: keeps_def)

lemma keepsD: "keeps I m \<Longrightarrow> I s \<Longrightarrow> I (snd (m s))"
  by (simp add: keeps_def)

lemma keeps_return [keeps_intros]: "keeps I (py_return x)"
  by (simp add: keeps_def py_return_def)

lemma keeps_raise [keeps_intros]: "keeps I (py_raise e)"
  by (simp add: keeps_def py_raise_def)

lemma keeps_lift [keeps_intros]: "keeps I (py_lift r)"
  by (simp add: keeps_def py_lift_def)

lemma keeps_bind [keeps_intros]:
  "keeps I m \<Longrightarrow> (\<And>x. keeps I (f x)) \<Longrightarrow> keeps I (py_bind m f)"
  by (auto simp: keeps_def py_bind_def split: prod.splits sum.splits)

lemma keeps_try [keeps_intros]:
  "keeps I m \<Longrightarrow> (\<And>e. keeps I (h e)) \<Longrightarrow> (\<And>x. keeps I (k x)) \<Longrightarrow> keeps I (py_try m h k)"
  by (auto simp: keeps_def py_try_def split: prod.splits sum.splits)

lemma keeps_if [keeps_intros]:
  "(b \<Longrightarrow> keeps I m) \<Longrightarrow> (\<not> b \<Longrightarrow> keeps I m') \<Longrightarrow> keeps I (if b then m else m')"
  by simp

section \<open>Tables of rows\<close>

text \<open>
  A table is the list of its rows in insertion order. \<open>key\<close> reads the column the
  statement selects on.
\<close>

definition select_by :: "('r \<Rightarrow> 'k) \<Rightarrow> 'k \<Rightarrow> 'r list \<Rightarrow> 'r list" where
  "select_by key k rows = [r \<leftarrow> rows. key r = k]"

definition insert_row :: "'r \<Rightarrow> 'r list \<Rightarrow> 'r list" where
  "insert_row r rows = rows @ [r]"

definition update_where :: "('r \<Rightarrow> bool) \<Rightarrow> ('r \<Rightarrow> 'r) \<Rightarrow> 'r list \<Rightarrow> 'r list" where
  "update_where P f rows = map (\<lambda>r. if P r then f r else r) rows"

definition select_ordered :: "('r \<Rightarrow> bool) \<Rightarrow> ('r \<Rightarrow> 'o::linorder) \<Rightarrow> nat \<Rightarrow> 'r list \<Rightarrow> 'r list" where
  "select_ordered P ord n rows = take n (sort_key ord (filter P rows))"

definition unique_by :: "('r \<Rightarrow> 'k) \<Rightarrow> 'r list \<Rightarrow> bool" where
  "unique_by key rows \<longleftrightarrow> distinct (map key rows)"

named_theorems table_simps \<open>the laws of the table statements\<close>

lemma select_by_insert [table_simps]:
  "select_by key k (insert_row r rows) = select_by key k rows @ (if key r = k then [r] else [])"
  by (simp add: select_by_def insert_row_def)

lemma select_by_update [table_simps]:
  assumes "\<And>r. key (f r) = key r"
  shows "select_by key k (update_where P f rows) = update_where P f (select_by key k rows)"
  using assms by (induction rows) (auto simp: select_by_def update_where_def)

lemma select_by_empty_iff: "select_by key k rows = [] \<longleftrightarrow> k \<notin> key ` set rows"
  by (auto simp: select_by_def filter_empty_conv)

lemma select_by_unique:
  assumes "unique_by key rows" and "r \<in> set rows"
  shows "select_by key (key r) rows = [r]"
  using assms
proof (induction rows)
  case Nil
  then show ?case by simp
next
  case (Cons a rows)
  show ?case
  proof (cases "r = a")
    case True
    with Cons.prems have "key a \<notin> key ` set rows" by (simp add: unique_by_def)
    then have "select_by key (key a) rows = []" by (simp add: select_by_empty_iff)
    with True show ?thesis by (simp add: select_by_def)
  next
    case False
    with Cons.prems have "r \<in> set rows" and "key a \<noteq> key r"
      by (auto simp: unique_by_def)
    with Cons show ?thesis by (simp add: select_by_def unique_by_def)
  qed
qed

lemma select_by_cases:
  assumes "unique_by key rows"
  obtains (none) "select_by key k rows = []" | (one) r where "select_by key k rows = [r]"
    and "key r = k" and "r \<in> set rows"
proof (cases "k \<in> key ` set rows")
  case True
  then obtain r where "r \<in> set rows" and "key r = k" by auto
  with assms one show ?thesis using select_by_unique by metis
next
  case False
  with none show ?thesis by (simp add: select_by_empty_iff)
qed

lemma unique_by_insert [table_simps]:
  "unique_by key (insert_row r rows) \<longleftrightarrow> unique_by key rows \<and> key r \<notin> key ` set rows"
  by (auto simp: unique_by_def insert_row_def)

lemma map_key_update [table_simps]:
  "(\<And>r. key (f r) = key r) \<Longrightarrow> map key (update_where P f rows) = map key rows"
  by (simp add: update_where_def)

lemma unique_by_update [table_simps]:
  "(\<And>r. key (f r) = key r) \<Longrightarrow> unique_by key (update_where P f rows) = unique_by key rows"
  by (simp add: unique_by_def map_key_update)

lemma set_insert_row [table_simps]: "set (insert_row r rows) = insert r (set rows)"
  by (auto simp: insert_row_def)

lemma set_update_where [table_simps]:
  "set (update_where P f rows) = (\<lambda>r. if P r then f r else r) ` set rows"
  by (simp add: update_where_def)

lemma length_update_where [table_simps]: "length (update_where P f rows) = length rows"
  by (simp add: update_where_def)

lemma update_where_single [simp]: "update_where P f [r] = [if P r then f r else r]"
  by (simp add: update_where_def)

lemma update_where_Nil [simp]: "update_where P f [] = []"
  by (simp add: update_where_def)

lemma update_where_id: "(\<And>r. r \<in> set rows \<Longrightarrow> \<not> P r) \<Longrightarrow> update_where P f rows = rows"
  by (induction rows) (auto simp: update_where_def)

lemma update_where_compose:
  "(\<And>r. P (f r) = P r) \<Longrightarrow>
   update_where P g (update_where P f rows) = update_where P (\<lambda>r. g (f r)) rows"
  by (simp add: update_where_def)

text \<open>An ordered select returns rows that match, oldest first, at most \<open>n\<close> of them,
  and never skips an older matching row for a newer one.\<close>

lemma set_select_ordered: "set (select_ordered P ord n rows) \<subseteq> {r \<in> set rows. P r}"
  unfolding select_ordered_def using set_take_subset by fastforce

lemma sorted_select_ordered: "sorted (map ord (select_ordered P ord n rows))"
  by (simp add: select_ordered_def take_map [symmetric] sorted_wrt_take)

lemma length_select_ordered: "length (select_ordered P ord n rows) = min n (length (filter P rows))"
  by (simp add: select_ordered_def)

lemma distinct_take_sort:
  "distinct (map key rows) \<Longrightarrow> distinct (map key (select_ordered P ord n rows))"
proof -
  assume "distinct (map key rows)"
  then have "distinct (map key (filter P rows))"
    by (rule distinct_map_filter)
  then have "distinct (map key (sort_key ord (filter P rows)))"
    by (simp add: distinct_map)
  then show ?thesis
    by (simp add: select_ordered_def take_map [symmetric])
qed

lemma select_ordered_oldest:
  assumes "r \<in> set rows" and "P r" and "r \<notin> set (select_ordered P ord n rows)"
    and "q \<in> set (select_ordered P ord n rows)"
  shows "ord q \<le> ord r"
proof -
  define xs where "xs = sort_key ord (filter P rows)"
  have split: "sorted (map ord (take n xs) @ map ord (drop n xs))"
    by (simp add: xs_def flip: map_append)
  have "r \<in> set xs" using assms by (simp add: xs_def)
  then have "r \<in> set (take n xs) \<union> set (drop n xs)"
    by (metis append_take_drop_id set_append)
  with assms have "r \<in> set (drop n xs)" and "q \<in> set (take n xs)"
    by (auto simp: select_ordered_def xs_def)
  with split show ?thesis unfolding sorted_append by auto
qed

section \<open>Simulation\<close>

text \<open>
  A step of the program and one of its abstract specification, under a condition on the state
  and the inputs still to come: if each step is simulated, so is every run.
\<close>

locale simulation =
  fixes step :: "'a \<Rightarrow> 's \<Rightarrow> 's" and spec :: "'a \<Rightarrow> 't \<Rightarrow> 't" and abs :: "'s \<Rightarrow> 't"
    and ok :: "'s \<Rightarrow> 'a list \<Rightarrow> bool"
  assumes step_ok: "ok s (a # as) \<Longrightarrow> ok (step a s) as"
    and step_abs: "ok s (a # as) \<Longrightarrow> abs (step a s) = spec a (abs s)"
begin

lemma run_ok: "ok s (as @ bs) \<Longrightarrow> ok (fold step as s) bs"
  by (induction as arbitrary: s) (auto dest: step_ok)

lemma run_abs: "ok s as \<Longrightarrow> abs (fold step as s) = fold spec as (abs s)"
proof (induction as arbitrary: s)
  case (Cons a as)
  then show ?case using step_ok [OF Cons.prems] by (simp add: step_abs)
qed simp

end

end
