(* ===== verification/Domain.thy ===== *)
theory Domain
  imports Prelude
begin

text \<open>
  The vocabulary of the system: the enumerations of \<^verbatim>\<open>backend/constants.py\<close> and of the
  provider's wire format, with the string value of every member (\<^verbatim>\<open>Enum.value\<close>) and the
  lookup by value (\<^verbatim>\<open>TicketStatus("new")\<close>), the terminal statuses, and the names of the
  broker's exchanges, queues and routing keys (\<^verbatim>\<open>backend/transport/topology.py\<close>).
\<close>

section \<open>Enumerations\<close>

datatype currency =
    RUB
  | USD
  | EUR

fun currency_value :: "currency \<Rightarrow> string" where
  "currency_value RUB = ''RUB''"
| "currency_value USD = ''USD''"
| "currency_value EUR = ''EUR''"

datatype outbox_status =
    PENDING
  | PUBLISHED
  | FAILED

fun outbox_status_value :: "outbox_status \<Rightarrow> string" where
  "outbox_status_value PENDING = ''pending''"
| "outbox_status_value PUBLISHED = ''published''"
| "outbox_status_value FAILED = ''failed''"

datatype ticket_status =
    NEW
  | SENT_TO_PROVIDER
  | RECOMMENDED_CONFIRM
  | RECOMMENDED_DECLINE
  | SETTLED
  | CONFIRMED
  | DECLINED
  | CANCELLATION_REQUESTED
  | CANCELLED
  | EXPIRED

fun ticket_status_value :: "ticket_status \<Rightarrow> string" where
  "ticket_status_value NEW = ''new''"
| "ticket_status_value SENT_TO_PROVIDER = ''sent_to_provider''"
| "ticket_status_value RECOMMENDED_CONFIRM = ''recommended_confirm''"
| "ticket_status_value RECOMMENDED_DECLINE = ''recommended_decline''"
| "ticket_status_value SETTLED = ''settled''"
| "ticket_status_value CONFIRMED = ''confirmed''"
| "ticket_status_value DECLINED = ''declined''"
| "ticket_status_value CANCELLATION_REQUESTED = ''cancellation_requested''"
| "ticket_status_value CANCELLED = ''cancelled''"
| "ticket_status_value EXPIRED = ''expired''"

datatype provider_message_type =
    TICKET
  | RECOMMENDATION
  | CONFIRM_RECOMMENDATION
  | DECLINE_RECOMMENDATION
  | REQUEST_CANCELLATION
  | CANCELLATION_APPLIED
  | ACK

fun provider_message_type_value :: "provider_message_type \<Rightarrow> string" where
  "provider_message_type_value TICKET = ''TICKET''"
| "provider_message_type_value RECOMMENDATION = ''RECOMMENDATION''"
| "provider_message_type_value CONFIRM_RECOMMENDATION = ''CONFIRM_RECOMMENDATION''"
| "provider_message_type_value DECLINE_RECOMMENDATION = ''DECLINE_RECOMMENDATION''"
| "provider_message_type_value REQUEST_CANCELLATION = ''REQUEST_CANCELLATION''"
| "provider_message_type_value CANCELLATION_APPLIED = ''CANCELLATION_APPLIED''"
| "provider_message_type_value ACK = ''ACK''"

datatype recommendation_action =
    ACCEPT
  | DECLINE

fun recommendation_action_value :: "recommendation_action \<Rightarrow> string" where
  "recommendation_action_value ACCEPT = ''accept''"
| "recommendation_action_value DECLINE = ''decline''"

datatype provider_error_code =
    TICKET_EXPIRED
  | PROVIDER_BUSY
  | RISK_ENGINE_TIMEOUT
  | INVALID_TICKET

fun provider_error_code_value :: "provider_error_code \<Rightarrow> string" where
  "provider_error_code_value TICKET_EXPIRED = ''ticket_expired''"
| "provider_error_code_value PROVIDER_BUSY = ''provider_busy''"
| "provider_error_code_value RISK_ENGINE_TIMEOUT = ''risk_engine_timeout''"
| "provider_error_code_value INVALID_TICKET = ''invalid_ticket''"

text \<open>
  Each of them is a finite type whose members are listed in the order of their class,
  which makes quantification over members computable.
\<close>

instantiation currency :: enum
begin

definition enum_currency :: "currency list" where
  "enum_currency = [RUB, USD, EUR]"

definition enum_all_currency :: "(currency \<Rightarrow> bool) \<Rightarrow> bool" where
  "enum_all_currency P \<longleftrightarrow> P RUB \<and> P USD \<and> P EUR"

definition enum_ex_currency :: "(currency \<Rightarrow> bool) \<Rightarrow> bool" where
  "enum_ex_currency P \<longleftrightarrow> P RUB \<or> P USD \<or> P EUR"

instance
proof
  show univ: "(UNIV :: currency set) = set enum_class.enum"
    using currency.exhaust by (auto simp: enum_currency_def)
  show "distinct (enum_class.enum :: currency list)"
    by (simp add: enum_currency_def)
  show "enum_class.enum_all P \<longleftrightarrow> Ball UNIV P" for P :: "currency \<Rightarrow> bool"
    unfolding univ by (simp add: enum_currency_def enum_all_currency_def)
  show "enum_class.enum_ex P \<longleftrightarrow> Bex UNIV P" for P :: "currency \<Rightarrow> bool"
    unfolding univ by (simp add: enum_currency_def enum_ex_currency_def)
qed

end

instantiation outbox_status :: enum
begin

definition enum_outbox_status :: "outbox_status list" where
  "enum_outbox_status = [PENDING, PUBLISHED, FAILED]"

definition enum_all_outbox_status :: "(outbox_status \<Rightarrow> bool) \<Rightarrow> bool" where
  "enum_all_outbox_status P \<longleftrightarrow> P PENDING \<and> P PUBLISHED \<and> P FAILED"

definition enum_ex_outbox_status :: "(outbox_status \<Rightarrow> bool) \<Rightarrow> bool" where
  "enum_ex_outbox_status P \<longleftrightarrow> P PENDING \<or> P PUBLISHED \<or> P FAILED"

instance
proof
  show univ: "(UNIV :: outbox_status set) = set enum_class.enum"
    using outbox_status.exhaust by (auto simp: enum_outbox_status_def)
  show "distinct (enum_class.enum :: outbox_status list)"
    by (simp add: enum_outbox_status_def)
  show "enum_class.enum_all P \<longleftrightarrow> Ball UNIV P" for P :: "outbox_status \<Rightarrow> bool"
    unfolding univ by (simp add: enum_outbox_status_def enum_all_outbox_status_def)
  show "enum_class.enum_ex P \<longleftrightarrow> Bex UNIV P" for P :: "outbox_status \<Rightarrow> bool"
    unfolding univ by (simp add: enum_outbox_status_def enum_ex_outbox_status_def)
qed

end

instantiation ticket_status :: enum
begin

definition enum_ticket_status :: "ticket_status list" where
  "enum_ticket_status = [NEW, SENT_TO_PROVIDER, RECOMMENDED_CONFIRM, RECOMMENDED_DECLINE, SETTLED, CONFIRMED, DECLINED, CANCELLATION_REQUESTED, CANCELLED, EXPIRED]"

definition enum_all_ticket_status :: "(ticket_status \<Rightarrow> bool) \<Rightarrow> bool" where
  "enum_all_ticket_status P \<longleftrightarrow> P NEW \<and> P SENT_TO_PROVIDER \<and> P RECOMMENDED_CONFIRM \<and> P RECOMMENDED_DECLINE \<and> P SETTLED \<and> P CONFIRMED \<and> P DECLINED \<and> P CANCELLATION_REQUESTED \<and> P CANCELLED \<and> P EXPIRED"

definition enum_ex_ticket_status :: "(ticket_status \<Rightarrow> bool) \<Rightarrow> bool" where
  "enum_ex_ticket_status P \<longleftrightarrow> P NEW \<or> P SENT_TO_PROVIDER \<or> P RECOMMENDED_CONFIRM \<or> P RECOMMENDED_DECLINE \<or> P SETTLED \<or> P CONFIRMED \<or> P DECLINED \<or> P CANCELLATION_REQUESTED \<or> P CANCELLED \<or> P EXPIRED"

instance
proof
  show univ: "(UNIV :: ticket_status set) = set enum_class.enum"
    using ticket_status.exhaust by (auto simp: enum_ticket_status_def)
  show "distinct (enum_class.enum :: ticket_status list)"
    by (simp add: enum_ticket_status_def)
  show "enum_class.enum_all P \<longleftrightarrow> Ball UNIV P" for P :: "ticket_status \<Rightarrow> bool"
    unfolding univ by (simp add: enum_ticket_status_def enum_all_ticket_status_def)
  show "enum_class.enum_ex P \<longleftrightarrow> Bex UNIV P" for P :: "ticket_status \<Rightarrow> bool"
    unfolding univ by (simp add: enum_ticket_status_def enum_ex_ticket_status_def)
qed

end

instantiation provider_message_type :: enum
begin

definition enum_provider_message_type :: "provider_message_type list" where
  "enum_provider_message_type = [TICKET, RECOMMENDATION, CONFIRM_RECOMMENDATION, DECLINE_RECOMMENDATION, REQUEST_CANCELLATION, CANCELLATION_APPLIED, ACK]"

definition enum_all_provider_message_type :: "(provider_message_type \<Rightarrow> bool) \<Rightarrow> bool" where
  "enum_all_provider_message_type P \<longleftrightarrow> P TICKET \<and> P RECOMMENDATION \<and> P CONFIRM_RECOMMENDATION \<and> P DECLINE_RECOMMENDATION \<and> P REQUEST_CANCELLATION \<and> P CANCELLATION_APPLIED \<and> P ACK"

definition enum_ex_provider_message_type :: "(provider_message_type \<Rightarrow> bool) \<Rightarrow> bool" where
  "enum_ex_provider_message_type P \<longleftrightarrow> P TICKET \<or> P RECOMMENDATION \<or> P CONFIRM_RECOMMENDATION \<or> P DECLINE_RECOMMENDATION \<or> P REQUEST_CANCELLATION \<or> P CANCELLATION_APPLIED \<or> P ACK"

instance
proof
  show univ: "(UNIV :: provider_message_type set) = set enum_class.enum"
    using provider_message_type.exhaust by (auto simp: enum_provider_message_type_def)
  show "distinct (enum_class.enum :: provider_message_type list)"
    by (simp add: enum_provider_message_type_def)
  show "enum_class.enum_all P \<longleftrightarrow> Ball UNIV P" for P :: "provider_message_type \<Rightarrow> bool"
    unfolding univ by (simp add: enum_provider_message_type_def enum_all_provider_message_type_def)
  show "enum_class.enum_ex P \<longleftrightarrow> Bex UNIV P" for P :: "provider_message_type \<Rightarrow> bool"
    unfolding univ by (simp add: enum_provider_message_type_def enum_ex_provider_message_type_def)
qed

end

instantiation recommendation_action :: enum
begin

definition enum_recommendation_action :: "recommendation_action list" where
  "enum_recommendation_action = [ACCEPT, DECLINE]"

definition enum_all_recommendation_action :: "(recommendation_action \<Rightarrow> bool) \<Rightarrow> bool" where
  "enum_all_recommendation_action P \<longleftrightarrow> P ACCEPT \<and> P DECLINE"

definition enum_ex_recommendation_action :: "(recommendation_action \<Rightarrow> bool) \<Rightarrow> bool" where
  "enum_ex_recommendation_action P \<longleftrightarrow> P ACCEPT \<or> P DECLINE"

instance
proof
  show univ: "(UNIV :: recommendation_action set) = set enum_class.enum"
    using recommendation_action.exhaust by (auto simp: enum_recommendation_action_def)
  show "distinct (enum_class.enum :: recommendation_action list)"
    by (simp add: enum_recommendation_action_def)
  show "enum_class.enum_all P \<longleftrightarrow> Ball UNIV P" for P :: "recommendation_action \<Rightarrow> bool"
    unfolding univ by (simp add: enum_recommendation_action_def enum_all_recommendation_action_def)
  show "enum_class.enum_ex P \<longleftrightarrow> Bex UNIV P" for P :: "recommendation_action \<Rightarrow> bool"
    unfolding univ by (simp add: enum_recommendation_action_def enum_ex_recommendation_action_def)
qed

end

instantiation provider_error_code :: enum
begin

definition enum_provider_error_code :: "provider_error_code list" where
  "enum_provider_error_code = [TICKET_EXPIRED, PROVIDER_BUSY, RISK_ENGINE_TIMEOUT, INVALID_TICKET]"

definition enum_all_provider_error_code :: "(provider_error_code \<Rightarrow> bool) \<Rightarrow> bool" where
  "enum_all_provider_error_code P \<longleftrightarrow> P TICKET_EXPIRED \<and> P PROVIDER_BUSY \<and> P RISK_ENGINE_TIMEOUT \<and> P INVALID_TICKET"

definition enum_ex_provider_error_code :: "(provider_error_code \<Rightarrow> bool) \<Rightarrow> bool" where
  "enum_ex_provider_error_code P \<longleftrightarrow> P TICKET_EXPIRED \<or> P PROVIDER_BUSY \<or> P RISK_ENGINE_TIMEOUT \<or> P INVALID_TICKET"

instance
proof
  show univ: "(UNIV :: provider_error_code set) = set enum_class.enum"
    using provider_error_code.exhaust by (auto simp: enum_provider_error_code_def)
  show "distinct (enum_class.enum :: provider_error_code list)"
    by (simp add: enum_provider_error_code_def)
  show "enum_class.enum_all P \<longleftrightarrow> Ball UNIV P" for P :: "provider_error_code \<Rightarrow> bool"
    unfolding univ by (simp add: enum_provider_error_code_def enum_all_provider_error_code_def)
  show "enum_class.enum_ex P \<longleftrightarrow> Bex UNIV P" for P :: "provider_error_code \<Rightarrow> bool"
    unfolding univ by (simp add: enum_provider_error_code_def enum_ex_provider_error_code_def)
qed

end

section \<open>Lookup by value\<close>

text \<open>
  Calling an enumeration class with a value returns the first member that has it, and
  raises \<^verbatim>\<open>ValueError\<close> (here \<open>None\<close>) when there is none. The classes share the contract
  that no two members have one value, stated once and discharged for each of them.
\<close>

definition enum_by_value :: "('a::enum \<Rightarrow> string) \<Rightarrow> string \<Rightarrow> 'a option" where
  "enum_by_value val s = find (\<lambda>m. val m = s) enum_class.enum"

locale str_enum =
  fixes val :: "'a::enum \<Rightarrow> string"
  assumes value_inject: "val x = val y \<Longrightarrow> x = y"
begin

lemma by_value_value: "enum_by_value val (val x) = Some x"
proof -
  have "x \<in> set enum_class.enum" by (simp add: enum_UNIV)
  then obtain y where y: "enum_by_value val (val x) = Some y"
    by (cases "enum_by_value val (val x)") (auto simp: enum_by_value_def find_None_iff)
  then have "val y = val x"
    by (auto simp: enum_by_value_def find_Some_iff)
  with y show ?thesis by (simp add: value_inject)
qed

lemma by_value_Some_iff: "enum_by_value val s = Some x \<longleftrightarrow> s = val x"
  using by_value_value by (auto simp: enum_by_value_def find_Some_iff)

lemma by_value_None_iff: "enum_by_value val s = None \<longleftrightarrow> (\<forall>x. val x \<noteq> s)"
  by (simp add: enum_by_value_def find_None_iff enum_UNIV)

end

interpretation cur: str_enum currency_value
proof
  show "x = y" if "currency_value x = currency_value y" for x y
    using that by (cases x; cases y) simp_all
qed

interpretation ost: str_enum outbox_status_value
proof
  show "x = y" if "outbox_status_value x = outbox_status_value y" for x y
    using that by (cases x; cases y) simp_all
qed

interpretation tst: str_enum ticket_status_value
proof
  show "x = y" if "ticket_status_value x = ticket_status_value y" for x y
    using that by (cases x; cases y) simp_all
qed

interpretation pmt: str_enum provider_message_type_value
proof
  show "x = y" if "provider_message_type_value x = provider_message_type_value y" for x y
    using that by (cases x; cases y) simp_all
qed

interpretation rac: str_enum recommendation_action_value
proof
  show "x = y" if "recommendation_action_value x = recommendation_action_value y" for x y
    using that by (cases x; cases y) simp_all
qed

interpretation pec: str_enum provider_error_code_value
proof
  show "x = y" if "provider_error_code_value x = provider_error_code_value y" for x y
    using that by (cases x; cases y) simp_all
qed

text \<open>The lookups of the six classes, for the proofs of the components.\<close>

lemmas value_lookup [simp] =
  cur.by_value_value
  ost.by_value_value
  tst.by_value_value
  pmt.by_value_value
  rac.by_value_value
  pec.by_value_value

section \<open>Terminal statuses\<close>

definition TERMINAL_TICKET_STATUSES :: "ticket_status set" where
  "TERMINAL_TICKET_STATUSES = {CONFIRMED, DECLINED, CANCELLED, EXPIRED}"

abbreviation terminal :: "ticket_status \<Rightarrow> bool" where
  "terminal st \<equiv> st \<in> TERMINAL_TICKET_STATUSES"

lemma terminal_simps [simp]:
  "terminal CONFIRMED" "terminal DECLINED" "terminal CANCELLED" "terminal EXPIRED"
  "\<not> terminal NEW" "\<not> terminal SENT_TO_PROVIDER" "\<not> terminal RECOMMENDED_CONFIRM"
  "\<not> terminal RECOMMENDED_DECLINE" "\<not> terminal SETTLED" "\<not> terminal CANCELLATION_REQUESTED"
  by (simp_all add: TERMINAL_TICKET_STATUSES_def)

definition EVENT_TYPE_TICKET_OUTBOUND :: string where
  "EVENT_TYPE_TICKET_OUTBOUND = ''ticket.outbound''"

definition AGGREGATE_TYPE_TICKET :: string where
  "AGGREGATE_TYPE_TICKET = ''ticket''"

section \<open>Broker topology\<close>

record topology =
  top_tickets_exchange :: string
  top_tickets_dlx_exchange :: string
  top_provider_out_queue :: string
  top_provider_in_queue :: string
  top_tickets_dlq_queue :: string
  top_provider_out_routing_key :: string
  top_provider_in_routing_key :: string
  top_tickets_dlq_routing_key :: string

definition TOPOLOGY :: topology where
  "TOPOLOGY = \<lparr>
     top_tickets_exchange = ''tickets'',
     top_tickets_dlx_exchange = ''tickets.dlx'',
     top_provider_out_queue = ''provider.out'',
     top_provider_in_queue = ''provider.in'',
     top_tickets_dlq_queue = ''tickets.dlq'',
     top_provider_out_routing_key = ''provider.out'',
     top_provider_in_routing_key = ''provider.in'',
     top_tickets_dlq_routing_key = ''tickets.dlq''\<rparr>"

end
