(* ===== verification/Wire.thy ===== *)
theory Wire
  imports Domain "HOL-Library.Monad_Syntax"
begin

text \<open>
  The provider's wire format, \<^verbatim>\<open>backend/workers/provider_gateway/schemas.py\<close>: the payload
  classes, the \<^verbatim>\<open>Message\<close> envelope, their JSON dumps (\<^verbatim>\<open>model_dump(mode="json")\<close>) and their
  validation (\<^verbatim>\<open>model_validate\<close>), and the exceptions the program raises or lets through.

  How pydantic renders and reads a leaf (a UUID, a datetime, a Decimal) is not code of
  this repository: it is the record \<open>codec\<close>, an argument of every definition that dumps
  or validates. What the program relies on is that a rendered leaf reads back, the
  predicate \<open>codec_ok\<close>; the theory \<open>Codec_Reference\<close> gives a codec that satisfies it.
\<close>

section \<open>JSON values\<close>

datatype json =
    JNull
  | JBool bool
  | JNum int
  | JStr string
  | JList "json list"
  | JObj "(string \<times> json) list"

type_synonym dict = "(string \<times> json) list"

datatype decimal = Decimal (coefficient: int) (exponent: int)

record codec =
  uuid_dump :: "uuid \<Rightarrow> json"
  uuid_load :: "json \<Rightarrow> uuid option"
  datetime_dump :: "instant \<Rightarrow> json"
  datetime_load :: "json \<Rightarrow> instant option"
  decimal_dump :: "decimal \<Rightarrow> json"
  decimal_load :: "json \<Rightarrow> decimal option"

text \<open>A rendered leaf reads back, and no leaf is rendered as \<^verbatim>\<open>null\<close>.\<close>

definition codec_ok :: "codec \<Rightarrow> bool" where
  "codec_ok c \<longleftrightarrow>
     (\<forall>u. uuid_load c (uuid_dump c u) = Some u \<and> uuid_dump c u \<noteq> JNull) \<and>
     (\<forall>t. datetime_load c (datetime_dump c t) = Some t) \<and>
     (\<forall>d. decimal_load c (decimal_dump c d) = Some d)"

section \<open>Payloads\<close>

record selection =
  sel_event_id :: string
  sel_market :: string
  sel_odds :: decimal

record ticket_payload =
  tp_ticket_id :: uuid
  tp_user_id :: uuid
  tp_stake_amount :: decimal
  tp_currency :: string
  tp_selections :: "selection list"
  tp_placed_at :: instant

record recommendation_payload =
  rp_ticket_id :: uuid
  rp_action :: recommendation_action
  rp_reason :: "string option"
  rp_expires_at :: instant

record confirm_recommendation_payload =
  cp_ticket_id :: uuid

record decline_recommendation_payload =
  dp_ticket_id :: uuid

record request_cancellation_payload =
  rc_ticket_id :: uuid
  rc_reason :: string

record cancellation_applied_payload =
  ca_ticket_id :: uuid

datatype ack_status = ACK_OK | ACK_ERROR

record ack_payload =
  ack_of :: uuid
  ack_status :: ack_status
  ack_error_code :: "provider_error_code option"
  ack_error_detail :: "string option"

datatype payload =
    TicketPayload ticket_payload
  | RecommendationPayload recommendation_payload
  | ConfirmRecommendationPayload confirm_recommendation_payload
  | DeclineRecommendationPayload decline_recommendation_payload
  | RequestCancellationPayload request_cancellation_payload
  | CancellationAppliedPayload cancellation_applied_payload
  | AckPayload ack_payload

section \<open>Exceptions\<close>

text \<open>
  The exceptions that can be raised on the modelled paths. \<open>ProviderAckError\<close> carries the
  provider's negative acknowledgement; \<open>OtherError\<close> is any other exception of a third-party
  call (a broker or a provider connection), with its text.
\<close>

datatype exn =
    IntegrityError
  | DataError
  | MultipleResultsFound
  | ObjectNotLoaded
  | MonolithError
  | ValidationError
  | ValueError
  | LookupError
  | AttributeError
  | ConnectionError string
  | ProviderAckError ack_payload
  | HTTPException nat string
  | OtherError string

section \<open>Dumping\<close>

definition selection_dump :: "codec \<Rightarrow> selection \<Rightarrow> dict" where
  "selection_dump c s =
     [(''event_id'', JStr (sel_event_id s)),
      (''market'', JStr (sel_market s)),
      (''odds'', decimal_dump c (sel_odds s))]"

definition opt_dump :: "('a \<Rightarrow> json) \<Rightarrow> 'a option \<Rightarrow> json" where
  "opt_dump f x = (case x of None \<Rightarrow> JNull | Some v \<Rightarrow> f v)"

fun ack_status_value :: "ack_status \<Rightarrow> string" where
  "ack_status_value ACK_OK = ''ok''"
| "ack_status_value ACK_ERROR = ''error''"

fun payload_dump :: "codec \<Rightarrow> payload \<Rightarrow> dict" where
  "payload_dump c (TicketPayload p) =
     [(''ticket_id'', uuid_dump c (tp_ticket_id p)),
      (''user_id'', uuid_dump c (tp_user_id p)),
      (''stake_amount'', decimal_dump c (tp_stake_amount p)),
      (''currency'', JStr (tp_currency p)),
      (''selections'', JList (map (\<lambda>s. JObj (selection_dump c s)) (tp_selections p))),
      (''placed_at'', datetime_dump c (tp_placed_at p))]"
| "payload_dump c (RecommendationPayload p) =
     [(''ticket_id'', uuid_dump c (rp_ticket_id p)),
      (''action'', JStr (recommendation_action_value (rp_action p))),
      (''reason'', opt_dump JStr (rp_reason p)),
      (''expires_at'', datetime_dump c (rp_expires_at p))]"
| "payload_dump c (ConfirmRecommendationPayload p) =
     [(''ticket_id'', uuid_dump c (cp_ticket_id p))]"
| "payload_dump c (DeclineRecommendationPayload p) =
     [(''ticket_id'', uuid_dump c (dp_ticket_id p))]"
| "payload_dump c (RequestCancellationPayload p) =
     [(''ticket_id'', uuid_dump c (rc_ticket_id p)), (''reason'', JStr (rc_reason p))]"
| "payload_dump c (CancellationAppliedPayload p) =
     [(''ticket_id'', uuid_dump c (ca_ticket_id p))]"
| "payload_dump c (AckPayload p) =
     [(''ack_of'', uuid_dump c (ack_of p)),
      (''status'', JStr (ack_status_value (ack_status p))),
      (''error_code'', opt_dump (\<lambda>e. JStr (provider_error_code_value e)) (ack_error_code p)),
      (''error_detail'', opt_dump JStr (ack_error_detail p))]"

section \<open>Validation\<close>

text \<open>
  Fields are read from the dictionary by name. A required field must be there and read;
  a field declared \<open>X | None = None\<close> may be absent or \<^verbatim>\<open>null\<close>; with
  \<^verbatim>\<open>extra="forbid"\<close> no other key may occur. Any failure is a \<open>ValidationError\<close>.
\<close>

definition required :: "(json \<Rightarrow> 'a option) \<Rightarrow> string \<Rightarrow> dict \<Rightarrow> 'a option" where
  "required load k d = Option.bind (map_of d k) load"

definition nullable :: "(json \<Rightarrow> 'a option) \<Rightarrow> string \<Rightarrow> dict \<Rightarrow> 'a option option" where
  "nullable load k d =
     (case map_of d k of
        None \<Rightarrow> Some None
      | Some j \<Rightarrow> (if j = JNull then Some None else map_option Some (load j)))"

definition forbid_extra :: "string list \<Rightarrow> dict \<Rightarrow> unit option" where
  "forbid_extra ks d = (if list_all (\<lambda>kv. fst kv \<in> set ks) d then Some () else None)"

fun load_str :: "json \<Rightarrow> string option" where
  "load_str (JStr s) = Some s"
| "load_str _ = None"

fun load_dict :: "json \<Rightarrow> dict option" where
  "load_dict (JObj d) = Some d"
| "load_dict _ = None"

fun load_list :: "json \<Rightarrow> json list option" where
  "load_list (JList xs) = Some xs"
| "load_list _ = None"

definition load_enum :: "('a::enum \<Rightarrow> string) \<Rightarrow> json \<Rightarrow> 'a option" where
  "load_enum val j = Option.bind (load_str j) (enum_by_value val)"

fun map_options :: "('a \<Rightarrow> 'b option) \<Rightarrow> 'a list \<Rightarrow> 'b list option" where
  "map_options f [] = Some []"
| "map_options f (x # xs) = do { y \<leftarrow> f x; ys \<leftarrow> map_options f xs; Some (y # ys) }"

definition load_ack_status :: "json \<Rightarrow> ack_status option" where
  "load_ack_status j =
     do { s \<leftarrow> load_str j;
          if s = ''ok'' then Some ACK_OK else if s = ''error'' then Some ACK_ERROR else None }"

definition selection_validate :: "codec \<Rightarrow> dict \<Rightarrow> selection option" where
  "selection_validate c d = do {
     forbid_extra [''event_id'', ''market'', ''odds''] d;
     e \<leftarrow> required load_str ''event_id'' d;
     m \<leftarrow> required load_str ''market'' d;
     q \<leftarrow> required (decimal_load c) ''odds'' d;
     Some \<lparr>sel_event_id = e, sel_market = m, sel_odds = q\<rparr> }"

definition ticket_payload_validate :: "codec \<Rightarrow> dict \<Rightarrow> ticket_payload option" where
  "ticket_payload_validate c d = do {
     forbid_extra [''ticket_id'', ''user_id'', ''stake_amount'', ''currency'', ''selections'', ''placed_at''] d;
     i \<leftarrow> required (uuid_load c) ''ticket_id'' d;
     u \<leftarrow> required (uuid_load c) ''user_id'' d;
     a \<leftarrow> required (decimal_load c) ''stake_amount'' d;
     q \<leftarrow> required load_str ''currency'' d;
     js \<leftarrow> required load_list ''selections'' d;
     ss \<leftarrow> map_options (\<lambda>j. Option.bind (load_dict j) (selection_validate c)) js;
     t \<leftarrow> required (datetime_load c) ''placed_at'' d;
     Some \<lparr>tp_ticket_id = i, tp_user_id = u, tp_stake_amount = a, tp_currency = q,
           tp_selections = ss, tp_placed_at = t\<rparr> }"

definition recommendation_payload_validate :: "codec \<Rightarrow> dict \<Rightarrow> recommendation_payload option" where
  "recommendation_payload_validate c d = do {
     forbid_extra [''ticket_id'', ''action'', ''reason'', ''expires_at''] d;
     i \<leftarrow> required (uuid_load c) ''ticket_id'' d;
     a \<leftarrow> required (load_enum recommendation_action_value) ''action'' d;
     r \<leftarrow> nullable load_str ''reason'' d;
     t \<leftarrow> required (datetime_load c) ''expires_at'' d;
     Some \<lparr>rp_ticket_id = i, rp_action = a, rp_reason = r, rp_expires_at = t\<rparr> }"

definition confirm_recommendation_payload_validate :: "codec \<Rightarrow> dict \<Rightarrow> confirm_recommendation_payload option" where
  "confirm_recommendation_payload_validate c d = do {
     forbid_extra [''ticket_id''] d;
     i \<leftarrow> required (uuid_load c) ''ticket_id'' d;
     Some \<lparr>cp_ticket_id = i\<rparr> }"

definition decline_recommendation_payload_validate :: "codec \<Rightarrow> dict \<Rightarrow> decline_recommendation_payload option" where
  "decline_recommendation_payload_validate c d = do {
     forbid_extra [''ticket_id''] d;
     i \<leftarrow> required (uuid_load c) ''ticket_id'' d;
     Some \<lparr>dp_ticket_id = i\<rparr> }"

definition request_cancellation_payload_validate :: "codec \<Rightarrow> dict \<Rightarrow> request_cancellation_payload option" where
  "request_cancellation_payload_validate c d = do {
     forbid_extra [''ticket_id'', ''reason''] d;
     i \<leftarrow> required (uuid_load c) ''ticket_id'' d;
     r \<leftarrow> required load_str ''reason'' d;
     Some \<lparr>rc_ticket_id = i, rc_reason = r\<rparr> }"

definition cancellation_applied_payload_validate :: "codec \<Rightarrow> dict \<Rightarrow> cancellation_applied_payload option" where
  "cancellation_applied_payload_validate c d = do {
     forbid_extra [''ticket_id''] d;
     i \<leftarrow> required (uuid_load c) ''ticket_id'' d;
     Some \<lparr>ca_ticket_id = i\<rparr> }"

definition ack_payload_validate :: "codec \<Rightarrow> dict \<Rightarrow> ack_payload option" where
  "ack_payload_validate c d = do {
     forbid_extra [''ack_of'', ''status'', ''error_code'', ''error_detail''] d;
     i \<leftarrow> required (uuid_load c) ''ack_of'' d;
     s \<leftarrow> required load_ack_status ''status'' d;
     e \<leftarrow> nullable (load_enum provider_error_code_value) ''error_code'' d;
     t \<leftarrow> nullable load_str ''error_detail'' d;
     Some \<lparr>ack_of = i, ack_status = s, ack_error_code = e, ack_error_detail = t\<rparr> }"

text \<open>The class table \<^verbatim>\<open>_PAYLOAD_BY_TYPE\<close>: the payload class of each message type.\<close>

fun payload_by_type :: "provider_message_type \<Rightarrow> codec \<Rightarrow> dict \<Rightarrow> payload option" where
  "payload_by_type TICKET c d = map_option TicketPayload (ticket_payload_validate c d)"
| "payload_by_type RECOMMENDATION c d =
     map_option RecommendationPayload (recommendation_payload_validate c d)"
| "payload_by_type CONFIRM_RECOMMENDATION c d =
     map_option ConfirmRecommendationPayload (confirm_recommendation_payload_validate c d)"
| "payload_by_type DECLINE_RECOMMENDATION c d =
     map_option DeclineRecommendationPayload (decline_recommendation_payload_validate c d)"
| "payload_by_type REQUEST_CANCELLATION c d =
     map_option RequestCancellationPayload (request_cancellation_payload_validate c d)"
| "payload_by_type CANCELLATION_APPLIED c d =
     map_option CancellationAppliedPayload (cancellation_applied_payload_validate c d)"
| "payload_by_type ACK c d = map_option AckPayload (ack_payload_validate c d)"

fun payload_type :: "payload \<Rightarrow> provider_message_type" where
  "payload_type (TicketPayload _) = TICKET"
| "payload_type (RecommendationPayload _) = RECOMMENDATION"
| "payload_type (ConfirmRecommendationPayload _) = CONFIRM_RECOMMENDATION"
| "payload_type (DeclineRecommendationPayload _) = DECLINE_RECOMMENDATION"
| "payload_type (RequestCancellationPayload _) = REQUEST_CANCELLATION"
| "payload_type (CancellationAppliedPayload _) = CANCELLATION_APPLIED"
| "payload_type (AckPayload _) = ACK"

definition raise_invalid :: "'a option \<Rightarrow> exn + 'a" where
  "raise_invalid r = (case r of None \<Rightarrow> Inl ValidationError | Some x \<Rightarrow> Inr x)"

section \<open>The message envelope\<close>

record message =
  m_message_id :: uuid
  m_ticket_id :: "uuid option"
  m_type :: provider_message_type
  m_timestamp :: instant
  m_payload :: dict

text \<open>
  \<^verbatim>\<open>Message.build\<close>: \<open>fresh\<close> is the value of \<^verbatim>\<open>uuid.uuid4()\<close>, drawn when no identifier is
  given, and \<open>now\<close> the default of the timestamp.
\<close>

definition message_build ::
  "codec \<Rightarrow> payload \<Rightarrow> provider_message_type \<Rightarrow> uuid option \<Rightarrow> uuid option \<Rightarrow> uuid \<Rightarrow> instant \<Rightarrow> message" where
  "message_build c p ty message_id ticket_id fresh now =
     \<lparr>m_message_id = (case message_id of Some i \<Rightarrow> i | None \<Rightarrow> fresh),
      m_ticket_id = ticket_id,
      m_type = ty,
      m_timestamp = now,
      m_payload = payload_dump c p\<rparr>"

definition message_dump :: "codec \<Rightarrow> message \<Rightarrow> dict" where
  "message_dump c m =
     [(''message_id'', uuid_dump c (m_message_id m)),
      (''ticket_id'', opt_dump (uuid_dump c) (m_ticket_id m)),
      (''type'', JStr (provider_message_type_value (m_type m))),
      (''timestamp'', datetime_dump c (m_timestamp m)),
      (''payload'', JObj (m_payload m))]"

text \<open>
  \<^verbatim>\<open>Message.model_validate\<close>: unknown keys are ignored, an absent identifier or timestamp
  gets its default.
\<close>

definition with_default :: "'a \<Rightarrow> (json \<Rightarrow> 'a option) \<Rightarrow> string \<Rightarrow> dict \<Rightarrow> 'a option" where
  "with_default x load k d = (case map_of d k of None \<Rightarrow> Some x | Some j \<Rightarrow> load j)"

definition message_validate :: "codec \<Rightarrow> uuid \<Rightarrow> instant \<Rightarrow> dict \<Rightarrow> message option" where
  "message_validate c fresh now d = do {
     i \<leftarrow> with_default fresh (uuid_load c) ''message_id'' d;
     t \<leftarrow> nullable (uuid_load c) ''ticket_id'' d;
     ty \<leftarrow> required (load_enum provider_message_type_value) ''type'' d;
     ts \<leftarrow> with_default now (datetime_load c) ''timestamp'' d;
     p \<leftarrow> required load_dict ''payload'' d;
     Some \<lparr>m_message_id = i, m_ticket_id = t, m_type = ty, m_timestamp = ts, m_payload = p\<rparr> }"

section \<open>What a codec gives the client\<close>

lemma map_options_map:
  "(\<And>x. x \<in> set xs \<Longrightarrow> f (g x) = Some x) \<Longrightarrow> map_options f (map g xs) = Some xs"
  by (induction xs) auto

lemma load_enum_value: "str_enum val \<Longrightarrow> load_enum val (JStr (val x)) = Some x"
  by (simp add: load_enum_def str_enum.by_value_value)

text \<open>Reading a field whose key and value are at hand, by evaluation.\<close>

lemmas field_defs =
  required_def nullable_def forbid_extra_def with_default_def opt_dump_def load_ack_status_def

locale leaf_codec =
  fixes c :: codec
  assumes leaves: "codec_ok c"
begin

lemma uuid_rt [simp]: "uuid_load c (uuid_dump c u) = Some u"
  using leaves by (simp add: codec_ok_def)

lemma uuid_not_null [simp]: "uuid_dump c u \<noteq> JNull"
  using leaves by (simp add: codec_ok_def)

lemma datetime_rt [simp]: "datetime_load c (datetime_dump c t) = Some t"
  using leaves by (simp add: codec_ok_def)

lemma decimal_rt [simp]: "decimal_load c (decimal_dump c d) = Some d"
  using leaves by (simp add: codec_ok_def)

lemma enum_rt [simp]:
  "load_enum recommendation_action_value (JStr (recommendation_action_value a)) = Some a"
  "load_enum provider_message_type_value (JStr (provider_message_type_value ty)) = Some ty"
  "load_enum provider_error_code_value (JStr (provider_error_code_value e)) = Some e"
  by (simp_all add: load_enum_value rac.str_enum_axioms pmt.str_enum_axioms pec.str_enum_axioms)

lemma selection_roundtrip: "selection_validate c (selection_dump c s) = Some s"
  by (simp add: selection_validate_def selection_dump_def field_defs)

lemma ticket_payload_roundtrip:
  "ticket_payload_validate c (payload_dump c (TicketPayload p)) = Some p"
proof -
  have "map_options (\<lambda>j. Option.bind (load_dict j) (selection_validate c))
          (map (\<lambda>s. JObj (selection_dump c s)) (tp_selections p)) = Some (tp_selections p)"
    by (rule map_options_map) (simp add: selection_roundtrip)
  then show ?thesis by (simp add: ticket_payload_validate_def field_defs)
qed

lemma recommendation_payload_roundtrip:
  "recommendation_payload_validate c (payload_dump c (RecommendationPayload p)) = Some p"
  by (cases "rp_reason p") (simp_all add: recommendation_payload_validate_def field_defs)

lemma cancellation_applied_payload_roundtrip:
  "cancellation_applied_payload_validate c (payload_dump c (CancellationAppliedPayload p)) = Some p"
  by (simp add: cancellation_applied_payload_validate_def field_defs)

lemma ack_payload_roundtrip:
  "ack_payload_validate c (payload_dump c (AckPayload p)) = Some p"
  by (cases "ack_status p"; cases "ack_error_code p"; cases "ack_error_detail p")
    (simp_all add: ack_payload_validate_def field_defs)

lemma payload_roundtrip: "payload_by_type (payload_type p) c (payload_dump c p) = Some p"
proof (cases p)
  case (TicketPayload x)
  then show ?thesis using ticket_payload_roundtrip by simp
next
  case (RecommendationPayload x)
  then show ?thesis using recommendation_payload_roundtrip by simp
next
  case (AckPayload x)
  then show ?thesis using ack_payload_roundtrip by simp
qed (simp_all add: confirm_recommendation_payload_validate_def
      decline_recommendation_payload_validate_def request_cancellation_payload_validate_def
      cancellation_applied_payload_validate_def field_defs)

lemma message_roundtrip: "message_validate c fresh now (message_dump c m) = Some m"
  by (cases "m_ticket_id m") (simp_all add: message_validate_def message_dump_def field_defs)

end

text \<open>The round trips for a codec that keeps the contract, outside the locale.\<close>

lemmas codec_reads =
  leaf_codec.message_roundtrip [OF leaf_codec.intro]
  leaf_codec.payload_roundtrip [OF leaf_codec.intro]
  leaf_codec.selection_roundtrip [OF leaf_codec.intro]
  leaf_codec.ticket_payload_roundtrip [OF leaf_codec.intro]
  leaf_codec.recommendation_payload_roundtrip [OF leaf_codec.intro]
  leaf_codec.cancellation_applied_payload_roundtrip [OF leaf_codec.intro]

end
