(* ===== verification/Codec_Reference.thy ===== *)
theory Codec_Reference
  imports Wire
begin

text \<open>
  A concrete codec that satisfies the contract of \<open>Wire\<close>: a UUID as its canonical
  8-4-4-4-12 hexadecimal text, a Decimal in scientific notation (coefficient, \<^verbatim>\<open>E\<close>,
  exponent), a point in time as its count of microseconds. It shows that the hypothesis
  \<open>codec_ok\<close> can hold and is the codec of every witness. Also the decimal rendering of
  integers, which the configuration uses in its URLs.
\<close>

section \<open>Digits\<close>

definition digit_char :: "nat \<Rightarrow> char" where
  "digit_char n = ''0123456789abcdef'' ! n"

definition char_digit :: "char \<Rightarrow> nat option" where
  "char_digit ch = find (\<lambda>n. digit_char n = ch) [0..<16]"

fun read_digits :: "nat \<Rightarrow> nat \<Rightarrow> string \<Rightarrow> nat option" where
  "read_digits b acc [] = Some acc"
| "read_digits b acc (ch # cs) =
     (case char_digit ch of
        None \<Rightarrow> None
      | Some v \<Rightarrow> if v < b then read_digits b (acc * b + v) cs else None)"

fun fixed_digits :: "nat \<Rightarrow> nat \<Rightarrow> nat \<Rightarrow> string" where
  "fixed_digits b 0 n = []"
| "fixed_digits b (Suc k) n = fixed_digits b k (n div b) @ [digit_char (n mod b)]"

fun show_nat :: "nat \<Rightarrow> string" where
  "show_nat n = (if n < 10 then [digit_char n] else show_nat (n div 10) @ [digit_char (n mod 10)])"

declare show_nat.simps [simp del]

lemma char_digit_digit_char [simp]:
  assumes "n < 16"
  shows "char_digit (digit_char n) = Some n"
proof -
  have "\<forall>n < 16. char_digit (digit_char n) = Some n"
    by (simp add: All_less_Suc2 char_digit_def digit_char_def numeral_eq_Suc)
  with assms show ?thesis by blast
qed

lemma digit_char_not_sep:
  assumes "n < 16"
  shows "digit_char n \<noteq> CHR ''-'' \<and> digit_char n \<noteq> CHR ''E''"
proof -
  have "\<forall>n < 16. digit_char n \<noteq> CHR ''-'' \<and> digit_char n \<noteq> CHR ''E''"
    by (simp add: All_less_Suc2 digit_char_def numeral_eq_Suc)
  with assms show ?thesis by blast
qed

lemma read_digits_snoc:
  "read_digits b acc (cs @ [ch]) =
     Option.bind (read_digits b acc cs)
       (\<lambda>n. case char_digit ch of None \<Rightarrow> None | Some v \<Rightarrow> if v < b then Some (n * b + v) else None)"
  by (induction cs arbitrary: acc) (auto split: option.splits)

lemma read_fixed_digits:
  assumes "0 < b" and "b \<le> 16"
  shows "read_digits b 0 (fixed_digits b k n) = Some (n mod b ^ k)"
proof (induction k arbitrary: n)
  case 0
  then show ?case by simp
next
  case (Suc k)
  have "n mod b < b" using assms by simp
  moreover from this assms have "char_digit (digit_char (n mod b)) = Some (n mod b)"
    by (intro char_digit_digit_char) linarith
  moreover have "n mod (b * b ^ k) = b * (n div b mod b ^ k) + n mod b"
    by (rule mod_mult2_eq)
  ultimately show ?case by (simp add: Suc.IH read_digits_snoc mult.commute)
qed

lemma length_fixed_digits [simp]: "length (fixed_digits b k n) = k"
  by (induction k arbitrary: n) simp_all

lemma set_fixed_digits:
  assumes "0 < b" and "b \<le> 16"
  shows "ch \<in> set (fixed_digits b k n) \<Longrightarrow> ch \<noteq> CHR ''-''"
proof (induction k arbitrary: n)
  case (Suc k)
  have "n mod b < 16" using assms by (meson less_le_trans mod_less_divisor)
  from digit_char_not_sep [OF this] Suc show ?case by auto
qed simp

lemma read_show_nat: "read_digits 10 0 (show_nat n) = Some n"
proof (induction n rule: show_nat.induct)
  case (1 n)
  show ?case
  proof (cases "n < 10")
    case True
    then show ?thesis by (simp add: show_nat.simps [of n])
  next
    case False
    with "1.IH" have ih: "read_digits 10 0 (show_nat (n div 10)) = Some (n div 10)" by simp
    from False show ?thesis
      by (subst show_nat.simps) (simp add: ih read_digits_snoc)
  qed
qed

lemma show_nat_chars: "ch \<in> set (show_nat n) \<Longrightarrow> ch \<noteq> CHR ''-'' \<and> ch \<noteq> CHR ''E''"
proof (induction n rule: show_nat.induct)
  case (1 n)
  show ?case
  proof (cases "n < 10")
    case True
    with "1.prems" show ?thesis by (simp add: show_nat.simps [of n] digit_char_not_sep)
  next
    case False
    with "1.prems" have "ch \<in> set (show_nat (n div 10)) \<or> ch = digit_char (n mod 10)"
      by (auto simp: show_nat.simps [of n])
    moreover have "n mod 10 < 16" by (rule less_trans [of _ 10]) simp_all
    ultimately show ?thesis using False "1.IH" digit_char_not_sep [of "n mod 10"] by auto
  qed
qed

lemma show_nat_nonempty: "show_nat n \<noteq> []"
  by (subst show_nat.simps) simp

section \<open>Integers, UUIDs and decimals\<close>

definition show_int :: "int \<Rightarrow> string" where
  "show_int i = (if i < 0 then CHR ''-'' # show_nat (nat (- i)) else show_nat (nat i))"

fun read_int :: "string \<Rightarrow> int option" where
  "read_int [] = None"
| "read_int (ch # cs) =
     (if ch = CHR ''-'' then map_option (\<lambda>n. - int n) (read_digits 10 0 cs)
      else map_option int (read_digits 10 0 (ch # cs)))"

lemma read_show_int: "read_int (show_int i) = Some i"
proof (cases "i < 0")
  case True
  then show ?thesis by (simp add: show_int_def read_show_nat)
next
  case False
  obtain ch cs where s: "show_nat (nat i) = ch # cs"
    using show_nat_nonempty by (cases "show_nat (nat i)") auto
  with show_nat_chars [of ch "nat i"] have "ch \<noteq> CHR ''-''" by simp
  with s False read_show_nat [of "nat i"] show ?thesis by (simp add: show_int_def del: read_digits.simps)
qed

definition uuid_str :: "uuid \<Rightarrow> string" where
  "uuid_str u =
     (let h = fixed_digits 16 32 (unat u)
      in take 8 h @ ''-'' @ take 4 (drop 8 h) @ ''-'' @ take 4 (drop 12 h) @ ''-''
         @ take 4 (drop 16 h) @ ''-'' @ drop 20 h)"

definition uuid_parse :: "string \<Rightarrow> uuid option" where
  "uuid_parse s =
     (let h = filter (\<lambda>ch. ch \<noteq> CHR ''-'') s
      in if length h = 32 then map_option of_nat (read_digits 16 0 h) else None)"

lemma uuid_parse_str: "uuid_parse (uuid_str u) = Some u"
proof -
  define h where "h = fixed_digits 16 32 (unat u)"
  have nodash: "filter (\<lambda>ch. ch \<noteq> CHR ''-'') xs = xs" if "set xs \<subseteq> set h" for xs
    using that set_fixed_digits [of 16 _ 32 "unat u"]
    by (intro filter_True) (auto simp: h_def)
  have pieces: "h = take 8 h @ take 4 (drop 8 h) @ take 4 (drop 12 h) @ take 4 (drop 16 h) @ drop 20 h"
  proof -
    have "drop (m + 4) h = drop 4 (drop m h)" for m by (simp add: add.commute)
    then have step: "drop m h = take 4 (drop m h) @ drop (m + 4) h" for m
      by (metis append_take_drop_id)
    show ?thesis
      using step [of 8] step [of 12] step [of 16] append_take_drop_id [of 8 h] by simp
  qed
  have sub: "set (take n h) \<subseteq> set h" "set (take n (drop m h)) \<subseteq> set h" "set (drop n h) \<subseteq> set h" for n m
    by (auto dest: in_set_takeD in_set_dropD)
  have "filter (\<lambda>ch. ch \<noteq> CHR ''-'') (uuid_str u) = h"
    unfolding uuid_str_def Let_def h_def [symmetric]
    by (simp add: nodash sub) (rule pieces [symmetric])
  moreover have "read_digits 16 0 h = Some (unat u mod 16 ^ 32)"
    by (simp add: h_def read_fixed_digits)
  moreover have "unat u < 16 ^ 32"
    using unsigned_less [of u, where 'a = nat] by simp
  ultimately show ?thesis
    by (simp add: uuid_parse_def h_def)
qed

fun load_uuid_str :: "json \<Rightarrow> uuid option" where
  "load_uuid_str (JStr s) = uuid_parse s"
| "load_uuid_str _ = None"

definition decimal_str :: "decimal \<Rightarrow> string" where
  "decimal_str d = show_int (coefficient d) @ ''E'' @ show_int (exponent d)"

definition decimal_parse :: "string \<Rightarrow> decimal option" where
  "decimal_parse s =
     (case dropWhile (\<lambda>ch. ch \<noteq> CHR ''E'') s of
        [] \<Rightarrow> map_option (\<lambda>c. Decimal c 0) (read_int s)
      | _ # t \<Rightarrow>
          do { c \<leftarrow> read_int (takeWhile (\<lambda>ch. ch \<noteq> CHR ''E'') s);
               e \<leftarrow> read_int t;
               Some (Decimal c e) })"

lemma show_int_no_E: "ch \<in> set (show_int i) \<Longrightarrow> ch \<noteq> CHR ''E''"
  using show_nat_chars by (auto simp: show_int_def split: if_splits)

lemma decimal_parse_str: "decimal_parse (decimal_str d) = Some d"
  using show_int_no_E
  by (simp add: decimal_parse_def decimal_str_def read_show_int
      dropWhile_append3 takeWhile_append dropWhile_append)

fun load_decimal_str :: "json \<Rightarrow> decimal option" where
  "load_decimal_str (JStr s) = decimal_parse s"
| "load_decimal_str (JNum n) = Some (Decimal n 0)"
| "load_decimal_str _ = None"

fun load_instant :: "json \<Rightarrow> instant option" where
  "load_instant (JNum n) = Some n"
| "load_instant _ = None"

definition ref_codec :: codec where
  "ref_codec =
     \<lparr>uuid_dump = (\<lambda>u. JStr (uuid_str u)),
      uuid_load = load_uuid_str,
      datetime_dump = JNum,
      datetime_load = load_instant,
      decimal_dump = (\<lambda>d. JStr (decimal_str d)),
      decimal_load = load_decimal_str\<rparr>"

lemma ref_codec_ok: "codec_ok ref_codec"
  by (simp add: codec_ok_def ref_codec_def uuid_parse_str decimal_parse_str)

interpretation ref: leaf_codec ref_codec
  by unfold_locales (rule ref_codec_ok)

section \<open>What is written is read\<close>

text \<open>
  C37: the wire format loses nothing. A message built around a payload of the class of its
  type is read back from its body as it was written, whatever the reader's defaults, and its
  payload as the payload it was built around; so two messages with one body are the same.
\<close>

theorem wire_roundtrip:
  assumes c: "codec_ok c" and m: "m = message_build c p (payload_type p) i tid fresh now"
  shows "message_validate c fresh' arrival (message_dump c m) = Some m \<and>
    payload_by_type (m_type m) c (m_payload m) = Some p \<and>
    m_message_id m = (case i of Some x \<Rightarrow> x | None \<Rightarrow> fresh) \<and> m_ticket_id m = tid \<and> m_timestamp m = now \<and>
    (\<forall>m'. message_dump c m' = message_dump c m \<longrightarrow> m' = m)"
proof -
  have reads: "message_validate c f a (message_dump c x) = Some x" for f a x
    by (rule codec_reads(1) [OF c])
  have "m' = m" if "message_dump c m' = message_dump c m" for m'
    using that by (metis option.inject reads)
  then show ?thesis
    using reads [of fresh' arrival m] codec_reads(2) [OF c, of p]
    by (simp add: m message_build_def)
qed

theorem wire_roundtrip_witness:
  "message_validate ref_codec 0 0 (message_dump ref_codec
      (message_build ref_codec (RequestCancellationPayload \<lparr>rc_ticket_id = 7, rc_reason = ''late''\<rparr>)
        REQUEST_CANCELLATION None (Some 7) 55 1000)) =
    Some (message_build ref_codec (RequestCancellationPayload \<lparr>rc_ticket_id = 7, rc_reason = ''late''\<rparr>)
        REQUEST_CANCELLATION None (Some 7) 55 1000)"
  using wire_roundtrip [OF ref_codec_ok refl, of 0 0 "RequestCancellationPayload \<lparr>rc_ticket_id = 7, rc_reason = ''late''\<rparr>"
      None "Some 7" 55 1000] by simp

end
