(* ===== verification/Database.thy ===== *)
theory Database
  imports Codec_Reference
begin

text \<open>
  The rows of the three tables (\<^verbatim>\<open>backend/db/models\<close>), the constraints the tables declare,
  and the statements that insert and change rows. A statement that violates a constraint
  raises: a value that does not fit its column \<open>DataError\<close>, a unique, primary-key or check
  constraint \<open>IntegrityError\<close>.
\<close>

section \<open>Rows\<close>

record ticket =
  t_id :: uuid
  t_idempotency_key :: string
  t_user_id :: uuid
  t_stake_amount :: decimal
  t_currency :: currency
  t_selections :: "dict list"
  t_status :: ticket_status
  t_provider_recommendation :: "recommendation_action option"
  t_provider_reason :: "string option"
  t_provider_recommendation_at :: "instant option"
  t_settled_at :: "instant option"
  t_confirmed_at :: "instant option"
  t_cancelled_at :: "instant option"
  t_failure_reason :: "string option"
  t_created_at :: instant
  t_updated_at :: instant

record outbox_event =
  e_id :: uuid
  e_entity_id :: uuid
  e_event_type :: string
  e_routing_key :: string
  e_payload :: dict
  e_status :: outbox_status
  e_attempts :: nat
  e_last_error :: "string option"
  e_published_at :: "instant option"
  e_created_at :: instant
  e_updated_at :: instant

record processed_provider_message =
  p_message_id :: uuid
  p_ticket_id :: "uuid option"
  p_message_type :: string
  p_processed_at :: instant

record database =
  tickets :: "ticket list"
  outbox_events :: "outbox_event list"
  processed :: "processed_provider_message list"

definition empty_db :: database where
  "empty_db = \<lparr>tickets = [], outbox_events = [], processed = []\<rparr>"

section \<open>Column constraints\<close>

text \<open>
  \<^verbatim>\<open>Numeric(18, 2)\<close>: the stored value is rounded to two places, a tie away from zero, and
  must have at most 18 digits.
\<close>

definition numeric_round :: "nat \<Rightarrow> decimal \<Rightarrow> decimal" where
  "numeric_round p d =
     (let c = coefficient d; e = exponent d in
      if - int p \<le> e then Decimal (c * 10 ^ nat (e + int p)) (- int p)
      else let q = 10 ^ nat (- int p - e)
           in Decimal (sgn c * ((2 * \<bar>c\<bar> + q) div (2 * q))) (- int p))"

definition numeric_fits :: "nat \<Rightarrow> decimal \<Rightarrow> bool" where
  "numeric_fits digits d \<longleftrightarrow> \<bar>coefficient d\<bar> < 10 ^ digits"

definition varchar_fits :: "nat \<Rightarrow> string option \<Rightarrow> bool" where
  "varchar_fits n s = (case s of None \<Rightarrow> True | Some x \<Rightarrow> length x \<le> n)"

text \<open>The widths the ticket columns declare.\<close>

definition ticket_columns_fit :: "ticket \<Rightarrow> bool" where
  "ticket_columns_fit t \<longleftrightarrow>
     length (t_idempotency_key t) \<le> 128 \<and>
     numeric_fits 18 (t_stake_amount t) \<and>
     varchar_fits 512 (t_provider_reason t) \<and>
     varchar_fits 1024 (t_failure_reason t)"

definition stake_amount_positive :: "ticket \<Rightarrow> bool" where
  "stake_amount_positive t \<longleftrightarrow> 0 < coefficient (t_stake_amount t)"

definition outbox_columns_fit :: "outbox_event \<Rightarrow> bool" where
  "outbox_columns_fit e \<longleftrightarrow>
     length (e_event_type e) \<le> 128 \<and> length (e_routing_key e) \<le> 255 \<and>
     varchar_fits 2048 (e_last_error e)"

section \<open>Statements\<close>

text \<open>
  INSERT of a ticket: the timestamps take their server default \<^verbatim>\<open>now()\<close>, the stake is stored
  as its column stores it, and the constraints are checked in the server's order.
\<close>

definition stored_ticket :: "instant \<Rightarrow> ticket \<Rightarrow> ticket" where
  "stored_ticket now t =
     t\<lparr>t_stake_amount := numeric_round 2 (t_stake_amount t), t_created_at := now, t_updated_at := now\<rparr>"

definition insert_ticket :: "instant \<Rightarrow> ticket \<Rightarrow> database \<Rightarrow> exn + database" where
  "insert_ticket now t db =
     (let r = stored_ticket now t in
      if \<not> ticket_columns_fit r then Inl DataError
      else if \<not> stake_amount_positive r then Inl IntegrityError
      else if select_by t_id (t_id r) (tickets db) \<noteq> [] then Inl IntegrityError
      else if select_by t_idempotency_key (t_idempotency_key r) (tickets db) \<noteq> [] then Inl IntegrityError
      else Inr (db\<lparr>tickets := insert_row r (tickets db)\<rparr>))"

definition insert_outbox_event :: "outbox_event \<Rightarrow> database \<Rightarrow> exn + database" where
  "insert_outbox_event e db =
     (if \<not> outbox_columns_fit e then Inl DataError
      else if select_by e_id (e_id e) (outbox_events db) \<noteq> [] then Inl IntegrityError
      else Inr (db\<lparr>outbox_events := insert_row e (outbox_events db)\<rparr>))"

text \<open>
  UPDATE of a ticket from the attributes of its object: the columns whose attribute differs
  from the value last loaded are written, the others keep the row's value.
\<close>

definition changed :: "('t \<Rightarrow> 'v) \<Rightarrow> 't \<Rightarrow> 't \<Rightarrow> 't \<Rightarrow> 'v" where
  "changed col loaded cur r = (if col cur = col loaded then col r else col cur)"

definition merge_columns :: "ticket \<Rightarrow> ticket \<Rightarrow> ticket \<Rightarrow> ticket" where
  "merge_columns loaded cur r =
     \<lparr>t_id = t_id r,
      t_idempotency_key = changed t_idempotency_key loaded cur r,
      t_user_id = changed t_user_id loaded cur r,
      t_stake_amount = changed t_stake_amount loaded cur r,
      t_currency = changed t_currency loaded cur r,
      t_selections = changed t_selections loaded cur r,
      t_status = changed t_status loaded cur r,
      t_provider_recommendation = changed t_provider_recommendation loaded cur r,
      t_provider_reason = changed t_provider_reason loaded cur r,
      t_provider_recommendation_at = changed t_provider_recommendation_at loaded cur r,
      t_settled_at = changed t_settled_at loaded cur r,
      t_confirmed_at = changed t_confirmed_at loaded cur r,
      t_cancelled_at = changed t_cancelled_at loaded cur r,
      t_failure_reason = changed t_failure_reason loaded cur r,
      t_created_at = changed t_created_at loaded cur r,
      t_updated_at = changed t_updated_at loaded cur r\<rparr>"

definition write_back :: "instant \<Rightarrow> ticket \<Rightarrow> ticket \<Rightarrow> ticket \<Rightarrow> ticket" where
  "write_back now loaded cur r =
     (if cur = loaded then r else (merge_columns loaded cur r)\<lparr>t_updated_at := now\<rparr>)"

section \<open>Well-formed databases\<close>

text \<open>What the constraints of the three tables guarantee of every database state.\<close>

definition db_ok :: "database \<Rightarrow> bool" where
  "db_ok db \<longleftrightarrow>
     unique_by t_id (tickets db) \<and>
     unique_by t_idempotency_key (tickets db) \<and>
     unique_by e_id (outbox_events db) \<and>
     unique_by p_message_id (processed db) \<and>
     (\<forall>t \<in> set (tickets db). ticket_columns_fit t \<and> stake_amount_positive t)"

lemma db_ok_empty: "db_ok empty_db"
  by (simp add: db_ok_def empty_db_def unique_by_def)

lemma write_back_id [simp]: "t_id (write_back now l c r) = t_id r"
  by (simp add: write_back_def merge_columns_def)

lemma merge_columns_fresh:
  "t_id c = t_id l \<Longrightarrow> merge_columns l c l = c"
  by (simp add: merge_columns_def changed_def)

lemma write_back_fresh:
  assumes "t_id c = t_id l"
  shows "write_back now l c l = (if c = l then c else c\<lparr>t_updated_at := now\<rparr>)"
  using assms by (simp add: write_back_def merge_columns_fresh)

text \<open>Every column but \<open>updated_at\<close> after the write.\<close>

lemma write_back_columns:
  "t_idempotency_key (write_back now l c r) = changed t_idempotency_key l c r"
  "t_user_id (write_back now l c r) = changed t_user_id l c r"
  "t_stake_amount (write_back now l c r) = changed t_stake_amount l c r"
  "t_currency (write_back now l c r) = changed t_currency l c r"
  "t_selections (write_back now l c r) = changed t_selections l c r"
  "t_status (write_back now l c r) = changed t_status l c r"
  "t_provider_recommendation (write_back now l c r) = changed t_provider_recommendation l c r"
  "t_provider_reason (write_back now l c r) = changed t_provider_reason l c r"
  "t_provider_recommendation_at (write_back now l c r) = changed t_provider_recommendation_at l c r"
  "t_settled_at (write_back now l c r) = changed t_settled_at l c r"
  "t_confirmed_at (write_back now l c r) = changed t_confirmed_at l c r"
  "t_cancelled_at (write_back now l c r) = changed t_cancelled_at l c r"
  "t_failure_reason (write_back now l c r) = changed t_failure_reason l c r"
  "t_created_at (write_back now l c r) = changed t_created_at l c r"
  by (simp_all add: write_back_def merge_columns_def changed_def)

lemma changed_same [simp]: "changed col l c l = col c"
  by (simp add: changed_def)

lemma insert_ticket_ok:
  assumes "insert_ticket now t db = Inr db'"
  shows "db' = db\<lparr>tickets := insert_row (stored_ticket now t) (tickets db)\<rparr>"
    and "ticket_columns_fit (stored_ticket now t)"
    and "stake_amount_positive (stored_ticket now t)"
    and "t_id t \<notin> t_id ` set (tickets db)"
    and "t_idempotency_key t \<notin> t_idempotency_key ` set (tickets db)"
  using assms
  by (simp_all add: insert_ticket_def Let_def select_by_empty_iff stored_ticket_def split: if_splits)

lemma insert_ticket_db_ok: "insert_ticket now t db = Inr db' \<Longrightarrow> db_ok db \<Longrightarrow> db_ok db'"
  using insert_ticket_ok [of now t db db']
  by (auto simp: db_ok_def table_simps stored_ticket_def)

lemma insert_outbox_event_ok:
  assumes "insert_outbox_event e db = Inr db'"
  shows "db' = db\<lparr>outbox_events := insert_row e (outbox_events db)\<rparr>"
    and "e_id e \<notin> e_id ` set (outbox_events db)"
  using assms by (simp_all add: insert_outbox_event_def select_by_empty_iff split: if_splits)

lemma insert_outbox_event_db_ok:
  "insert_outbox_event e db = Inr db' \<Longrightarrow> db_ok db \<Longrightarrow> db_ok db'"
  using insert_outbox_event_ok [of e db db'] by (simp add: db_ok_def table_simps)

end
