(* ===== verification/Session.thy ===== *)
theory Session
  imports Database
begin

text \<open>
  What a unit of work sees and changes: the committed database shared by all processes,
  the view of the running transaction, the ticket objects the ORM session has loaded, the
  counters of \<^verbatim>\<open>backend/observability/metrics.py\<close>, and the frames given to the broker.

  The session is configured in \<^verbatim>\<open>backend/db/session.py\<close> with \<^verbatim>\<open>expire_on_commit=False\<close> and
  \<^verbatim>\<open>autoflush=False\<close>: attribute changes reach the database at an explicit flush or at a
  commit only, and an object keeps its attributes across a commit. A query that returns a
  row whose object the session already holds returns that object as it is (its attributes
  are not refreshed from the row).
\<close>

section \<open>State\<close>

datatype metric =
    TicketsCreated string
  | StateTransition string string
  | InboundDuplicate string
  | StuckRecovered string string

type_synonym metrics = "metric \<Rightarrow> nat"

record frame =
  f_body :: dict
  f_exchange :: string
  f_routing_key :: string
  f_headers :: "(string \<times> string) list"
  f_message_id :: string

record sess =
  committed :: database
  view :: database
  objs :: "uuid \<Rightarrow> (ticket \<times> ticket) option"
  counters :: metrics
  published :: "frame list"

text \<open>
  What the environment decides during a unit of work: the values \<^verbatim>\<open>uuid.uuid4()\<close>,
  \<^verbatim>\<open>datetime.now\<close> and \<^verbatim>\<open>random.random()\<close> return (the n-th call reads position n), the time
  \<^verbatim>\<open>now()\<close> has in its n-th transaction, and what other processes commit in the n-th gap in
  which this one holds no lock.
\<close>

record ambient =
  uuid4 :: "nat \<Rightarrow> uuid"
  clock :: "nat \<Rightarrow> instant"
  rolls :: "nat \<Rightarrow> real"
  db_clock :: "nat \<Rightarrow> instant"
  others :: "nat \<Rightarrow> database \<Rightarrow> database"

text \<open>Positions of the draws are written as numerals; \<open>1\<close> is kept as it is.\<close>

declare One_nat_def [simp del]

definition later :: "nat \<Rightarrow> ambient \<Rightarrow> ambient" where
  "later k w =
     \<lparr>uuid4 = (\<lambda>n. uuid4 w (n + k)), clock = (\<lambda>n. clock w (n + k)),
      rolls = (\<lambda>n. rolls w (n + k)), db_clock = (\<lambda>n. db_clock w (n + k)),
      others = (\<lambda>n. others w (n + k))\<rparr>"

definition quiet :: "ambient \<Rightarrow> bool" where
  "quiet w \<longleftrightarrow> (\<forall>n. others w n = id)"

record session_config =
  expire_on_commit :: bool
  autoflush :: bool

definition session_options :: session_config where
  "session_options = \<lparr>expire_on_commit = False, autoflush = False\<rparr>"

type_synonym 'a op = "(exn, sess, 'a) py"

section \<open>Opening and closing\<close>

definition open_session :: "sess \<Rightarrow> sess" where
  "open_session s = s\<lparr>view := committed s, objs := Map.empty\<rparr>"

text \<open>
  \<^verbatim>\<open>session_scope\<close>: a body that raises is rolled back and the exception goes on; either
  way closing the session discards what was not committed.
\<close>

definition rollback :: "unit op" where
  "rollback = py_modify open_session"

definition session_scope :: "'a op \<Rightarrow> 'a op" where
  "session_scope body = (\<lambda>s.
     py_try body
       (\<lambda>e. py_bind rollback (\<lambda>_. py_raise e))
       (\<lambda>x. py_bind (py_modify open_session) (\<lambda>_. py_return x))
       (open_session s))"

definition interfere :: "(database \<Rightarrow> database) \<Rightarrow> unit op" where
  "interfere env = py_modify (\<lambda>s. s\<lparr>committed := env (committed s), view := env (committed s)\<rparr>)"

definition inc :: "metric \<Rightarrow> unit op" where
  "inc m = py_modify (\<lambda>s. s\<lparr>counters := (counters s)(m := Suc (counters s m))\<rparr>)"

section \<open>Objects and queries\<close>

text \<open>\<^verbatim>\<open>scalar_one_or_none\<close> on the rows of a query over tickets.\<close>

definition load_object :: "ticket \<Rightarrow> ticket op" where
  "load_object r = (\<lambda>s.
     case objs s (t_id r) of
       Some (loaded, cur) \<Rightarrow> (Inr cur, s)
     | None \<Rightarrow> (Inr r, s\<lparr>objs := (objs s)(t_id r \<mapsto> (r, r))\<rparr>))"

definition scalar_one_or_none :: "(database \<Rightarrow> ticket list) \<Rightarrow> ticket option op" where
  "scalar_one_or_none query = (\<lambda>s.
     case query (view s) of
       [] \<Rightarrow> (Inr None, s)
     | [r] \<Rightarrow> py_bind (load_object r) (\<lambda>t. py_return (Some t)) s
     | _ \<Rightarrow> (Inl MultipleResultsFound, s))"

text \<open>Reading and assigning the attributes of a loaded object.\<close>

definition attributes :: "uuid \<Rightarrow> ticket op" where
  "attributes i = (\<lambda>s.
     case objs s i of Some (loaded, cur) \<Rightarrow> (Inr cur, s) | None \<Rightarrow> (Inl ObjectNotLoaded, s))"

definition assign :: "uuid \<Rightarrow> (ticket \<Rightarrow> ticket) \<Rightarrow> unit op" where
  "assign i f = (\<lambda>s.
     case objs s i of
       Some (loaded, cur) \<Rightarrow> (Inr (), s\<lparr>objs := (objs s)(i \<mapsto> (loaded, f cur))\<rparr>)
     | None \<Rightarrow> (Inl ObjectNotLoaded, s))"

section \<open>Flush and commit\<close>

text \<open>
  A flush writes every changed object to its row; the object then counts as loaded with
  the values it wrote. One value that does not fit its column makes the flush raise.
\<close>

definition flush_row :: "(uuid \<Rightarrow> (ticket \<times> ticket) option) \<Rightarrow> instant \<Rightarrow> ticket \<Rightarrow> ticket" where
  "flush_row os now r =
     (case os (t_id r) of None \<Rightarrow> r | Some (loaded, cur) \<Rightarrow> write_back now loaded cur r)"

definition flushed_object :: "instant \<Rightarrow> ticket \<times> ticket \<Rightarrow> ticket \<times> ticket" where
  "flushed_object now lc =
     (let cur = (if snd lc = fst lc then snd lc else (snd lc)\<lparr>t_updated_at := now\<rparr>) in (cur, cur))"

definition flush :: "instant \<Rightarrow> unit op" where
  "flush now = (\<lambda>s.
     if \<forall>r \<in> set (tickets (view s)).
          flush_row (objs s) now r = r \<or> ticket_columns_fit (flush_row (objs s) now r)
     then (Inr (),
           s\<lparr>view := (view s)\<lparr>tickets := map (flush_row (objs s) now) (tickets (view s))\<rparr>,
             objs := (\<lambda>i. map_option (flushed_object now) (objs s i))\<rparr>)
     else (Inl DataError, s))"

definition commit :: "instant \<Rightarrow> unit op" where
  "commit now =
     py_bind (flush now) (\<lambda>_.
     py_modify (\<lambda>s. s\<lparr>committed := view s,
       objs := (if expire_on_commit session_options then Map.empty else objs s)\<rparr>))"

section \<open>One changed object\<close>

text \<open>
  The units of work change one ticket object at a time. \<open>clean_except i\<close> says that every
  other loaded object equals what was loaded; a flush is then the update of one row.
\<close>

definition clean_except :: "uuid \<Rightarrow> sess \<Rightarrow> bool" where
  "clean_except i s \<longleftrightarrow> (\<forall>j l c. objs s j = Some (l, c) \<longrightarrow> j \<noteq> i \<longrightarrow> c = l)"

lemma clean_except_empty [simp]: "objs s = Map.empty \<Longrightarrow> clean_except i s"
  by (simp add: clean_except_def)

lemma flush_row_other:
  "clean_except i s \<Longrightarrow> t_id r \<noteq> i \<Longrightarrow> flush_row (objs s) now r = r"
  by (auto simp: flush_row_def clean_except_def write_back_def split: option.splits)

lemma flush_row_this:
  "objs s i = Some (l, c) \<Longrightarrow> t_id r = i \<Longrightarrow> flush_row (objs s) now r = write_back now l c r"
  by (simp add: flush_row_def)

lemma flush_one:
  assumes "clean_except i s" and "objs s i = Some (l, c)"
    and "\<And>r. r \<in> set (tickets (view s)) \<Longrightarrow> t_id r = i \<Longrightarrow> ticket_columns_fit (write_back now l c r)"
  shows "flush now s =
    (Inr (), s\<lparr>view := (view s)\<lparr>tickets :=
                 update_where (\<lambda>r. t_id r = i) (write_back now l c) (tickets (view s))\<rparr>,
               objs := (objs s)(i \<mapsto> flushed_object now (l, c))\<rparr>)"
proof -
  have fit: "\<forall>r \<in> set (tickets (view s)).
      flush_row (objs s) now r = r \<or> ticket_columns_fit (flush_row (objs s) now r)"
    using assms by (metis flush_row_other flush_row_this)
  have rows: "map (flush_row (objs s) now) (tickets (view s)) =
      update_where (\<lambda>r. t_id r = i) (write_back now l c) (tickets (view s))"
    unfolding update_where_def
    using assms(1,2) by (auto intro!: map_cong simp: flush_row_other flush_row_this)
  have "map_option (flushed_object now) (objs s j) = ((objs s)(i \<mapsto> flushed_object now (l, c))) j" for j
  proof (cases "j = i")
    case False
    with assms(1) show ?thesis
      by (cases "objs s j") (auto simp: clean_except_def flushed_object_def Let_def)
  qed (simp add: assms(2))
  then have os: "(\<lambda>j. map_option (flushed_object now) (objs s j)) = (objs s)(i \<mapsto> flushed_object now (l, c))"
    by blast
  show ?thesis using fit by (simp add: flush_def rows os)
qed

lemma flush_one_error:
  assumes "clean_except i s" and "objs s i = Some (l, c)"
    and "r \<in> set (tickets (view s))" and "t_id r = i" and "ticket_columns_fit r"
    and "\<not> ticket_columns_fit (write_back now l c r)"
  shows "flush now s = (Inl DataError, s)"
proof -
  have "\<not> ticket_columns_fit (flush_row (objs s) now r)"
    using assms flush_row_this by metis
  moreover from this have "flush_row (objs s) now r \<noteq> r" using assms(5) by metis
  ultimately show ?thesis using assms(3) by (auto simp: flush_def)
qed

lemma flush_clean:
  assumes "\<And>j l c. objs s j = Some (l, c) \<Longrightarrow> c = l"
  shows "flush now s = (Inr (), s)"
proof -
  have rows: "flush_row (objs s) now r = r" for r
    using assms by (auto simp: flush_row_def write_back_def split: option.splits)
  have "map_option (flushed_object now) (objs s j) = objs s j" for j
    using assms by (cases "objs s j") (auto simp: flushed_object_def Let_def)
  then have "(\<lambda>j. map_option (flushed_object now) (objs s j)) = objs s" by blast
  moreover have "map (flush_row (objs s) now) xs = xs" for xs
    by (simp add: rows map_idI)
  ultimately show ?thesis by (simp add: flush_def rows)
qed

text \<open>No object differs from what was loaded: the flush does nothing.\<close>

definition all_clean :: "(uuid \<Rightarrow> (ticket \<times> ticket) option) \<Rightarrow> bool" where
  "all_clean os \<longleftrightarrow> (\<forall>j l c. os j = Some (l, c) \<longrightarrow> c = l)"

lemma all_clean_empty [simp]: "all_clean Map.empty"
  by (simp add: all_clean_def)

lemma all_clean_update [simp]: "all_clean os \<Longrightarrow> all_clean (os(i \<mapsto> (t, t)))"
  by (simp add: all_clean_def)

lemma flush_all_clean: "all_clean (objs s) \<Longrightarrow> flush now s = (Inr (), s)"
  by (rule flush_clean) (auto simp: all_clean_def)

lemma commit_after_flush:
  "flush now s = (Inr (), s') \<Longrightarrow> commit now s = (Inr (), s'\<lparr>committed := view s'\<rparr>)"
  by (simp add: commit_def py_bind_def py_modify_def session_options_def)

lemma commit_flush_error:
  "flush now s = (Inl e, s') \<Longrightarrow> commit now s = (Inl e, s')"
  by (simp add: commit_def py_bind_def)

section \<open>The scope of a unit of work\<close>

lemma session_scope_committed:
  "committed (snd (session_scope body s)) = committed (snd (body (open_session s)))"
  by (auto simp: session_scope_def py_try_def py_bind_def rollback_def py_modify_def py_raise_def
      py_return_def open_session_def split: prod.splits sum.splits)

lemma open_session_simps [simp]:
  "committed (open_session s) = committed s" "view (open_session s) = committed s"
  "objs (open_session s) = Map.empty" "counters (open_session s) = counters s"
  "published (open_session s) = published s"
  by (simp_all add: open_session_def)

lemma open_session_open [simp]: "open_session (open_session s) = open_session s"
  by (simp add: open_session_def)

lemma session_scope_commits:
  assumes "body (open_session s) = (Inr (), s1)"
  shows "\<exists>s'. session_scope body s = (Inr (), s') \<and> committed s' = committed s1 \<and>
    counters s' = counters s1 \<and> published s' = published s1"
  using assms by (simp add: session_scope_def py_try_def py_bind_def py_modify_def py_return_def)

lemma session_scope_raises:
  assumes "body (open_session s) = (Inl e, s1)"
  shows "session_scope body s = (Inl e, open_session s1)"
  using assms by (simp add: session_scope_def py_try_def py_bind_def rollback_def py_modify_def py_raise_def)

text \<open>Well-formedness of a unit of work: both the view and the committed state are.\<close>

definition sess_ok :: "sess \<Rightarrow> bool" where
  "sess_ok s \<longleftrightarrow> db_ok (committed s) \<and> db_ok (view s)"

end
