(* ===== verification/Repositories.thy ===== *)
theory Repositories
  imports Session
begin

text \<open>
  The three repositories of \<^verbatim>\<open>backend/db/repositories\<close>: each method is the statement it
  issues on the view of the running transaction. \<open>locked\<close> names the rows other
  transactions hold locked, which \<^verbatim>\<open>SKIP LOCKED\<close> leaves out.
\<close>

section \<open>TicketRepository\<close>

definition ticket_add :: "ticket \<Rightarrow> instant \<Rightarrow> unit op" where
  "ticket_add t now =
     py_bind (flush now) (\<lambda>_ s.
       case insert_ticket now t (view s) of
         Inl e \<Rightarrow> (Inl e, s)
       | Inr db \<Rightarrow>
           (let t' = t\<lparr>t_created_at := now, t_updated_at := now\<rparr>
            in (Inr (), s\<lparr>view := db, objs := (objs s)(t_id t \<mapsto> (t', t'))\<rparr>)))"

definition get_by_id :: "uuid \<Rightarrow> ticket option op" where
  "get_by_id i = scalar_one_or_none (\<lambda>db. select_by t_id i (tickets db))"

definition get_by_id_for_update :: "uuid \<Rightarrow> ticket option op" where
  "get_by_id_for_update i = scalar_one_or_none (\<lambda>db. select_by t_id i (tickets db))"

definition get_by_idempotency_key :: "string \<Rightarrow> ticket option op" where
  "get_by_idempotency_key k =
     scalar_one_or_none (\<lambda>db. select_by t_idempotency_key k (tickets db))"

fun load_objects :: "ticket list \<Rightarrow> ticket list op" where
  "load_objects [] = py_return []"
| "load_objects (r # rs) =
     py_bind (load_object r) (\<lambda>t. py_bind (load_objects rs) (\<lambda>ts. py_return (t # ts)))"

definition stuck :: "instant \<Rightarrow> (uuid \<Rightarrow> bool) \<Rightarrow> ticket \<Rightarrow> bool" where
  "stuck older_than locked t \<longleftrightarrow>
     t_status t \<notin> TERMINAL_TICKET_STATUSES \<and> t_updated_at t < older_than \<and> \<not> locked (t_id t)"

definition stuck_rows :: "instant \<Rightarrow> nat \<Rightarrow> (uuid \<Rightarrow> bool) \<Rightarrow> database \<Rightarrow> ticket list" where
  "stuck_rows older_than limit locked db =
     select_ordered (stuck older_than locked) t_updated_at limit (tickets db)"

definition find_stuck :: "instant \<Rightarrow> nat \<Rightarrow> (uuid \<Rightarrow> bool) \<Rightarrow> ticket list op" where
  "find_stuck older_than limit locked =
     (\<lambda>s. load_objects (stuck_rows older_than limit locked (view s)) s)"

definition count_by_status :: "sess \<Rightarrow> (ticket_status \<Rightarrow> nat option)" where
  "count_by_status s = (\<lambda>st.
     let n = length [t \<leftarrow> tickets (view s). t_status t = st] in if n = 0 then None else Some n)"

definition stale_threshold :: "instant \<Rightarrow> int \<Rightarrow> instant" where
  "stale_threshold now seconds = now - timedelta_seconds seconds"

section \<open>OutboxRepository\<close>

text \<open>\<open>fresh\<close> is the identifier \<^verbatim>\<open>uuid.uuid4\<close> gives the event by default.\<close>

definition new_outbox_event :: "uuid \<Rightarrow> instant \<Rightarrow> uuid \<Rightarrow> string \<Rightarrow> string \<Rightarrow> dict \<Rightarrow> outbox_event" where
  "new_outbox_event fresh now entity_id event_type routing_key payload =
     \<lparr>e_id = fresh, e_entity_id = entity_id, e_event_type = event_type,
      e_routing_key = routing_key, e_payload = payload, e_status = PENDING, e_attempts = 0,
      e_last_error = None, e_published_at = None, e_created_at = now, e_updated_at = now\<rparr>"

definition outbox_add :: "uuid \<Rightarrow> instant \<Rightarrow> uuid \<Rightarrow> string \<Rightarrow> string \<Rightarrow> dict \<Rightarrow> unit op" where
  "outbox_add fresh now entity_id event_type routing_key payload =
     py_bind (flush now) (\<lambda>_ s.
       case insert_outbox_event (new_outbox_event fresh now entity_id event_type routing_key payload) (view s) of
         Inl e \<Rightarrow> (Inl e, s)
       | Inr db \<Rightarrow> (Inr (), s\<lparr>view := db\<rparr>))"

definition pending :: "(uuid \<Rightarrow> bool) \<Rightarrow> outbox_event \<Rightarrow> bool" where
  "pending locked e \<longleftrightarrow> e_status e = PENDING \<and> \<not> locked (e_id e)"

definition fetch_pending :: "nat \<Rightarrow> (uuid \<Rightarrow> bool) \<Rightarrow> outbox_event list op" where
  "fetch_pending limit locked =
     (\<lambda>s. (Inr (select_ordered (pending locked) e_created_at limit (outbox_events (view s))), s))"

definition update_outbox :: "(outbox_event \<Rightarrow> bool) \<Rightarrow> (outbox_event \<Rightarrow> outbox_event) \<Rightarrow> unit op" where
  "update_outbox P f =
     py_modify (\<lambda>s. s\<lparr>view := (view s)\<lparr>outbox_events := update_where P f (outbox_events (view s))\<rparr>\<rparr>)"

definition mark_published_row :: "instant \<Rightarrow> instant \<Rightarrow> outbox_event \<Rightarrow> outbox_event" where
  "mark_published_row now db_now e =
     e\<lparr>e_status := PUBLISHED, e_published_at := Some now, e_last_error := None, e_updated_at := db_now\<rparr>"

definition mark_published_many :: "instant \<Rightarrow> instant \<Rightarrow> uuid list \<Rightarrow> unit op" where
  "mark_published_many now db_now event_ids =
     (if event_ids = [] then py_return ()
      else update_outbox (\<lambda>e. e_id e \<in> set event_ids) (mark_published_row now db_now))"

definition mark_failed_row :: "nat \<Rightarrow> instant \<Rightarrow> string \<Rightarrow> outbox_event \<Rightarrow> outbox_event" where
  "mark_failed_row max_attempts db_now error e =
     (let new_attempts = e_attempts e + 1
      in e\<lparr>e_attempts := new_attempts, e_last_error := Some (take 2000 error),
           e_status := (if new_attempts \<ge> max_attempts then FAILED else e_status e),
           e_updated_at := db_now\<rparr>)"

definition mark_failed :: "nat \<Rightarrow> instant \<Rightarrow> uuid \<Rightarrow> string \<Rightarrow> unit op" where
  "mark_failed max_attempts db_now event_id error =
     update_outbox (\<lambda>e. e_id e = event_id) (mark_failed_row max_attempts db_now error)"

definition default_max_attempts :: nat where
  "default_max_attempts = 3"

section \<open>InboxRepository\<close>

text \<open>
  \<^verbatim>\<open>INSERT ... ON CONFLICT (message_id) DO NOTHING RETURNING message_id\<close>: a row comes back
  exactly when it was inserted. Nothing is committed here.
\<close>

definition try_claim :: "instant \<Rightarrow> uuid \<Rightarrow> string \<Rightarrow> uuid option \<Rightarrow> bool op" where
  "try_claim now message_id message_type ticket_id = (\<lambda>s.
     if select_by p_message_id message_id (processed (view s)) = []
     then (Inr True, s\<lparr>view := (view s)\<lparr>processed :=
             insert_row \<lparr>p_message_id = message_id, p_ticket_id = ticket_id,
                         p_message_type = message_type, p_processed_at = now\<rparr> (processed (view s))\<rparr>\<rparr>)
     else (Inr False, s))"

section \<open>Loading one ticket\<close>

text \<open>Reading a row that no object stands for loads it; an object already there is returned as it is.\<close>

lemma scalar_none:
  "query (view s) = [] \<Longrightarrow> scalar_one_or_none query s = (Inr None, s)"
  by (simp add: scalar_one_or_none_def)

lemma scalar_fresh:
  "query (view s) = [r] \<Longrightarrow> objs s (t_id r) = None \<Longrightarrow>
   scalar_one_or_none query s = (Inr (Some r), s\<lparr>objs := (objs s)(t_id r \<mapsto> (r, r))\<rparr>)"
  by (simp add: scalar_one_or_none_def load_object_def py_bind_def py_return_def)

lemma scalar_held:
  "query (view s) = [r] \<Longrightarrow> objs s (t_id r) = Some (l, c) \<Longrightarrow>
   scalar_one_or_none query s = (Inr (Some c), s)"
  by (simp add: scalar_one_or_none_def load_object_def py_bind_def py_return_def)

lemmas get_fresh =
  scalar_fresh [where query = "\<lambda>db. select_by t_id i (tickets db)" for i, folded get_by_id_for_update_def]
lemmas get_held =
  scalar_held [where query = "\<lambda>db. select_by t_id i (tickets db)" for i, folded get_by_id_for_update_def]
lemmas get_missing =
  scalar_none [where query = "\<lambda>db. select_by t_id i (tickets db)" for i, folded get_by_id_for_update_def]

text \<open>Loading rows changes no database state.\<close>

lemma load_objects_state:
  "\<exists>ts os. load_objects rs s = (Inr ts, s\<lparr>objs := os\<rparr>) \<and> length ts = length rs"
proof (induction rs arbitrary: s)
  case Nil
  then show ?case by (auto simp: py_return_def intro: exI [of _ "objs s"])
next
  case (Cons r rs)
  obtain t os where t: "load_object r s = (Inr t, s\<lparr>objs := os\<rparr>)"
    by (cases "objs s (t_id r)") (auto simp: load_object_def intro: that [of _ "objs s"])
  obtain ts os' where "load_objects rs (s\<lparr>objs := os\<rparr>) = (Inr ts, s\<lparr>objs := os'\<rparr>)"
    and "length ts = length rs"
    using Cons [of "s\<lparr>objs := os\<rparr>"] by auto
  with t show ?case by (auto simp: py_bind_def py_return_def)
qed

text \<open>Loading rows of distinct tickets into a session that holds none of them.\<close>

lemma load_objects_fresh:
  assumes "distinct (map t_id rs)" and "\<And>r. r \<in> set rs \<Longrightarrow> objs s (t_id r) = None"
  shows "load_objects rs s =
    (Inr rs, s\<lparr>objs := (\<lambda>i. case select_by t_id i rs of [] \<Rightarrow> objs s i | r # _ \<Rightarrow> Some (r, r))\<rparr>)"
  using assms
proof (induction rs arbitrary: s)
  case Nil
  then show ?case by (simp add: py_return_def select_by_def)
next
  case (Cons r rs)
  let ?s = "s\<lparr>objs := (objs s)(t_id r \<mapsto> (r, r))\<rparr>"
  have fresh: "objs ?s (t_id q) = None" if "q \<in> set rs" for q
    using that Cons.prems by (auto simp: image_iff)
  have "load_objects rs ?s =
    (Inr rs, ?s\<lparr>objs := (\<lambda>i. case select_by t_id i rs of [] \<Rightarrow> objs ?s i | r # _ \<Rightarrow> Some (r, r))\<rparr>)"
    using Cons.IH [of ?s] Cons.prems(1) fresh by simp
  moreover have "load_object r s = (Inr r, ?s)"
    using Cons.prems(2) [of r] by (simp add: load_object_def)
  moreover have "select_by t_id (t_id r) rs = []"
    using Cons.prems(1) by (simp add: select_by_empty_iff)
  ultimately show ?case
    by (auto simp: py_bind_def py_return_def select_by_def fun_eq_iff split: list.splits)
qed

section \<open>Claims\<close>

text \<open>
  The contract of the inbox: a claim succeeds exactly for an identifier not claimed yet, it
  records the identifier, and it touches no other table.
\<close>

locale claim_store =
  fixes claim :: "uuid \<Rightarrow> 's \<Rightarrow> bool \<times> 's" and claimed :: "'s \<Rightarrow> uuid set"
  assumes claim_result: "fst (claim i s) \<longleftrightarrow> i \<notin> claimed s"
    and claim_records: "claimed (snd (claim i s)) = insert i (claimed s)"
    and claim_again: "i \<in> claimed s \<Longrightarrow> snd (claim i s) = s"
begin

lemma second_claim_fails: "\<not> fst (claim i (snd (claim i s)))"
  by (simp add: claim_result claim_records)

lemma second_claim_keeps: "snd (claim i (snd (claim i s))) = snd (claim i s)"
  by (simp add: claim_again claim_records)

lemma claims_independent: "i \<noteq> j \<Longrightarrow> fst (claim j (snd (claim i s))) = fst (claim j s)"
  by (simp add: claim_result claim_records)

end

definition claimed_ids :: "database \<Rightarrow> uuid set" where
  "claimed_ids db = p_message_id ` set (processed db)"

lemma try_claim_eq:
  "try_claim now i ty tid s =
    (if i \<in> claimed_ids (view s) then (Inr False, s)
     else (Inr True, s\<lparr>view := (view s)\<lparr>processed :=
             insert_row \<lparr>p_message_id = i, p_ticket_id = tid, p_message_type = ty, p_processed_at = now\<rparr>
               (processed (view s))\<rparr>\<rparr>))"
  by (simp add: try_claim_def claimed_ids_def select_by_empty_iff)

interpretation inbox: claim_store
  "\<lambda>i s. (fst (try_claim now i ty tid s) = Inr True, snd (try_claim now i ty tid s))"
  "\<lambda>s. claimed_ids (view s)"
  by unfold_locales (auto simp: try_claim_eq claimed_ids_def table_simps)

lemma claim_refused:
  assumes "i \<in> claimed_ids (view s)"
  shows "try_claim now i ty tid s = (Inr False, s)"
  using inbox.claim_result [of now i ty tid s] inbox.claim_again [of i s now ty tid] assms
  by (cases "try_claim now i ty tid s") (auto simp: try_claim_def split: if_splits)

lemma claim_taken:
  assumes "i \<notin> claimed_ids (view s)"
  shows "\<exists>s'. try_claim now i ty tid s = (Inr True, s') \<and> claimed_ids (view s') = insert i (claimed_ids (view s)) \<and>
    committed s' = committed s"
  using inbox.claim_result [of now i ty tid s] inbox.claim_records [of now i ty tid s] assms
  by (cases "try_claim now i ty tid s") (auto simp: try_claim_def split: if_splits)

section \<open>Keys are never duplicated\<close>

lemma try_claim_db_ok: "db_ok (view s) \<Longrightarrow> db_ok (view (snd (try_claim now i ty tid s)))"
  by (auto simp: try_claim_eq claimed_ids_def db_ok_def table_simps)

lemma mark_published_row_id [simp]: "e_id (mark_published_row now db_now e) = e_id e"
  by (simp add: mark_published_row_def)

lemma mark_failed_row_id [simp]: "e_id (mark_failed_row m db_now err e) = e_id e"
  by (simp add: mark_failed_row_def Let_def)

end
