(* ===== verification/Ticket_Service.thy ===== *)
theory Ticket_Service
  imports Repositories
begin

text \<open>
  The ticket's life, \<^verbatim>\<open>backend/services/ticket.py\<close>, and the client to the local service
  (\<^verbatim>\<open>backend/services/monolith.py\<close>) it calls. Each method of \<^verbatim>\<open>TicketService\<close> is the
  computation it runs on its session, statement by statement; the environment it reads
  (identifiers, clocks, random draws, concurrent commits) is the argument \<open>w\<close>.
\<close>

section \<open>The client to the monolith\<close>

record processing_result =
  pr_ok :: bool
  pr_detail :: "string option"

record fake_monolith =
  time_multiplier :: real
  error_rate :: real

text \<open>\<^verbatim>\<open>random.random() < self._error_rate\<close>\<close>

definition maybe_fail :: "fake_monolith \<Rightarrow> real \<Rightarrow> exn + unit" where
  "maybe_fail client roll = (if roll < error_rate client then Inl MonolithError else Inr ())"

text \<open>An f-string renders \<^verbatim>\<open>None\<close> and a member of \<^verbatim>\<open>RecommendationAction\<close> as Python 3.12 does.\<close>

fun action_str :: "recommendation_action option \<Rightarrow> string" where
  "action_str None = ''None''"
| "action_str (Some ACCEPT) = ''RecommendationAction.ACCEPT''"
| "action_str (Some DECLINE) = ''RecommendationAction.DECLINE''"

definition process_ticket ::
  "fake_monolith \<Rightarrow> real \<Rightarrow> uuid \<Rightarrow> recommendation_action option \<Rightarrow> string option \<Rightarrow> exn + processing_result" where
  "process_ticket client roll ticket_id action provider_reason =
     (case maybe_fail client roll of
        Inl e \<Rightarrow> Inl e
      | Inr _ \<Rightarrow> Inr \<lparr>pr_ok = True, pr_detail = Some (''settled as '' @ action_str action)\<rparr>)"

section \<open>Requests and results\<close>

record create_ticket_request =
  cr_user_id :: uuid
  cr_stake_amount :: decimal
  cr_currency :: string
  cr_selections :: "dict list"

record create_ticket_result =
  ctr_ticket :: ticket
  ctr_created :: bool

section \<open>Messages to the provider\<close>

text \<open>
  \<^verbatim>\<open>_build_ticket_message\<close>: each stored selection must validate as a \<^verbatim>\<open>Selection\<close>.
  \<open>placed_at\<close> and \<open>now\<close> are two readings of the clock, \<open>fresh\<close> the message's identifier.
\<close>

definition build_ticket_message :: "codec \<Rightarrow> instant \<Rightarrow> uuid \<Rightarrow> instant \<Rightarrow> ticket \<Rightarrow> exn + message" where
  "build_ticket_message c placed_at fresh now t =
     (case map_options (selection_validate c) (t_selections t) of
        None \<Rightarrow> Inl ValidationError
      | Some sels \<Rightarrow>
          Inr (message_build c
            (TicketPayload
              \<lparr>tp_ticket_id = t_id t, tp_user_id = t_user_id t,
               tp_stake_amount = t_stake_amount t, tp_currency = currency_value (t_currency t),
               tp_selections = sels, tp_placed_at = placed_at\<rparr>)
            TICKET None (Some (t_id t)) fresh now))"

definition build_ack_message :: "codec \<Rightarrow> uuid \<Rightarrow> instant \<Rightarrow> ticket \<Rightarrow> recommendation_action \<Rightarrow> message" where
  "build_ack_message c fresh now t action =
     (if action = ACCEPT
      then message_build c (ConfirmRecommendationPayload \<lparr>cp_ticket_id = t_id t\<rparr>)
             CONFIRM_RECOMMENDATION None (Some (t_id t)) fresh now
      else message_build c (DeclineRecommendationPayload \<lparr>dp_ticket_id = t_id t\<rparr>)
             DECLINE_RECOMMENDATION None (Some (t_id t)) fresh now)"

definition build_cancellation_message :: "codec \<Rightarrow> uuid \<Rightarrow> instant \<Rightarrow> uuid \<Rightarrow> string \<Rightarrow> message" where
  "build_cancellation_message c fresh now ticket_id reason =
     message_build c (RequestCancellationPayload \<lparr>rc_ticket_id = ticket_id, rc_reason = reason\<rparr>)
       REQUEST_CANCELLATION None (Some ticket_id) fresh now"

text \<open>The outbox entry every method adds: the dumped message, addressed to the provider.\<close>

definition outbox_message :: "codec \<Rightarrow> uuid \<Rightarrow> instant \<Rightarrow> uuid \<Rightarrow> message \<Rightarrow> unit op" where
  "outbox_message c fresh now ticket_id m =
     outbox_add fresh now ticket_id EVENT_TYPE_TICKET_OUTBOUND
       (top_provider_out_routing_key TOPOLOGY) (message_dump c m)"

section \<open>Creating a ticket\<close>

definition new_ticket :: "uuid \<Rightarrow> string \<Rightarrow> create_ticket_request \<Rightarrow> currency \<Rightarrow> ticket" where
  "new_ticket fresh idempotency_key request cur =
     \<lparr>t_id = fresh, t_idempotency_key = idempotency_key, t_user_id = cr_user_id request,
      t_stake_amount = cr_stake_amount request, t_currency = cur,
      t_selections = cr_selections request, t_status = NEW,
      t_provider_recommendation = None, t_provider_reason = None,
      t_provider_recommendation_at = None, t_settled_at = None, t_confirmed_at = None,
      t_cancelled_at = None, t_failure_reason = None, t_created_at = 0, t_updated_at = 0\<rparr>"

text \<open>The body of the \<^verbatim>\<open>try\<close>: insert, message, outbox, commit, in one transaction.\<close>

definition store_ticket :: "codec \<Rightarrow> ambient \<Rightarrow> ticket \<Rightarrow> ticket op" where
  "store_ticket c w t =
     py_bind (ticket_add t (db_clock w 0)) (\<lambda>_.
     py_bind (py_lift (build_ticket_message c (clock w 0) (uuid4 w 1) (clock w 1) t)) (\<lambda>m.
     py_bind (outbox_message c (uuid4 w 2) (db_clock w 0) (t_id t) m) (\<lambda>_.
     py_bind (commit (db_clock w 0)) (\<lambda>_.
     attributes (t_id t)))))"

definition create_ticket ::
  "codec \<Rightarrow> ambient \<Rightarrow> string \<Rightarrow> create_ticket_request \<Rightarrow> create_ticket_result op" where
  "create_ticket c w idempotency_key request =
     py_bind (get_by_idempotency_key idempotency_key) (\<lambda>existing.
     case existing of
       Some t \<Rightarrow> py_return \<lparr>ctr_ticket = t, ctr_created = False\<rparr>
     | None \<Rightarrow>
         (case enum_by_value currency_value (cr_currency request) of
            None \<Rightarrow> py_raise ValueError
          | Some cur \<Rightarrow>
              py_bind (interfere (others w 0)) (\<lambda>_.
              py_try (store_ticket c w (new_ticket (uuid4 w 0) idempotency_key request cur))
                (\<lambda>e. if e = IntegrityError
                     then py_bind rollback (\<lambda>_.
                          py_bind (interfere (others w 1)) (\<lambda>_.
                          py_bind (get_by_idempotency_key idempotency_key) (\<lambda>again.
                          case again of
                            None \<Rightarrow> py_raise e
                          | Some t \<Rightarrow> py_return \<lparr>ctr_ticket = t, ctr_created = False\<rparr>)))
                     else py_raise e)
                (\<lambda>t. py_bind (inc (TicketsCreated (currency_value (t_currency t)))) (\<lambda>_.
                     py_return \<lparr>ctr_ticket = t, ctr_created = True\<rparr>)))))"

definition get_ticket :: "uuid \<Rightarrow> ticket option op" where
  "get_ticket ticket_id = get_by_id ticket_id"

section \<open>Changing the status\<close>

definition change_status :: "uuid \<Rightarrow> ticket_status \<Rightarrow> bool \<Rightarrow> instant \<Rightarrow> unit op" where
  "change_status i to do_commit db_now =
     py_bind (attributes i) (\<lambda>t.
     let from_status = t_status t in
     if from_status = to then py_return ()
     else py_bind (assign i (\<lambda>t. t\<lparr>t_status := to\<rparr>)) (\<lambda>_.
          py_bind (inc (StateTransition (ticket_status_value from_status) (ticket_status_value to))) (\<lambda>_.
          py_bind (flush db_now) (\<lambda>_.
          if do_commit then commit db_now else py_return ()))))"

section \<open>Cancellation\<close>

text \<open>
  The row lock is held while the monolith is called; whether that call fails makes no
  difference to what follows.
\<close>

definition cancel_locked :: "codec \<Rightarrow> ambient \<Rightarrow> uuid \<Rightarrow> string \<Rightarrow> unit op" where
  "cancel_locked c w i reason =
     py_bind (assign i (\<lambda>t. t\<lparr>t_failure_reason := Some (take 1024 reason),
                              t_cancelled_at := Some (clock w 0)\<rparr>)) (\<lambda>_.
     py_bind (change_status i CANCELLATION_REQUESTED False (db_clock w 0)) (\<lambda>_.
     py_bind (outbox_message c (uuid4 w 1) (db_clock w 0) i
                (build_cancellation_message c (uuid4 w 0) (clock w 1) i reason)) (\<lambda>_.
     commit (db_clock w 0))))"

definition request_cancellation ::
  "codec \<Rightarrow> fake_monolith \<Rightarrow> ambient \<Rightarrow> uuid \<Rightarrow> string \<Rightarrow> unit op" where
  "request_cancellation c client w ticket_id reason =
     py_bind (get_by_id_for_update ticket_id) (\<lambda>ticket.
     case ticket of
       None \<Rightarrow> py_return ()
     | Some t \<Rightarrow>
         py_try (py_lift (process_ticket client (rolls w 0) (t_id t) None None))
           (\<lambda>e. if e = MonolithError then cancel_locked c w (t_id t) reason else py_raise e)
           (\<lambda>_. cancel_locked c w (t_id t) reason))"

definition mark_cancellation_applied :: "ambient \<Rightarrow> uuid \<Rightarrow> unit op" where
  "mark_cancellation_applied w ticket_id =
     py_bind (get_by_id_for_update ticket_id) (\<lambda>ticket.
     case ticket of
       None \<Rightarrow> py_return ()
     | Some t \<Rightarrow>
         if t_status t = CANCELLED then py_return ()
         else
           py_bind (assign (t_id t) (\<lambda>t. t\<lparr>t_cancelled_at :=
                      (case t_cancelled_at t of Some x \<Rightarrow> Some x | None \<Rightarrow> Some (clock w 0))\<rparr>)) (\<lambda>_.
           py_bind (change_status (t_id t) CANCELLED False (db_clock w 0)) (\<lambda>_.
           commit (db_clock w 0))))"

section \<open>The provider's recommendation\<close>

text \<open>\<^verbatim>\<open>str(MonolithError())\<close>: the exception is raised without arguments.\<close>

definition monolith_error_str :: string where
  "monolith_error_str = ''''"

definition recommendation_target :: "recommendation_action \<Rightarrow> ticket_status" where
  "recommendation_target a = (if a = ACCEPT then RECOMMENDED_CONFIRM else RECOMMENDED_DECLINE)"

text \<open>First transaction: record the recommendation.\<close>

definition record_recommendation :: "ambient \<Rightarrow> uuid \<Rightarrow> recommendation_payload \<Rightarrow> unit op" where
  "record_recommendation w i p =
     py_bind (assign i (\<lambda>t. t\<lparr>t_provider_recommendation := Some (rp_action p),
                              t_provider_reason := rp_reason p,
                              t_provider_recommendation_at := Some (clock w 0)\<rparr>)) (\<lambda>_.
     py_bind (change_status i (recommendation_target (rp_action p)) False (db_clock w 0)) (\<lambda>_.
     commit (db_clock w 0)))"

text \<open>Second transaction, after the monolith's answer: settle the ticket and answer the provider.\<close>

definition settle_locked :: "codec \<Rightarrow> ambient \<Rightarrow> ticket \<Rightarrow> recommendation_action \<Rightarrow> unit op" where
  "settle_locked c w t action =
     py_bind (assign (t_id t) (\<lambda>t. t\<lparr>t_settled_at := Some (clock w 1)\<rparr>)) (\<lambda>_.
     py_bind (change_status (t_id t) SETTLED False (db_clock w 1)) (\<lambda>_.
     py_bind (outbox_message c (uuid4 w 1) (db_clock w 1) (t_id t)
                (build_ack_message c (uuid4 w 0) (clock w 2) t action)) (\<lambda>_.
     commit (db_clock w 1))))"

definition settle :: "codec \<Rightarrow> ambient \<Rightarrow> uuid \<Rightarrow> recommendation_action \<Rightarrow> unit op" where
  "settle c w i action =
     py_bind (get_by_id_for_update i) (\<lambda>ticket.
     case ticket of
       None \<Rightarrow> commit (db_clock w 1)
     | Some t \<Rightarrow>
         if t_status t \<in> TERMINAL_TICKET_STATUSES then commit (db_clock w 1)
         else settle_locked c w t action)"

definition apply_recommendation ::
  "codec \<Rightarrow> fake_monolith \<Rightarrow> ambient \<Rightarrow> recommendation_payload \<Rightarrow> unit op" where
  "apply_recommendation c client w p =
     py_bind (get_by_id_for_update (rp_ticket_id p)) (\<lambda>ticket.
     case ticket of
       None \<Rightarrow> py_return ()
     | Some t \<Rightarrow>
         if t_status t \<in> TERMINAL_TICKET_STATUSES then py_return ()
         else
           py_bind (record_recommendation w (t_id t) p) (\<lambda>_.
           py_bind (interfere (others w 0)) (\<lambda>_.
           py_try (py_lift (process_ticket client (rolls w 0) (t_id t) (Some (rp_action p)) (rp_reason p)))
             (\<lambda>e. if e = MonolithError
                  then request_cancellation c client (later 1 w) (t_id t)
                         (''monolith_error: '' @ monolith_error_str)
                  else py_raise e)
             (\<lambda>_. settle c w (t_id t) (rp_action p)))))"

definition mark_provider_ack_delivered :: "ambient \<Rightarrow> uuid \<Rightarrow> recommendation_action \<Rightarrow> unit op" where
  "mark_provider_ack_delivered w ticket_id action =
     py_bind (get_by_id_for_update ticket_id) (\<lambda>ticket.
     case ticket of
       None \<Rightarrow> py_return ()
     | Some t \<Rightarrow>
         if t_status t \<in> TERMINAL_TICKET_STATUSES then py_return ()
         else
           py_bind (assign (t_id t) (\<lambda>t. t\<lparr>t_confirmed_at := Some (clock w 0)\<rparr>)) (\<lambda>_.
           py_bind (change_status (t_id t) (if action = ACCEPT then CONFIRMED else DECLINED)
                      False (db_clock w 0)) (\<lambda>_.
           commit (db_clock w 0))))"

section \<open>The monolith's contract\<close>

text \<open>
  What \<^verbatim>\<open>TicketService\<close> relies on of the client to the monolith: the only exception that
  leaves \<^verbatim>\<open>process_ticket\<close> is \<^verbatim>\<open>MonolithError\<close>. A caller that catches it goes on whatever
  the call did.
\<close>

locale monolith_client =
  fixes process :: "real \<Rightarrow> uuid \<Rightarrow> recommendation_action option \<Rightarrow> string option \<Rightarrow> exn + processing_result"
  assumes only_monolith_error: "process roll i a r = Inl e \<Longrightarrow> e = MonolithError"
begin

lemma outcome_cases:
  obtains (failed) "process roll i a r = Inl MonolithError" | (ok) res where "process roll i a r = Inr res"
  using only_monolith_error by (cases "process roll i a r") auto

lemma caught_or_not:
  "py_try (py_lift (process roll i a r))
     (\<lambda>e. if e = MonolithError then h else py_raise e) (\<lambda>_. k) s =
   (if process roll i a r = Inl MonolithError then h s else k s)"
  by (cases rule: outcome_cases [of roll i a r]) (auto simp: py_try_def py_lift_def)

lemma failure_ignored:
  "py_try (py_lift (process roll i a r))
     (\<lambda>e. if e = MonolithError then h else py_raise e) (\<lambda>_. h) = h"
  by (rule ext) (simp add: caught_or_not)

end

interpretation mono: monolith_client "process_ticket client" for client
  by unfold_locales (auto simp: process_ticket_def maybe_fail_def split: sum.splits if_splits)

lemma process_ticket_fails_iff:
  "process_ticket client roll i a r = Inl MonolithError \<longleftrightarrow> roll < error_rate client"
  by (simp add: process_ticket_def maybe_fail_def)

section \<open>Rewriting one ticket\<close>

text \<open>
  Assigning attributes, changing the status and then flushing (as the first thing a commit
  or an outbox insert does) comes to one write of the row, whether or not the status
  changed; the transition counter moves only if it did.
\<close>

definition counted :: "ticket_status \<Rightarrow> ticket_status \<Rightarrow> metrics \<Rightarrow> metrics" where
  "counted st st' cs =
     (if st = st' then cs
      else (let m = StateTransition (ticket_status_value st) (ticket_status_value st')
            in cs(m := Suc (cs m))))"

definition rewritten :: "uuid \<Rightarrow> instant \<Rightarrow> ticket \<Rightarrow> ticket \<Rightarrow> ticket \<Rightarrow> sess \<Rightarrow> sess" where
  "rewritten i now l c c' s =
     s\<lparr>view := (view s)\<lparr>tickets := update_where (\<lambda>r. t_id r = i) (write_back now l c') (tickets (view s))\<rparr>,
       objs := (objs s)(i \<mapsto> flushed_object now (l, c')),
       counters := counted (t_status c) (t_status c') (counters s)\<rparr>"

lemma clean_except_update:
  "clean_except i s \<Longrightarrow> clean_except i (s\<lparr>objs := (objs s)(i \<mapsto> lc)\<rparr>)"
  by (simp add: clean_except_def)

lemma clean_except_counters:
  "clean_except i s \<Longrightarrow> clean_except i (s\<lparr>objs := (objs s)(i \<mapsto> lc), counters := cs\<rparr>)"
  by (simp add: clean_except_def)

lemma update_status:
  assumes obj: "objs s i = Some (l, c)" and clean: "clean_except i s"
    and st: "\<And>t. t_status (f t) = t_status t"
    and fits: "\<And>r. r \<in> set (tickets (view s)) \<Longrightarrow> t_id r = i \<Longrightarrow>
                 ticket_columns_fit (write_back now l ((f c)\<lparr>t_status := to\<rparr>) r)"
  shows "py_bind (assign i f) (\<lambda>_. py_bind (change_status i to False now) (\<lambda>_. py_bind (flush now) G)) s =
         G () (rewritten i now l c ((f c)\<lparr>t_status := to\<rparr>) s)"
proof -
  define c' where "c' = (f c)\<lparr>t_status := to\<rparr>"
  define s1 where "s1 = s\<lparr>objs := (objs s)(i \<mapsto> (l, f c))\<rparr>"
  have a: "assign i f s = (Inr (), s1)" by (simp add: assign_def obj s1_def)
  have o1: "objs s1 i = Some (l, f c)" by (simp add: s1_def)
  show ?thesis
  proof (cases "t_status c = to")
    case True
    have "t_status (f c) = to" using True st by simp
    then have same: "(f c)\<lparr>t_status := to\<rparr> = f c" by (cases "f c") simp
    then have c': "c' = f c" by (simp add: c'_def)
    have "flush now s1 = (Inr (), rewritten i now l c c' s)"
      using flush_one [of i s1 l "f c" now] clean o1 fits st
      by (simp add: s1_def clean_except_update same rewritten_def counted_def c')
    moreover have "change_status i to False now s1 = (Inr (), s1)"
      using True st by (simp add: change_status_def attributes_def o1 py_bind_def py_return_def)
    ultimately show ?thesis by (simp add: py_bind_def a c'_def)
  next
    case False
    define s2 where "s2 = s\<lparr>objs := (objs s)(i \<mapsto> (l, c')), counters := counted (t_status c) to (counters s)\<rparr>"
    have f2: "flush now s2 = (Inr (), rewritten i now l c c' s)"
      using flush_one [of i s2 l c' now] clean fits
      by (simp add: s2_def clean_except_counters rewritten_def c'_def)
    have ch: "change_status i to False now s1 = (Inr (), rewritten i now l c c' s)"
    proof -
      have "change_status i to False now s1 = py_bind (flush now) (\<lambda>_. py_return ()) s2"
        using False st
        by (simp add: change_status_def attributes_def assign_def inc_def py_bind_def py_modify_def
            py_return_def s1_def s2_def c'_def counted_def Let_def obj)
      with f2 show ?thesis by (simp add: py_bind_def py_return_def)
    qed
    have "flush now (rewritten i now l c c' s) = (Inr (), rewritten i now l c c' s)"
    proof (rule flush_clean)
      fix j l' x assume "objs (rewritten i now l c c' s) j = Some (l', x)"
      with clean show "x = l'"
        by (auto simp: rewritten_def flushed_object_def Let_def clean_except_def split: if_splits)
    qed
    with ch show ?thesis by (simp add: py_bind_def a c'_def)
  qed
qed

lemma flush_rewritten:
  assumes "clean_except i s"
  shows "flush now' ((rewritten i now l c c' s)\<lparr>view := v\<rparr>) = (Inr (), (rewritten i now l c c' s)\<lparr>view := v\<rparr>)"
proof (rule flush_clean)
  fix j l' x assume "objs ((rewritten i now l c c' s)\<lparr>view := v\<rparr>) j = Some (l', x)"
  with assms show "x = l'"
    by (auto simp: rewritten_def flushed_object_def Let_def clean_except_def split: if_splits)
qed

text \<open>The two ways the methods end: commit, or outbox entry and commit.\<close>

lemma update_status_commit:
  assumes "objs s i = Some (l, c)" and "clean_except i s"
    and "\<And>t. t_status (f t) = t_status t"
    and "\<And>r. r \<in> set (tickets (view s)) \<Longrightarrow> t_id r = i \<Longrightarrow>
           ticket_columns_fit (write_back now l ((f c)\<lparr>t_status := to\<rparr>) r)"
  shows "py_bind (assign i f) (\<lambda>_. py_bind (change_status i to False now) (\<lambda>_. commit now)) s =
         (let s' = rewritten i now l c ((f c)\<lparr>t_status := to\<rparr>) s in (Inr (), s'\<lparr>committed := view s'\<rparr>))"
  unfolding commit_def
  by (subst update_status [OF assms]) (simp_all add: py_modify_def session_options_def Let_def)

lemma outbox_names_fit [simp]:
  "length EVENT_TYPE_TICKET_OUTBOUND \<le> 128"
  "length (top_provider_out_routing_key TOPOLOGY) \<le> 255"
  by (simp_all add: EVENT_TYPE_TICKET_OUTBOUND_def TOPOLOGY_def)

abbreviation outbound_event :: "codec \<Rightarrow> uuid \<Rightarrow> instant \<Rightarrow> uuid \<Rightarrow> message \<Rightarrow> outbox_event" where
  "outbound_event c fresh now i m \<equiv>
     new_outbox_event fresh now i EVENT_TYPE_TICKET_OUTBOUND (top_provider_out_routing_key TOPOLOGY)
       (message_dump c m)"

lemma insert_outbound_event:
  "insert_outbox_event (outbound_event c fresh now i m) db =
    (if fresh \<in> e_id ` set (outbox_events db) then Inl IntegrityError
     else Inr (db\<lparr>outbox_events := insert_row (outbound_event c fresh now i m) (outbox_events db)\<rparr>))"
  by (simp add: insert_outbox_event_def outbox_columns_fit_def new_outbox_event_def varchar_fits_def
      select_by_empty_iff)

lemma update_status_outbox_commit:
  assumes "objs s i = Some (l, c)" and clean: "clean_except i s"
    and "\<And>t. t_status (f t) = t_status t"
    and "\<And>r. r \<in> set (tickets (view s)) \<Longrightarrow> t_id r = i \<Longrightarrow>
           ticket_columns_fit (write_back now l ((f c)\<lparr>t_status := to\<rparr>) r)"
    and fresh: "fresh \<notin> e_id ` set (outbox_events (view s))"
  shows "py_bind (assign i f) (\<lambda>_. py_bind (change_status i to False now) (\<lambda>_.
           py_bind (outbox_message cd fresh now i m) (\<lambda>_. commit now))) s =
         (let s' = rewritten i now l c ((f c)\<lparr>t_status := to\<rparr>) s;
              v = (view s')\<lparr>outbox_events := insert_row (outbound_event cd fresh now i m)
                      (outbox_events (view s))\<rparr>
          in (Inr (), s'\<lparr>committed := v, view := v\<rparr>))"
proof -
  let ?s' = "rewritten i now l c ((f c)\<lparr>t_status := to\<rparr>) s"
  have ob: "outbox_events (view ?s') = outbox_events (view s)" by (simp add: rewritten_def)
  show ?thesis
    unfolding outbox_message_def outbox_add_def py_bind_assoc
    by (subst update_status [OF assms(1-4)])
      (simp_all add: insert_outbound_event ob fresh py_bind_def commit_def py_modify_def
        session_options_def Let_def flush_rewritten [OF clean])
qed

end
