(* ===== verification/Ticket_Creation.thy ===== *)
theory Ticket_Creation
  imports Ticket_Service
begin

text \<open>
  What \<^verbatim>\<open>TicketService.create_ticket\<close> guarantees: a new key stores one ticket together with
  the outbox entry that announces it, in one transaction; a key already used, before or by
  a concurrent request, returns the ticket stored under it and stores nothing; a failed
  creation leaves no trace.
\<close>

section \<open>The transaction\<close>

definition fresh_session :: "sess \<Rightarrow> bool" where
  "fresh_session s \<longleftrightarrow> view s = committed s \<and> objs s = Map.empty"

text \<open>The request can be stored: its columns fit, its stake is positive, its selections are well formed.\<close>

definition storable :: "codec \<Rightarrow> ambient \<Rightarrow> ticket \<Rightarrow> bool" where
  "storable c w t \<longleftrightarrow>
     ticket_columns_fit (stored_ticket (db_clock w 0) t) \<and>
     stake_amount_positive (stored_ticket (db_clock w 0) t) \<and>
     map_options (selection_validate c) (t_selections t) \<noteq> None"

definition timed :: "instant \<Rightarrow> ticket \<Rightarrow> ticket" where
  "timed now t = t\<lparr>t_created_at := now, t_updated_at := now\<rparr>"

definition with_ticket :: "codec \<Rightarrow> ambient \<Rightarrow> ticket \<Rightarrow> message \<Rightarrow> database \<Rightarrow> database" where
  "with_ticket c w t m db =
     db\<lparr>tickets := insert_row (stored_ticket (db_clock w 0) t) (tickets db),
        outbox_events :=
          insert_row (outbound_event c (uuid4 w 2) (db_clock w 0) (t_id t) m) (outbox_events db)\<rparr>"

lemma build_ticket_message_ok:
  "map_options (selection_validate c) (t_selections t) \<noteq> None \<Longrightarrow>
   \<exists>m. build_ticket_message c placed fresh now t = Inr m"
  by (auto simp: build_ticket_message_def)

lemma ticket_add_clean:
  assumes "objs s = Map.empty"
  shows "ticket_add t now s =
    (case insert_ticket now t (view s) of
       Inl e \<Rightarrow> (Inl e, s)
     | Inr db \<Rightarrow> (Inr (), s\<lparr>view := db, objs := [t_id t \<mapsto> (timed now t, timed now t)]\<rparr>))"
  using assms by (simp add: ticket_add_def py_bind_def flush_all_clean Let_def timed_def split: sum.splits)

lemma store_ticket_ok:
  assumes "objs s = Map.empty" and st: "storable c w t"
    and id: "t_id t \<notin> t_id ` set (tickets (view s))"
    and key: "t_idempotency_key t \<notin> t_idempotency_key ` set (tickets (view s))"
    and ev: "uuid4 w 2 \<notin> e_id ` set (outbox_events (view s))"
    and m: "build_ticket_message c (clock w 0) (uuid4 w 1) (clock w 1) t = Inr m"
  shows "store_ticket c w t s =
    (Inr (timed (db_clock w 0) t),
     s\<lparr>committed := with_ticket c w t m (view s), view := with_ticket c w t m (view s),
       objs := [t_id t \<mapsto> (timed (db_clock w 0) t, timed (db_clock w 0) t)]\<rparr>)"
proof -
  have ins: "insert_ticket (db_clock w 0) t (view s) =
      Inr ((view s)\<lparr>tickets := insert_row (stored_ticket (db_clock w 0) t) (tickets (view s))\<rparr>)"
    using st id key
    by (simp add: insert_ticket_def storable_def Let_def select_by_empty_iff) (simp add: stored_ticket_def)
  show ?thesis
    unfolding store_ticket_def outbox_message_def outbox_add_def commit_def
    by (simp add: py_bind_def ticket_add_clean assms(1) ins m py_lift_def
        flush_all_clean insert_outbound_event ev py_modify_def session_options_def attributes_def
        with_ticket_def)
qed

lemma store_ticket_rejected:
  assumes "objs s = Map.empty" and "insert_ticket (db_clock w 0) t (view s) = Inl e"
  shows "store_ticket c w t s = (Inl e, s)"
  using assms by (simp add: store_ticket_def py_bind_def ticket_add_clean)

text \<open>However it fails, the transaction commits nothing.\<close>

lemma store_ticket_committed:
  assumes "objs s = Map.empty" and "fst (store_ticket c w t s) = Inl e"
  shows "committed (snd (store_ticket c w t s)) = committed s"
proof (cases "insert_ticket (db_clock w 0) t (view s)")
  case (Inl e')
  with assms store_ticket_rejected show ?thesis by simp
next
  case (Inr db)
  show ?thesis
  proof (cases "build_ticket_message c (clock w 0) (uuid4 w 1) (clock w 1) t")
    case (Inl e')
    with \<open>insert_ticket _ _ _ = Inr db\<close> assms(1) show ?thesis
      by (simp add: store_ticket_def py_bind_def ticket_add_clean py_lift_def)
  next
    case (Inr m)
    with \<open>insert_ticket _ _ _ = Inr db\<close> assms show ?thesis
      by (auto simp: store_ticket_def outbox_message_def outbox_add_def commit_def py_bind_def
          ticket_add_clean py_lift_def flush_all_clean insert_outbound_event py_modify_def
          session_options_def attributes_def split: if_splits)
  qed
qed

lemma committed_open [simp]: "committed (open_session s) = committed s"
  by (simp add: open_session_def)

lemma scalar_committed:
  "committed (snd (scalar_one_or_none q s)) = committed s"
  by (auto simp: scalar_one_or_none_def load_object_def py_bind_def py_return_def
      split: list.splits option.splits)

lemma get_key_missing:
  "k \<notin> t_idempotency_key ` set (tickets (view s)) \<Longrightarrow>
   get_by_idempotency_key k s = (Inr None, s)"
  by (simp add: get_by_idempotency_key_def scalar_none select_by_empty_iff)

lemma get_key_present:
  assumes "unique_by t_idempotency_key (tickets (view s))" and "r \<in> set (tickets (view s))"
    and "t_idempotency_key r = k" and "objs s = Map.empty"
  shows "get_by_idempotency_key k s = (Inr (Some r), s\<lparr>objs := [t_id r \<mapsto> (r, r)]\<rparr>)"
  unfolding get_by_idempotency_key_def
  using assms select_by_unique [OF assms(1,2)] by (simp add: scalar_fresh)

section \<open>Creation\<close>

lemma create_ticket_stores:
  assumes fresh: "fresh_session s"
    and db0: "db0 = others w 0 (committed s)"
    and cur: "enum_by_value currency_value (cr_currency request) = Some cur"
    and t: "t = new_ticket (uuid4 w 0) key request cur"
    and unused: "key \<notin> t_idempotency_key ` set (tickets (committed s))"
      "key \<notin> t_idempotency_key ` set (tickets db0)"
    and ids: "uuid4 w 0 \<notin> t_id ` set (tickets db0)" "uuid4 w 2 \<notin> e_id ` set (outbox_events db0)"
    and st: "storable c w t"
    and m: "build_ticket_message c (clock w 0) (uuid4 w 1) (clock w 1) t = Inr m"
  shows "create_ticket c w key request s =
    (Inr \<lparr>ctr_ticket = timed (db_clock w 0) t, ctr_created = True\<rparr>,
     s\<lparr>committed := with_ticket c w t m db0, view := with_ticket c w t m db0,
       objs := [t_id t \<mapsto> (timed (db_clock w 0) t, timed (db_clock w 0) t)],
       counters := (counters s)(TicketsCreated (currency_value cur) :=
         Suc (counters s (TicketsCreated (currency_value cur))))\<rparr>)"
proof -
  have v: "view s = committed s" and o: "objs s = Map.empty"
    using fresh by (simp_all add: fresh_session_def)
  have "t_id t = uuid4 w 0" "t_idempotency_key t = key" "t_currency t = cur"
    by (simp_all add: t new_ticket_def)
  then show ?thesis
    unfolding create_ticket_def
    using store_ticket_ok [of "s\<lparr>committed := db0, view := db0\<rparr>" c w t m] assms v o
    by (simp add: py_bind_def py_try_def interfere_def py_modify_def inc_def get_key_missing
        py_return_def timed_def)
qed

lemma create_ticket_existing:
  assumes fresh: "fresh_session s" and ok: "db_ok (committed s)"
    and r: "r \<in> set (tickets (committed s))" and key: "t_idempotency_key r = key"
  shows "create_ticket c w key request s =
    (Inr \<lparr>ctr_ticket = r, ctr_created = False\<rparr>, s\<lparr>objs := [t_id r \<mapsto> (r, r)]\<rparr>)"
  using get_key_present [of s r key] assms
  by (simp add: create_ticket_def py_bind_def py_return_def fresh_session_def db_ok_def)

section \<open>Races and failures\<close>

lemma create_ticket_race:
  assumes fresh: "fresh_session s"
    and db0: "db0 = others w 0 (committed s)" and db1: "db1 = others w 1 db0"
    and cur: "enum_by_value currency_value (cr_currency request) = Some cur"
    and unused: "key \<notin> t_idempotency_key ` set (tickets (committed s))"
    and raced: "key \<in> t_idempotency_key ` set (tickets db0)"
    and fits: "ticket_columns_fit (stored_ticket (db_clock w 0) (new_ticket (uuid4 w 0) key request cur))"
    and ok: "db_ok db1" and r: "r \<in> set (tickets db1)" and key: "t_idempotency_key r = key"
  shows "create_ticket c w key request s =
    (Inr \<lparr>ctr_ticket = r, ctr_created = False\<rparr>,
     s\<lparr>committed := db1, view := db1, objs := [t_id r \<mapsto> (r, r)]\<rparr>)"
proof -
  let ?t = "new_ticket (uuid4 w 0) key request cur"
  let ?s0 = "s\<lparr>committed := db0, view := db0\<rparr>"
  have o: "objs s = Map.empty" and v: "view s = committed s"
    using fresh by (simp_all add: fresh_session_def)
  have "insert_ticket (db_clock w 0) ?t (view ?s0) = Inl IntegrityError"
    using fits raced
    by (auto simp: insert_ticket_def Let_def stored_ticket_def select_by_empty_iff new_ticket_def)
  then have st: "store_ticket c w ?t ?s0 = (Inl IntegrityError, ?s0)"
    using o by (intro store_ticket_rejected) simp_all
  have again: "get_by_idempotency_key key (s\<lparr>objs := Map.empty, committed := db1, view := db1\<rparr>) =
      (Inr (Some r), s\<lparr>committed := db1, view := db1, objs := [t_id r \<mapsto> (r, r)]\<rparr>)"
    using get_key_present [of "s\<lparr>objs := Map.empty, committed := db1, view := db1\<rparr>" r key] ok r key
    by (simp add: db_ok_def)
  show ?thesis
    using cur unused v st again
    by (simp add: create_ticket_def py_bind_def py_try_def interfere_def py_modify_def
        get_key_missing rollback_def open_session_def db0 [symmetric] db1 [symmetric] py_return_def)
qed

text \<open>A transaction that succeeded met every condition of storing the ticket.\<close>

lemma store_ticket_inv:
  assumes o: "objs s = Map.empty" and ok: "fst (store_ticket c w t s) = Inr t'"
  obtains m where "storable c w t" "t_id t \<notin> t_id ` set (tickets (view s))"
    "t_idempotency_key t \<notin> t_idempotency_key ` set (tickets (view s))"
    "uuid4 w 2 \<notin> e_id ` set (outbox_events (view s))"
    "build_ticket_message c (clock w 0) (uuid4 w 1) (clock w 1) t = Inr m"
proof -
  obtain db where ins: "insert_ticket (db_clock w 0) t (view s) = Inr db"
    using ok store_ticket_rejected [OF o] by (cases "insert_ticket (db_clock w 0) t (view s)") auto
  obtain m where m: "build_ticket_message c (clock w 0) (uuid4 w 1) (clock w 1) t = Inr m"
    using ok o ins
    by (cases "build_ticket_message c (clock w 0) (uuid4 w 1) (clock w 1) t")
      (auto simp: store_ticket_def py_bind_def ticket_add_clean py_lift_def)
  then have "map_options (selection_validate c) (t_selections t) \<noteq> None"
    by (auto simp: build_ticket_message_def split: option.splits)
  moreover have "uuid4 w 2 \<notin> e_id ` set (outbox_events (view s))"
    using ok o ins m insert_ticket_ok(1) [OF ins]
    by (auto simp: store_ticket_def outbox_message_def outbox_add_def py_bind_def ticket_add_clean
        py_lift_def flush_all_clean insert_outbound_event split: if_splits)
  ultimately show ?thesis
    using that m insert_ticket_ok [OF ins] by (auto simp: storable_def)
qed

lemma create_ticket_inv:
  assumes fresh: "fresh_session s" and q: "quiet w" and ok: "db_ok (committed s)"
    and res: "create_ticket c w key request s = (Inr res, s')"
  obtains r where "r \<in> set (tickets (committed s'))" "t_idempotency_key r = key"
    "t_id r = t_id (ctr_ticket res)"
proof (cases "key \<in> t_idempotency_key ` set (tickets (committed s))")
  case True
  then obtain r where r: "r \<in> set (tickets (committed s))" "t_idempotency_key r = key" by auto
  from create_ticket_existing [OF fresh ok r] res r that show ?thesis by auto
next
  case False
  have v: "view s = committed s" "objs s = Map.empty" using fresh by (simp_all add: fresh_session_def)
  then have same: "s\<lparr>view := committed s\<rparr> = s" by (cases s) simp
  have id: "others w n = id" for n using q by (simp add: quiet_def)
  obtain cur where cur: "enum_by_value currency_value (cr_currency request) = Some cur"
    using res False v by (cases "enum_by_value currency_value (cr_currency request)")
      (auto simp: create_ticket_def py_bind_def get_key_missing py_raise_def)
  let ?t = "new_ticket (uuid4 w 0) key request cur"
  have k: "t_idempotency_key ?t = key" by (simp add: new_ticket_def)
  show ?thesis
  proof (cases "fst (store_ticket c w ?t s)")
    case (Inl e)
    then obtain s1 where s1: "store_ticket c w ?t s = (Inl e, s1)" by (cases "store_ticket c w ?t s") auto
    have "committed s1 = committed s" using store_ticket_committed [OF v(2) Inl] s1 by simp
    then have "get_by_idempotency_key key (s1\<lparr>objs := Map.empty, view := committed s1\<rparr>) =
        (Inr None, s1\<lparr>objs := Map.empty, view := committed s1\<rparr>)"
      using False by (intro get_key_missing) simp
    then show ?thesis using res False cur s1 v
      by (auto simp: create_ticket_def py_bind_def py_try_def interfere_def py_modify_def id same
          get_key_missing rollback_def py_raise_def open_session_def split: if_splits)
  next
    case (Inr t')
    obtain m where "storable c w ?t" "t_id ?t \<notin> t_id ` set (tickets (view s))"
      "uuid4 w 2 \<notin> e_id ` set (outbox_events (view s))"
      and m: "build_ticket_message c (clock w 0) (uuid4 w 1) (clock w 1) ?t = Inr m"
      by (rule store_ticket_inv [OF v(2) Inr])
    then have "create_ticket c w key request s =
      (Inr \<lparr>ctr_ticket = timed (db_clock w 0) ?t, ctr_created = True\<rparr>,
       s\<lparr>committed := with_ticket c w ?t m (committed s), view := with_ticket c w ?t m (committed s),
         objs := [t_id ?t \<mapsto> (timed (db_clock w 0) ?t, timed (db_clock w 0) ?t)],
         counters := (counters s)(TicketsCreated (currency_value cur) :=
           Suc (counters s (TicketsCreated (currency_value cur))))\<rparr>)"
      using fresh cur False v
      by (intro create_ticket_stores) (simp_all add: id new_ticket_def)
    with res have "ctr_ticket res = timed (db_clock w 0) ?t"
      and "committed s' = with_ticket c w ?t m (committed s)" by auto
    then show ?thesis using k
      by (intro that [of "stored_ticket (db_clock w 0) ?t"])
        (simp_all add: with_ticket_def table_simps stored_ticket_def timed_def)
  qed
qed

text \<open>Failing creations commit nothing of their own.\<close>

lemma create_ticket_error_committed:
  assumes fresh: "fresh_session s" and err: "fst (create_ticket c w key request s) = Inl e"
  shows "committed (snd (create_ticket c w key request s)) \<in>
    {committed s, others w 0 (committed s), others w 1 (others w 0 (committed s))}"
proof (cases "get_by_idempotency_key key s")
  case (Pair r1 s1)
  have s1: "committed s1 = committed s" "objs s1 = Map.empty \<or> r1 \<noteq> Inr None"
    using Pair fresh
    by (auto simp: get_by_idempotency_key_def scalar_one_or_none_def load_object_def py_bind_def
        py_return_def fresh_session_def split: list.splits option.splits)
  show ?thesis
  proof (cases "\<exists>cur. r1 = Inr None \<and> enum_by_value currency_value (cr_currency request) = Some cur")
    case False
    with Pair s1 show ?thesis
      by (auto simp: create_ticket_def py_bind_def py_return_def py_raise_def split: sum.splits option.splits)
  next
    case True
    then obtain cur where cur: "r1 = Inr None"
      "enum_by_value currency_value (cr_currency request) = Some cur" by auto
    let ?t = "new_ticket (uuid4 w 0) key request cur"
    let ?s0 = "s1\<lparr>committed := others w 0 (committed s), view := others w 0 (committed s)\<rparr>"
    obtain r2 s2 where st: "store_ticket c w ?t ?s0 = (r2, s2)" by fastforce
    have o: "objs ?s0 = Map.empty" using s1 cur by simp
    show ?thesis
    proof (cases r2)
      case (Inl e2)
      have c2: "committed s2 = others w 0 (committed s)"
        using store_ticket_committed [OF o, of c w ?t] st Inl by simp
      obtain r3 s3 where g: "get_by_idempotency_key key
          ((open_session s2)\<lparr>committed := others w 1 (others w 0 (committed s)),
            view := others w 1 (others w 0 (committed s))\<rparr>) = (r3, s3)" by fastforce
      have c3: "committed s3 = others w 1 (others w 0 (committed s))"
        using scalar_committed [of "\<lambda>db. select_by t_idempotency_key key (tickets db)"
          "(open_session s2)\<lparr>committed := others w 1 (others w 0 (committed s)),
            view := others w 1 (others w 0 (committed s))\<rparr>"] g
        by (simp add: get_by_idempotency_key_def)
      show ?thesis using Pair cur st Inl s1(1) c2 c3 g err
        by (auto simp: create_ticket_def py_bind_def py_try_def interfere_def py_modify_def
            rollback_def py_raise_def py_return_def split: sum.splits option.splits)
    next
      case (Inr t')
      with Pair cur st err s1(1) show ?thesis
        by (simp add: create_ticket_def py_bind_def py_try_def interfere_def py_modify_def
            py_return_def inc_def)
    qed
  qed
qed

end
