(* ===== verification/Ticket_Lifecycle.thy ===== *)
theory Ticket_Lifecycle
  imports Ticket_Creation
begin

text \<open>
  What the other methods of \<^verbatim>\<open>TicketService\<close> do to the committed database: for each of them
  the row it writes, as a function of the row it found, and the outbox entry it adds. The
  results hold for a session opened on any well-formed database; for
  \<^verbatim>\<open>apply_recommendation\<close>, which releases the row between its two transactions, also when
  other processes commit in between.
\<close>

section \<open>The rows written\<close>

definition stamped :: "instant \<Rightarrow> ticket \<Rightarrow> ticket \<Rightarrow> ticket" where
  "stamped now old new = (if new = old then old else new\<lparr>t_updated_at := now\<rparr>)"

definition cancelled_ticket :: "ambient \<Rightarrow> string \<Rightarrow> ticket \<Rightarrow> ticket" where
  "cancelled_ticket w reason t =
     t\<lparr>t_failure_reason := Some (take 1024 reason), t_cancelled_at := Some (clock w 0),
       t_status := CANCELLATION_REQUESTED\<rparr>"

definition recommended_ticket :: "ambient \<Rightarrow> recommendation_payload \<Rightarrow> ticket \<Rightarrow> ticket" where
  "recommended_ticket w p t =
     t\<lparr>t_provider_recommendation := Some (rp_action p), t_provider_reason := rp_reason p,
       t_provider_recommendation_at := Some (clock w 0),
       t_status := recommendation_target (rp_action p)\<rparr>"

definition settled_ticket :: "ambient \<Rightarrow> ticket \<Rightarrow> ticket" where
  "settled_ticket w t = t\<lparr>t_settled_at := Some (clock w 1), t_status := SETTLED\<rparr>"

definition cancel_applied_ticket :: "ambient \<Rightarrow> ticket \<Rightarrow> ticket" where
  "cancel_applied_ticket w t =
     t\<lparr>t_cancelled_at := (case t_cancelled_at t of Some x \<Rightarrow> Some x | None \<Rightarrow> Some (clock w 0)),
       t_status := CANCELLED\<rparr>"

definition ack_delivered_ticket :: "ambient \<Rightarrow> recommendation_action \<Rightarrow> ticket \<Rightarrow> ticket" where
  "ack_delivered_ticket w a t =
     t\<lparr>t_confirmed_at := Some (clock w 0), t_status := (if a = ACCEPT then CONFIRMED else DECLINED)\<rparr>"

abbreviation rewrite_ticket :: "uuid \<Rightarrow> (ticket \<Rightarrow> ticket) \<Rightarrow> database \<Rightarrow> database" where
  "rewrite_ticket i f db \<equiv> db\<lparr>tickets := update_where (\<lambda>q. t_id q = i) f (tickets db)\<rparr>"

abbreviation announce :: "codec \<Rightarrow> uuid \<Rightarrow> instant \<Rightarrow> uuid \<Rightarrow> message \<Rightarrow> database \<Rightarrow> database" where
  "announce c fresh now i m db \<equiv>
     db\<lparr>outbox_events := insert_row (outbound_event c fresh now i m) (outbox_events db)\<rparr>"

abbreviation event_ids :: "database \<Rightarrow> uuid set" where
  "event_ids db \<equiv> e_id ` set (outbox_events db)"

text \<open>The column widths survive a write that touches neither the key nor the stake.\<close>

lemma write_back_fits:
  assumes "ticket_columns_fit r"
    and "t_idempotency_key c = t_idempotency_key l" and "t_stake_amount c = t_stake_amount l"
    and "varchar_fits 512 (t_provider_reason c) \<or> t_provider_reason c = t_provider_reason l"
    and "varchar_fits 1024 (t_failure_reason c) \<or> t_failure_reason c = t_failure_reason l"
  shows "ticket_columns_fit (write_back now l c r)"
  using assms by (auto simp: ticket_columns_fit_def write_back_columns changed_def)

lemma rewrite_row:
  assumes "select_by t_id i rows = [r]"
  shows "update_where (\<lambda>q. t_id q = i) f rows = update_where (\<lambda>q. t_id q = i) (\<lambda>q. g q) rows
    \<longleftrightarrow> f r = g r"
proof -
  have only: "q = r" if "q \<in> set rows" and "t_id q = i" for q
  proof -
    have "q \<in> set (select_by t_id i rows)" using that by (simp add: select_by_def)
    with assms show ?thesis by simp
  qed
  have "r \<in> set (select_by t_id i rows)" using assms by simp
  then have r: "r \<in> set rows" "t_id r = i" by (auto simp: select_by_def)
  have "map (\<lambda>q. if t_id q = i then f q else q) rows = map (\<lambda>q. if t_id q = i then g q else q) rows
      \<longleftrightarrow> (\<forall>q \<in> set rows. (if t_id q = i then f q else q) = (if t_id q = i then g q else q))"
    by (rule map_eq_conv)
  also have "\<dots> \<longleftrightarrow> f r = g r" using only r by (metis (full_types))
  finally show ?thesis by (simp add: update_where_def)
qed

lemma write_back_stamped:
  "t_id c = t_id r \<Longrightarrow> write_back now r c r = stamped now r c"
  by (simp add: write_back_fresh stamped_def)

lemma select_member:
  assumes "select_by t_id i (tickets db) = [r]" shows "r \<in> set (tickets db)" and "t_id r = i"
proof -
  have "r \<in> set (select_by t_id i (tickets db))" using assms by simp
  then show "r \<in> set (tickets db)" and "t_id r = i" by (auto simp: select_by_def)
qed

lemma rows_fit: "db_ok db \<Longrightarrow> q \<in> set (tickets db) \<Longrightarrow> ticket_columns_fit q"
  by (simp add: db_ok_def)

text \<open>
  \<open>commits m s db cs\<close>: run from \<open>s\<close>, the method returns normally, has committed exactly
  \<open>db\<close>, leaves the counters at \<open>cs\<close> and gave no frame to the broker.
\<close>

definition commits :: "unit op \<Rightarrow> sess \<Rightarrow> database \<Rightarrow> metrics \<Rightarrow> bool" where
  "commits m s db cs \<longleftrightarrow>
     (\<exists>s'. m s = (Inr (), s') \<and> committed s' = db \<and> view s' = db \<and> counters s' = cs \<and>
           published s' = published s)"

section \<open>Cancellation\<close>

text \<open>Whether the monolith accepts the cancellation makes no difference.\<close>

lemma request_cancellation_eq:
  "request_cancellation c client w i reason =
     py_bind (get_by_id_for_update i) (\<lambda>ticket.
       case ticket of None \<Rightarrow> py_return () | Some t \<Rightarrow> cancel_locked c w (t_id t) reason)"
  unfolding request_cancellation_def mono.failure_ignored ..

lemma cancel_locked_ok:
  assumes "objs s i = Some (x, x)" and "clean_except i s" and "db_ok (view s)"
    and "uuid4 w 1 \<notin> event_ids (view s)"
  shows "cancel_locked c w i reason s =
    (let s' = rewritten i (db_clock w 0) x x (cancelled_ticket w reason x) s;
         v = announce c (uuid4 w 1) (db_clock w 0) i
               (build_cancellation_message c (uuid4 w 0) (clock w 1) i reason) (view s')
     in (Inr (), s'\<lparr>committed := v, view := v\<rparr>))"
proof -
  have fits: "ticket_columns_fit (write_back now x (cancelled_ticket w reason x) r)"
    if "r \<in> set (tickets (view s))" for r now
    using rows_fit [OF assms(3) that]
    by (intro write_back_fits) (simp_all add: cancelled_ticket_def varchar_fits_def)
  have ob: "outbox_events (view (rewritten i n l c' c'' s)) = outbox_events (view s)" for n l c' c''
    by (simp add: rewritten_def)
  show ?thesis
    unfolding cancel_locked_def
    by (subst update_status_outbox_commit [OF assms(1,2) _ _ assms(4)])
      (use fits in \<open>simp_all add: cancelled_ticket_def Let_def ob\<close>)
qed

definition cancelled_db :: "codec \<Rightarrow> ambient \<Rightarrow> uuid \<Rightarrow> string \<Rightarrow> database \<Rightarrow> database" where
  "cancelled_db c w i reason db =
     announce c (uuid4 w 1) (db_clock w 0) i (build_cancellation_message c (uuid4 w 0) (clock w 1) i reason)
       (rewrite_ticket i (\<lambda>q. stamped (db_clock w 0) q (cancelled_ticket w reason q)) db)"

lemma request_cancellation_effect:
  assumes "objs s = Map.empty" and ok: "db_ok (view s)"
    and r: "select_by t_id i (tickets (view s)) = [r]"
    and "uuid4 w 1 \<notin> event_ids (view s)"
  shows "commits (request_cancellation c client w i reason) s (cancelled_db c w i reason (view s))
           (counted (t_status r) CANCELLATION_REQUESTED (counters s))"
proof -
  let ?s = "s\<lparr>objs := (objs s)(i \<mapsto> (r, r))\<rparr>"
  have i: "t_id r = i" using r by (rule select_member)
  have g: "get_by_id_for_update i s = (Inr (Some r), ?s)"
    using get_fresh [of i s r] r assms(1) i by simp
  have upd: "update_where (\<lambda>q. t_id q = i) (write_back (db_clock w 0) r (cancelled_ticket w reason r))
      (tickets (view s)) =
    update_where (\<lambda>q. t_id q = i) (\<lambda>q. stamped (db_clock w 0) q (cancelled_ticket w reason q)) (tickets (view s))"
    by (subst rewrite_row [OF r]) (simp add: write_back_stamped cancelled_ticket_def)
  show ?thesis
    using cancel_locked_ok [of ?s i r w c reason] assms i
    by (simp add: commits_def request_cancellation_eq py_bind_def g clean_except_def Let_def
        rewritten_def upd cancelled_db_def) (simp add: cancelled_ticket_def)
qed

lemma request_cancellation_missing:
  "i \<notin> t_id ` set (tickets (view s)) \<Longrightarrow> request_cancellation c client w i reason s = (Inr (), s)"
  using get_missing [of i s]
  by (simp add: request_cancellation_def py_bind_def py_return_def select_by_empty_iff)

section \<open>Cancellation applied\<close>

definition cancel_applied_db :: "ambient \<Rightarrow> uuid \<Rightarrow> database \<Rightarrow> database" where
  "cancel_applied_db w i db =
     rewrite_ticket i (\<lambda>q. stamped (db_clock w 0) q (cancel_applied_ticket w q)) db"

lemma mark_cancellation_applied_effect:
  assumes "objs s = Map.empty" and ok: "db_ok (view s)"
    and r: "select_by t_id i (tickets (view s)) = [r]"
    and st: "t_status r \<noteq> CANCELLED"
  shows "commits (mark_cancellation_applied w i) s (cancel_applied_db w i (view s))
           (counted (t_status r) CANCELLED (counters s))"
proof -
  let ?s = "s\<lparr>objs := (objs s)(i \<mapsto> (r, r))\<rparr>"
  have i: "t_id r = i" using r by (rule select_member)
  have g: "get_by_id_for_update i s = (Inr (Some r), ?s)"
    using get_fresh [of i s r] r assms(1) i by simp
  have upd: "update_where (\<lambda>q. t_id q = i) (write_back (db_clock w 0) r (cancel_applied_ticket w r))
      (tickets (view s)) =
    update_where (\<lambda>q. t_id q = i) (\<lambda>q. stamped (db_clock w 0) q (cancel_applied_ticket w q)) (tickets (view s))"
    by (subst rewrite_row [OF r]) (simp add: write_back_stamped cancel_applied_ticket_def)
  have fits: "ticket_columns_fit (write_back now r (cancel_applied_ticket w r) q)"
    if "q \<in> set (tickets (view s))" for q now
    using rows_fit [OF ok that] by (intro write_back_fits) (simp_all add: cancel_applied_ticket_def)
  show ?thesis
    using update_status_commit [of ?s i r r "\<lambda>t. t\<lparr>t_cancelled_at :=
        (case t_cancelled_at t of Some x \<Rightarrow> Some x | None \<Rightarrow> Some (clock w 0))\<rparr>" "db_clock w 0" CANCELLED]
      fits assms(1) i st
    by (simp add: commits_def mark_cancellation_applied_def py_bind_def g clean_except_def Let_def
        rewritten_def cancel_applied_db_def upd cancel_applied_ticket_def [symmetric] split: option.splits)
      (simp add: cancel_applied_ticket_def)
qed

lemma mark_cancellation_applied_done:
  assumes "objs s = Map.empty" and r: "select_by t_id i (tickets (view s)) = [r]"
    and "t_status r = CANCELLED"
  shows "\<exists>os. mark_cancellation_applied w i s = (Inr (), s\<lparr>objs := os\<rparr>)"
  using get_fresh [of i s r] select_member [OF r] assms
  by (auto simp: mark_cancellation_applied_def py_bind_def py_return_def)

lemma mark_cancellation_applied_missing:
  "i \<notin> t_id ` set (tickets (view s)) \<Longrightarrow> mark_cancellation_applied w i s = (Inr (), s)"
  using get_missing [of i s]
  by (simp add: mark_cancellation_applied_def py_bind_def py_return_def select_by_empty_iff)

section \<open>Acknowledgement delivered\<close>

definition ack_delivered_db :: "ambient \<Rightarrow> uuid \<Rightarrow> recommendation_action \<Rightarrow> database \<Rightarrow> database" where
  "ack_delivered_db w i a db =
     rewrite_ticket i (\<lambda>q. stamped (db_clock w 0) q (ack_delivered_ticket w a q)) db"

lemma mark_provider_ack_delivered_effect:
  assumes "objs s = Map.empty" and ok: "db_ok (view s)"
    and r: "select_by t_id i (tickets (view s)) = [r]" and st: "\<not> terminal (t_status r)"
  shows "commits (mark_provider_ack_delivered w i a) s (ack_delivered_db w i a (view s))
           (counted (t_status r) (if a = ACCEPT then CONFIRMED else DECLINED) (counters s))"
proof -
  let ?s = "s\<lparr>objs := (objs s)(i \<mapsto> (r, r))\<rparr>"
  have i: "t_id r = i" using r by (rule select_member)
  have g: "get_by_id_for_update i s = (Inr (Some r), ?s)"
    using get_fresh [of i s r] r assms(1) i by simp
  have upd: "update_where (\<lambda>q. t_id q = i) (write_back (db_clock w 0) r (ack_delivered_ticket w a r))
      (tickets (view s)) =
    update_where (\<lambda>q. t_id q = i) (\<lambda>q. stamped (db_clock w 0) q (ack_delivered_ticket w a q)) (tickets (view s))"
    by (subst rewrite_row [OF r]) (simp add: write_back_stamped ack_delivered_ticket_def)
  have fits: "ticket_columns_fit (write_back now r (ack_delivered_ticket w a r) q)"
    if "q \<in> set (tickets (view s))" for q now
    using rows_fit [OF ok that] by (intro write_back_fits) (simp_all add: ack_delivered_ticket_def)
  show ?thesis
    using update_status_commit [of ?s i r r "\<lambda>t. t\<lparr>t_confirmed_at := Some (clock w 0)\<rparr>"
        "db_clock w 0" "if a = ACCEPT then CONFIRMED else DECLINED"] fits assms(1) i st
    by (simp add: commits_def mark_provider_ack_delivered_def py_bind_def g clean_except_def Let_def
        rewritten_def ack_delivered_db_def upd ack_delivered_ticket_def [symmetric] del: if_split)
      (simp add: ack_delivered_ticket_def)
qed

section \<open>Recommendation\<close>

definition recommended_db :: "ambient \<Rightarrow> uuid \<Rightarrow> recommendation_payload \<Rightarrow> database \<Rightarrow> database" where
  "recommended_db w i p db =
     rewrite_ticket i (\<lambda>q. stamped (db_clock w 0) q (recommended_ticket w p q)) db"

text \<open>
  The object the session holds after its first transaction, which the second one gets back
  from its locked select whatever the row has become.
\<close>

definition held_ticket :: "ambient \<Rightarrow> recommendation_payload \<Rightarrow> ticket \<Rightarrow> ticket" where
  "held_ticket w p r = stamped (db_clock w 0) r (recommended_ticket w p r)"

lemma held_ticket_simps [simp]:
  "t_id (held_ticket w p r) = t_id r"
  "t_status (held_ticket w p r) = recommendation_target (rp_action p)"
  "t_idempotency_key (held_ticket w p r) = t_idempotency_key r"
  "t_stake_amount (held_ticket w p r) = t_stake_amount r"
  by (auto simp: held_ticket_def stamped_def recommended_ticket_def)
    (metis ticket.select_convs(7) ticket.surjective ticket.update_convs(7))+

lemma record_recommendation_ok:
  assumes obj: "objs s = [i \<mapsto> (r, r)]" and ok: "db_ok (view s)"
    and r: "select_by t_id i (tickets (view s)) = [r]" and reason: "varchar_fits 512 (rp_reason p)"
  shows "record_recommendation w i p s =
    (Inr (), s\<lparr>committed := recommended_db w i p (view s), view := recommended_db w i p (view s),
              objs := [i \<mapsto> (held_ticket w p r, held_ticket w p r)],
              counters := counted (t_status r) (recommendation_target (rp_action p)) (counters s)\<rparr>)"
proof -
  have fits: "ticket_columns_fit (write_back now r (recommended_ticket w p r) q)"
    if "q \<in> set (tickets (view s))" for q now
    using rows_fit [OF ok that] reason by (intro write_back_fits) (simp_all add: recommended_ticket_def)
  have upd: "update_where (\<lambda>q. t_id q = i) (write_back (db_clock w 0) r (recommended_ticket w p r))
      (tickets (view s)) =
    update_where (\<lambda>q. t_id q = i) (\<lambda>q. stamped (db_clock w 0) q (recommended_ticket w p q)) (tickets (view s))"
    by (subst rewrite_row [OF r]) (simp add: write_back_stamped recommended_ticket_def)
  have fo: "flushed_object (db_clock w 0) (r, recommended_ticket w p r) =
      (held_ticket w p r, held_ticket w p r)"
    by (simp add: flushed_object_def held_ticket_def stamped_def Let_def)
  have "record_recommendation w i p s =
    (let s' = rewritten i (db_clock w 0) r r (recommended_ticket w p r) s
     in (Inr (), s'\<lparr>committed := view s'\<rparr>))"
    unfolding record_recommendation_def
    by (subst update_status_commit [of s i r r])
      (use obj fits in \<open>simp_all add: recommended_ticket_def clean_except_def\<close>)
  then show ?thesis
    by (cases s) (use obj upd fo in \<open>simp add: rewritten_def recommended_db_def Let_def recommended_ticket_def\<close>)
qed

lemma record_recommendation_too_long:
  assumes obj: "objs s = [i \<mapsto> (r, r)]" and ok: "db_ok (view s)"
    and r: "select_by t_id i (tickets (view s)) = [r]" and reason: "\<not> varchar_fits 512 (rp_reason p)"
  shows "\<exists>s'. record_recommendation w i p s = (Inl DataError, s') \<and> committed s' = committed s"
proof -
  define c1 where "c1 = r\<lparr>t_provider_recommendation := Some (rp_action p), t_provider_reason := rp_reason p,
      t_provider_recommendation_at := Some (clock w 0)\<rparr>"
  have mem: "r \<in> set (tickets (view s))" "t_id r = i" using select_member [OF r] by simp_all
  have rfit: "ticket_columns_fit r" using rows_fit [OF ok mem(1)] .
  have diff: "t_provider_reason r \<noteq> rp_reason p" using rfit reason by (auto simp: ticket_columns_fit_def)
  have bad: "flush now s1 = (Inl DataError, s1)"
    if "view s1 = view s" "objs s1 = [i \<mapsto> (r, c)]" "t_provider_reason c = rp_reason p" for now s1 c
  proof (rule flush_one_error [of i s1 r c r])
    show "\<not> ticket_columns_fit (write_back now r c r)"
      using diff reason that(3) by (auto simp: ticket_columns_fit_def write_back_columns)
  qed (use that mem rfit in \<open>simp_all add: clean_except_def\<close>)
  show ?thesis
  proof (cases "t_status r = recommendation_target (rp_action p)")
    case True
    then show ?thesis
      using bad [of "s\<lparr>objs := [i \<mapsto> (r, c1)]\<rparr>" c1 "db_clock w 0"] obj
      by (simp add: record_recommendation_def py_bind_def assign_def change_status_def attributes_def
          c1_def [symmetric] py_return_def commit_flush_error) (simp add: c1_def py_return_def commit_flush_error)
  next
    case False
    let ?c2 = "c1\<lparr>t_status := recommendation_target (rp_action p)\<rparr>"
    have "t_status c1 = t_status r" by (simp add: c1_def)
    then show ?thesis
      using bad [of "s\<lparr>objs := [i \<mapsto> (r, ?c2)], counters := cs\<rparr>" ?c2 "db_clock w 0" for cs] obj False
      by (simp add: record_recommendation_def py_bind_def assign_def change_status_def attributes_def
          c1_def [symmetric] inc_def py_modify_def Let_def) (simp add: c1_def)
  qed
qed

text \<open>The method as its two transactions with what others commit in between.\<close>

lemma apply_recommendation_steps:
  assumes obj: "objs s = Map.empty" and ok: "db_ok (view s)"
    and r: "select_by t_id (rp_ticket_id p) (tickets (view s)) = [r]"
    and st: "\<not> terminal (t_status r)" and reason: "varchar_fits 512 (rp_reason p)"
    and db1: "db1 = others w 0 (recommended_db w (rp_ticket_id p) p (view s))"
    and s1: "s1 = s\<lparr>committed := db1, view := db1,
      objs := [rp_ticket_id p \<mapsto> (held_ticket w p r, held_ticket w p r)],
      counters := counted (t_status r) (recommendation_target (rp_action p)) (counters s)\<rparr>"
  shows "apply_recommendation c client w p s =
    (if rolls w 0 < error_rate client
     then request_cancellation c client (later 1 w) (rp_ticket_id p) ''monolith_error: '' s1
     else settle c w (rp_ticket_id p) (rp_action p) s1)"
proof -
  let ?i = "rp_ticket_id p"
  let ?s = "s\<lparr>objs := [?i \<mapsto> (r, r)]\<rparr>"
  have i: "t_id r = ?i" using r by (rule select_member)
  have g: "get_by_id_for_update ?i s = (Inr (Some r), ?s)"
    using get_fresh [of ?i s r] r obj i by simp
  have rec: "record_recommendation w ?i p ?s =
    (Inr (), ?s\<lparr>committed := recommended_db w ?i p (view s), view := recommended_db w ?i p (view s),
              objs := [?i \<mapsto> (held_ticket w p r, held_ticket w p r)],
              counters := counted (t_status r) (recommendation_target (rp_action p)) (counters s)\<rparr>)"
    by (subst record_recommendation_ok [of ?s ?i r p w]) (use ok r reason in simp_all)
  have inter: "interfere (others w 0) (s\<lparr>committed := recommended_db w ?i p (view s),
      view := recommended_db w ?i p (view s), objs := [?i \<mapsto> (held_ticket w p r, held_ticket w p r)],
      counters := counted (t_status r) (recommendation_target (rp_action p)) (counters s)\<rparr>) = (Inr (), s1)"
    by (cases s) (simp add: interfere_def py_modify_def s1 db1)
  show ?thesis
    unfolding apply_recommendation_def
    by (simp add: py_bind_def g st i rec inter
        mono.caught_or_not process_ticket_fails_iff monolith_error_str_def)
qed

definition ack_message :: "codec \<Rightarrow> ambient \<Rightarrow> uuid \<Rightarrow> recommendation_action \<Rightarrow> message" where
  "ack_message c w i a =
     (if a = ACCEPT
      then message_build c (ConfirmRecommendationPayload \<lparr>cp_ticket_id = i\<rparr>) CONFIRM_RECOMMENDATION
             None (Some i) (uuid4 w 0) (clock w 2)
      else message_build c (DeclineRecommendationPayload \<lparr>dp_ticket_id = i\<rparr>) DECLINE_RECOMMENDATION
             None (Some i) (uuid4 w 0) (clock w 2))"

definition settled_db :: "codec \<Rightarrow> ambient \<Rightarrow> ticket \<Rightarrow> recommendation_action \<Rightarrow> database \<Rightarrow> database" where
  "settled_db c w x a db =
     announce c (uuid4 w 1) (db_clock w 1) (t_id x) (ack_message c w (t_id x) a)
       (rewrite_ticket (t_id x) (write_back (db_clock w 1) x (settled_ticket w x)) db)"

lemma settle_ok:
  assumes obj: "objs s = [i \<mapsto> (x, x)]" and i: "t_id x = i" and st: "\<not> terminal (t_status x)"
    and r: "select_by t_id i (tickets (view s)) = [r]" and ok: "db_ok (view s)"
    and fresh: "uuid4 w 1 \<notin> event_ids (view s)"
  shows "commits (settle c w i a) s (settled_db c w x a (view s))
           (counted (t_status x) SETTLED (counters s))"
proof -
  have g: "get_by_id_for_update i s = (Inr (Some x), s)"
    using get_held [of i s r x x] r obj select_member [OF r] by simp
  have fits: "ticket_columns_fit (write_back now x (settled_ticket w x) q)"
    if "q \<in> set (tickets (view s))" for q now
    using rows_fit [OF ok that] by (intro write_back_fits) (simp_all add: settled_ticket_def)
  have msg: "build_ack_message c (uuid4 w 0) (clock w 2) x a = ack_message c w i a"
    by (simp add: build_ack_message_def ack_message_def i)
  have ob: "outbox_events (view (rewritten i n l c' c'' s)) = outbox_events (view s)" for n l c' c''
    by (simp add: rewritten_def)
  have "settle c w i a s = settle_locked c w x a s"
    using st by (simp add: settle_def py_bind_def g)
  also have "\<dots> = (let s' = rewritten i (db_clock w 1) x x (settled_ticket w x) s;
              v = announce c (uuid4 w 1) (db_clock w 1) i (ack_message c w i a) (view s')
          in (Inr (), s'\<lparr>committed := v, view := v\<rparr>))"
    unfolding settle_locked_def i msg
    by (subst update_status_outbox_commit [of s i x x])
      (use obj fits fresh in \<open>simp_all add: settled_ticket_def clean_except_def Let_def ob\<close>)
  finally show ?thesis
    by (simp add: commits_def Let_def rewritten_def settled_db_def i) (simp add: settled_ticket_def)
qed

text \<open>A cancellation in a session that already holds the ticket works on the held attributes.\<close>

definition held_cancelled_db :: "codec \<Rightarrow> ambient \<Rightarrow> ticket \<Rightarrow> string \<Rightarrow> database \<Rightarrow> database" where
  "held_cancelled_db c w x reason db =
     announce c (uuid4 w 1) (db_clock w 0) (t_id x)
       (build_cancellation_message c (uuid4 w 0) (clock w 1) (t_id x) reason)
       (rewrite_ticket (t_id x) (write_back (db_clock w 0) x (cancelled_ticket w reason x)) db)"

lemma request_cancellation_held:
  assumes obj: "objs s i = Some (x, x)" and clean: "clean_except i s" and i: "t_id x = i"
    and r: "select_by t_id i (tickets (view s)) = [r]" and ok: "db_ok (view s)"
    and fresh: "uuid4 w 1 \<notin> event_ids (view s)"
  shows "commits (request_cancellation c client w i reason) s (held_cancelled_db c w x reason (view s))
           (counted (t_status x) CANCELLATION_REQUESTED (counters s))"
proof -
  have g: "get_by_id_for_update i s = (Inr (Some x), s)"
    using get_held [of i s r x x] r obj select_member [OF r] by simp
  show ?thesis
    using cancel_locked_ok [OF obj clean ok fresh, of c reason] i
    by (simp add: commits_def request_cancellation_eq py_bind_def g Let_def rewritten_def
        held_cancelled_db_def) (simp add: cancelled_ticket_def)
qed

section \<open>Rows after a rewrite\<close>

lemma select_rewritten:
  assumes "select_by t_id i (tickets db) = [r]" and "\<And>q. t_id (f q) = t_id q"
  shows "select_by t_id i (tickets (rewrite_ticket i f db)) = [f r]"
  using assms select_member(2) [OF assms(1)] by (simp add: select_by_update)

lemma select_not_rewritten:
  assumes "j \<noteq> i" and "\<And>q. t_id (f q) = t_id q"
  shows "select_by t_id j (update_where (\<lambda>q. t_id q = i) f rows) = select_by t_id j rows"
proof -
  have "update_where (\<lambda>q. t_id q = i) f (select_by t_id j rows) = select_by t_id j rows"
    using assms(1) by (intro update_where_id) (auto simp: select_by_def)
  with assms(2) show ?thesis by (simp add: select_by_update)
qed

lemma stamped_id [simp]: "t_id new = t_id old \<Longrightarrow> t_id (stamped now old new) = t_id old"
  by (simp add: stamped_def)

lemma written_ids [simp]:
  "t_id (cancelled_ticket w reason t) = t_id t"
  "t_id (recommended_ticket w p t) = t_id t"
  "t_id (settled_ticket w t) = t_id t"
  "t_id (cancel_applied_ticket w t) = t_id t"
  "t_id (ack_delivered_ticket w a t) = t_id t"
  by (simp_all add: cancelled_ticket_def recommended_ticket_def settled_ticket_def
      cancel_applied_ticket_def ack_delivered_ticket_def)

text \<open>Every column but \<open>updated_at\<close> of a stamped row is the new one.\<close>

lemma stamped_columns [simp]:
  "t_status (stamped now old new) = t_status new"
  "t_provider_recommendation (stamped now old new) = t_provider_recommendation new"
  "t_provider_reason (stamped now old new) = t_provider_reason new"
  "t_provider_recommendation_at (stamped now old new) = t_provider_recommendation_at new"
  "t_settled_at (stamped now old new) = t_settled_at new"
  "t_confirmed_at (stamped now old new) = t_confirmed_at new"
  "t_cancelled_at (stamped now old new) = t_cancelled_at new"
  "t_failure_reason (stamped now old new) = t_failure_reason new"
  "t_idempotency_key (stamped now old new) = t_idempotency_key new"
  "t_stake_amount (stamped now old new) = t_stake_amount new"
  "t_user_id (stamped now old new) = t_user_id new"
  "t_currency (stamped now old new) = t_currency new"
  "t_selections (stamped now old new) = t_selections new"
  "t_created_at (stamped now old new) = t_created_at new"
  by (auto simp: stamped_def)

lemmas db_results =
  cancelled_db_def held_cancelled_db_def cancel_applied_db_def ack_delivered_db_def
  recommended_db_def settled_db_def

text \<open>The rewrites keep a database well formed.\<close>

lemma rewrite_db_ok:
  assumes ok: "db_ok db"
    and "\<And>q. t_id (f q) = t_id q" and "\<And>q. t_idempotency_key (f q) = t_idempotency_key q"
    and "\<And>q. q \<in> set (tickets db) \<Longrightarrow> t_id q = i \<Longrightarrow> ticket_columns_fit (f q) \<and> stake_amount_positive (f q)"
  shows "db_ok (rewrite_ticket i f db)"
  using assms by (auto simp: db_ok_def unique_by_update set_update_where)

lemma stamped_fits:
  assumes "ticket_columns_fit q" and "t_idempotency_key g = t_idempotency_key q"
    and "t_stake_amount g = t_stake_amount q"
    and "varchar_fits 512 (t_provider_reason g) \<or> t_provider_reason g = t_provider_reason q"
    and "varchar_fits 1024 (t_failure_reason g) \<or> t_failure_reason g = t_failure_reason q"
  shows "ticket_columns_fit (stamped now q g)"
  using assms by (auto simp: ticket_columns_fit_def)

lemma announce_db_ok:
  "db_ok db \<Longrightarrow> fresh \<notin> event_ids db \<Longrightarrow> db_ok (announce c fresh now i m db)"
  by (simp add: db_ok_def unique_by_insert new_outbox_event_def)

lemma recommended_db_ok:
  assumes ok: "db_ok db" and "varchar_fits 512 (rp_reason p)"
  shows "db_ok (recommended_db w i p db)"
  unfolding recommended_db_def
proof (rule rewrite_db_ok [OF ok])
  fix q assume q: "q \<in> set (tickets db)"
  then have "ticket_columns_fit (stamped (db_clock w 0) q (recommended_ticket w p q))"
    using rows_fit [OF ok q] assms(2) by (intro stamped_fits) (simp_all add: recommended_ticket_def)
  moreover have "stake_amount_positive (stamped (db_clock w 0) q (recommended_ticket w p q))"
    using ok q by (simp add: stake_amount_positive_def recommended_ticket_def db_ok_def)
  ultimately show "ticket_columns_fit (stamped (db_clock w 0) q (recommended_ticket w p q)) \<and>
      stake_amount_positive (stamped (db_clock w 0) q (recommended_ticket w p q))" ..
qed (simp_all add: recommended_ticket_def)

lemma quiet_id: "quiet w \<Longrightarrow> others w n db = db"
  by (simp add: quiet_def)

lemma later_quiet: "quiet w \<Longrightarrow> quiet (later k w)"
  by (simp add: quiet_def later_def)


section \<open>A recommendation to its end\<close>

text \<open>
  Both ways the second transaction ends, on the database \<open>db1\<close> the other processes left
  while the monolith was called.
\<close>

lemma apply_recommendation_settled:
  assumes obj: "objs s = Map.empty" and ok: "db_ok (view s)"
    and r: "select_by t_id (rp_ticket_id p) (tickets (view s)) = [r]"
    and st: "\<not> terminal (t_status r)" and reason: "varchar_fits 512 (rp_reason p)"
    and db1: "db1 = others w 0 (recommended_db w (rp_ticket_id p) p (view s))"
    and ok1: "db_ok db1" and r1: "select_by t_id (rp_ticket_id p) (tickets db1) = [r1]"
    and answers: "\<not> rolls w 0 < error_rate client" and ev: "uuid4 w 1 \<notin> event_ids db1"
  shows "commits (apply_recommendation c client w p) s
    (settled_db c w (held_ticket w p r) (rp_action p) db1)
    (counted (recommendation_target (rp_action p)) SETTLED
      (counted (t_status r) (recommendation_target (rp_action p)) (counters s)))"
proof -
  let ?i = "rp_ticket_id p" and ?x = "held_ticket w p r"
  let ?s1 = "s\<lparr>committed := db1, view := db1, objs := [?i \<mapsto> (?x, ?x)],
      counters := counted (t_status r) (recommendation_target (rp_action p)) (counters s)\<rparr>"
  have i: "t_id ?x = ?i" using select_member(2) [OF r] by simp
  have "apply_recommendation c client w p s = settle c w ?i (rp_action p) ?s1"
    by (subst apply_recommendation_steps [OF obj ok r st reason db1 refl, where c = c and client = client])
      (use answers in simp)
  moreover have "commits (settle c w ?i (rp_action p)) ?s1 (settled_db c w ?x (rp_action p) db1)
      (counted (t_status ?x) SETTLED (counters ?s1))"
    using settle_ok [where s = ?s1 and i = ?i and x = ?x and r = r1 and w = w and a = "rp_action p" and c = c]
      i r1 ok1 ev by (simp add: recommendation_target_def)
  ultimately show ?thesis by (simp add: commits_def)
qed

lemma apply_recommendation_cancelled:
  assumes obj: "objs s = Map.empty" and ok: "db_ok (view s)"
    and r: "select_by t_id (rp_ticket_id p) (tickets (view s)) = [r]"
    and st: "\<not> terminal (t_status r)" and reason: "varchar_fits 512 (rp_reason p)"
    and db1: "db1 = others w 0 (recommended_db w (rp_ticket_id p) p (view s))"
    and ok1: "db_ok db1" and r1: "select_by t_id (rp_ticket_id p) (tickets db1) = [r1]"
    and fails: "rolls w 0 < error_rate client" and ev: "uuid4 w 2 \<notin> event_ids db1"
  shows "commits (apply_recommendation c client w p) s
    (held_cancelled_db c (later 1 w) (held_ticket w p r) ''monolith_error: '' db1)
    (counted (recommendation_target (rp_action p)) CANCELLATION_REQUESTED
      (counted (t_status r) (recommendation_target (rp_action p)) (counters s)))"
proof -
  let ?i = "rp_ticket_id p" and ?x = "held_ticket w p r"
  let ?s1 = "s\<lparr>committed := db1, view := db1, objs := [?i \<mapsto> (?x, ?x)],
      counters := counted (t_status r) (recommendation_target (rp_action p)) (counters s)\<rparr>"
  have i: "t_id ?x = ?i" using select_member(2) [OF r] by simp
  have "apply_recommendation c client w p s =
      request_cancellation c client (later 1 w) ?i ''monolith_error: '' ?s1"
    by (subst apply_recommendation_steps [OF obj ok r st reason db1 refl, where c = c and client = client])
      (use fails in simp)
  moreover have "commits (request_cancellation c client (later 1 w) ?i ''monolith_error: '') ?s1
      (held_cancelled_db c (later 1 w) ?x ''monolith_error: '' db1)
      (counted (t_status ?x) CANCELLATION_REQUESTED (counters ?s1))"
    using request_cancellation_held [where s = ?s1 and i = ?i and x = ?x and r = r1 and w = "later 1 w"
        and c = c and client = client and reason = "''monolith_error: ''"]
      i r1 ok1 ev by (simp add: later_def clean_except_def)
  ultimately show ?thesis by (simp add: commits_def)
qed

end
