(* ===== verification/Samples.thy ===== *)
theory Samples
  imports Ticket_Lifecycle
begin

text \<open>
  Concrete states for the witnesses: one ticket in a chosen status, the database that holds
  it, a session opened on a database, an environment with fixed draws, a request, and a
  recommendation.
\<close>

definition sample_selection :: selection where
  "sample_selection = \<lparr>sel_event_id = ''match:1'', sel_market = ''1x2'', sel_odds = Decimal 185 (- 2)\<rparr>"

definition sample_ticket :: "ticket_status \<Rightarrow> ticket" where
  "sample_ticket st =
     \<lparr>t_id = 7, t_idempotency_key = ''k1'', t_user_id = 3, t_stake_amount = Decimal 50000 (- 2),
      t_currency = RUB, t_selections = [selection_dump ref_codec sample_selection], t_status = st,
      t_provider_recommendation = None, t_provider_reason = None,
      t_provider_recommendation_at = None, t_settled_at = None, t_confirmed_at = None,
      t_cancelled_at = None, t_failure_reason = None, t_created_at = 10, t_updated_at = 10\<rparr>"

definition sample_db :: "ticket_status \<Rightarrow> database" where
  "sample_db st = \<lparr>tickets = [sample_ticket st], outbox_events = [], processed = []\<rparr>"

definition session_on :: "database \<Rightarrow> sess" where
  "session_on db =
     \<lparr>committed = db, view = db, objs = Map.empty, counters = (\<lambda>_. 0), published = []\<rparr>"

definition sample_ambient :: "real \<Rightarrow> (database \<Rightarrow> database) \<Rightarrow> ambient" where
  "sample_ambient roll env =
     \<lparr>uuid4 = (\<lambda>n. if n = 0 then 100 else if n = 1 then 101 else if n = 2 then 102 else 103),
      clock = (\<lambda>n. int n + 1000), rolls = (\<lambda>_. roll), db_clock = (\<lambda>n. int n + 2000),
      others = (\<lambda>_. env)\<rparr>"

definition sample_client :: fake_monolith where
  "sample_client = \<lparr>time_multiplier = 1, error_rate = 1 / 20\<rparr>"

definition sample_request :: "decimal \<Rightarrow> create_ticket_request" where
  "sample_request stake =
     \<lparr>cr_user_id = 3, cr_stake_amount = stake, cr_currency = ''RUB'',
      cr_selections = [selection_dump ref_codec sample_selection]\<rparr>"

definition sample_recommendation :: recommendation_payload where
  "sample_recommendation =
     \<lparr>rp_ticket_id = 7, rp_action = ACCEPT, rp_reason = Some ''ok'', rp_expires_at = 5000\<rparr>"

text \<open>What the samples satisfy.\<close>

lemma sample_session [simp]:
  "view (session_on db) = db" "committed (session_on db) = db" "objs (session_on db) = Map.empty"
  "counters (session_on db) = (\<lambda>_. 0)" "published (session_on db) = []"
  by (simp_all add: session_on_def)

lemma sample_fresh [simp]: "fresh_session (session_on db)"
  by (simp add: fresh_session_def)

lemma sample_db_simps [simp]:
  "tickets (sample_db st) = [sample_ticket st]" "outbox_events (sample_db st) = []"
  "processed (sample_db st) = []"
  by (simp_all add: sample_db_def)

lemma sample_ticket_simps [simp]:
  "t_id (sample_ticket st) = 7" "t_status (sample_ticket st) = st"
  "t_idempotency_key (sample_ticket st) = ''k1''"
  by (simp_all add: sample_ticket_def)

lemma sample_db_ok [simp]: "db_ok (sample_db st)"
  by (simp add: db_ok_def unique_by_def ticket_columns_fit_def stake_amount_positive_def
      varchar_fits_def numeric_fits_def) (simp add: sample_ticket_def)

lemma sample_row [simp]: "select_by t_id 7 [sample_ticket st] = [sample_ticket st]"
  by (simp add: select_by_def)

lemma sample_quiet [simp]: "quiet (sample_ambient roll id)"
  by (simp add: quiet_def sample_ambient_def)

lemma sample_draws [simp]:
  "uuid4 (sample_ambient roll env) 0 = 100" "uuid4 (sample_ambient roll env) 1 = 101"
  "uuid4 (sample_ambient roll env) 2 = 102" "rolls (sample_ambient roll env) n = roll"
  "others (sample_ambient roll env) n = env"
  "db_clock (sample_ambient roll env) n = int n + 2000"
  "clock (sample_ambient roll env) n = int n + 1000"
  by (simp_all add: sample_ambient_def)

lemma sample_selections [simp]:
  "selection_validate ref_codec (selection_dump ref_codec sample_selection) = Some sample_selection"
  by (rule ref.selection_roundtrip)

lemma sample_client_rate [simp]: "error_rate sample_client = 1 / 20"
  by (simp add: sample_client_def)

lemma sample_recommendation_simps [simp]:
  "rp_ticket_id sample_recommendation = 7" "rp_action sample_recommendation = ACCEPT"
  "rp_reason sample_recommendation = Some ''ok''"
  by (simp_all add: sample_recommendation_def)

lemma empty_db_simps [simp]:
  "tickets empty_db = []" "outbox_events empty_db = []" "processed empty_db = []"
  by (simp_all add: empty_db_def)

end
