(* ===== verification/Ticket_Properties.thy ===== *)
theory Ticket_Properties
  imports Samples
begin

text \<open>
  The properties of \<^verbatim>\<open>TicketService\<close>, each with a witness: idempotent and transactional
  creation, the effect of a recommendation and of its failures, cancellation, and what
  happens to tickets that are already final.
\<close>

section \<open>Creation\<close>

text \<open>
  A request under an unused key stores exactly one ticket, in status \<open>NEW\<close>, and in the
  same commit exactly one outbox entry, pending and addressed to the provider's queue,
  whose body reads back as a \<open>TICKET\<close> message with the ticket's data.
\<close>

theorem create_ticket_announced:
  assumes codec: "codec_ok c" and fresh: "fresh_session s" and q: "quiet w"
    and cur: "enum_by_value currency_value (cr_currency request) = Some cur"
    and unused: "key \<notin> t_idempotency_key ` set (tickets (committed s))"
    and ids: "uuid4 w 0 \<notin> t_id ` set (tickets (committed s))"
      "uuid4 w 2 \<notin> event_ids (committed s)"
    and st: "storable c w (new_ticket (uuid4 w 0) key request cur)"
  shows "\<exists>s' r e m sels.
    create_ticket c w key request s = (Inr \<lparr>ctr_ticket = timed (db_clock w 0)
        (new_ticket (uuid4 w 0) key request cur), ctr_created = True\<rparr>, s') \<and>
    committed s' = (committed s)\<lparr>tickets := tickets (committed s) @ [r],
                                  outbox_events := outbox_events (committed s) @ [e]\<rparr> \<and>
    t_id r = uuid4 w 0 \<and> t_idempotency_key r = key \<and> t_status r = NEW \<and>
    t_stake_amount r = numeric_round 2 (cr_stake_amount request) \<and>
    e_entity_id e = uuid4 w 0 \<and> e_status e = PENDING \<and> e_attempts e = 0 \<and>
    e_routing_key e = top_provider_out_routing_key TOPOLOGY \<and>
    message_validate c i0 t0 (e_payload e) = Some m \<and> m_type m = TICKET \<and>
    m_ticket_id m = Some (uuid4 w 0) \<and>
    map_options (selection_validate c) (cr_selections request) = Some sels \<and>
    ticket_payload_validate c (m_payload m) = Some
      \<lparr>tp_ticket_id = uuid4 w 0, tp_user_id = cr_user_id request,
       tp_stake_amount = cr_stake_amount request, tp_currency = currency_value cur,
       tp_selections = sels, tp_placed_at = clock w 0\<rparr> \<and>
    counters s' (TicketsCreated (currency_value cur)) =
      Suc (counters s (TicketsCreated (currency_value cur)))"
proof -
  let ?t = "new_ticket (uuid4 w 0) key request cur"
  obtain sels where sels: "map_options (selection_validate c) (cr_selections request) = Some sels"
    using st by (auto simp: storable_def new_ticket_def)
  define m where "m = message_build c
    (TicketPayload \<lparr>tp_ticket_id = uuid4 w 0, tp_user_id = cr_user_id request,
       tp_stake_amount = cr_stake_amount request, tp_currency = currency_value cur,
       tp_selections = sels, tp_placed_at = clock w 0\<rparr>)
    TICKET None (Some (uuid4 w 0)) (uuid4 w 1) (clock w 1)"
  have m: "build_ticket_message c (clock w 0) (uuid4 w 1) (clock w 1) ?t = Inr m"
    using sels by (simp add: build_ticket_message_def m_def new_ticket_def)
  have run: "create_ticket c w key request s =
    (Inr \<lparr>ctr_ticket = timed (db_clock w 0) ?t, ctr_created = True\<rparr>,
     s\<lparr>committed := with_ticket c w ?t m (committed s), view := with_ticket c w ?t m (committed s),
       objs := [t_id ?t \<mapsto> (timed (db_clock w 0) ?t, timed (db_clock w 0) ?t)],
       counters := (counters s)(TicketsCreated (currency_value cur) :=
         Suc (counters s (TicketsCreated (currency_value cur))))\<rparr>)"
    by (rule create_ticket_stores [OF fresh _ cur refl unused]) (use q ids st m unused in \<open>simp_all add: quiet_id\<close>)
  have rt: "message_validate c i0 t0 (message_dump c m) = Some m"
    "ticket_payload_validate c (m_payload m) = Some
      \<lparr>tp_ticket_id = uuid4 w 0, tp_user_id = cr_user_id request,
       tp_stake_amount = cr_stake_amount request, tp_currency = currency_value cur,
       tp_selections = sels, tp_placed_at = clock w 0\<rparr>"
    using codec_reads(1) [OF codec]
      codec_reads(4) [OF codec,
        of "\<lparr>tp_ticket_id = uuid4 w 0, tp_user_id = cr_user_id request,
       tp_stake_amount = cr_stake_amount request, tp_currency = currency_value cur,
       tp_selections = sels, tp_placed_at = clock w 0\<rparr>"]
    by (simp_all add: m_def message_build_def)
  show ?thesis
    by (rule exI, rule exI [of _ "stored_ticket (db_clock w 0) ?t"],
        rule exI [of _ "outbound_event c (uuid4 w 2) (db_clock w 0) (uuid4 w 0) m"],
        rule exI [of _ m], rule exI [of _ sels], intro conjI, rule run)
      (use sels rt in \<open>simp_all add: with_ticket_def insert_row_def stored_ticket_def new_ticket_def
          new_outbox_event_def m_def message_build_def\<close>)
qed

theorem create_ticket_announced_witness:
  "\<exists>s'. create_ticket ref_codec (sample_ambient (1/2) id) ''k2'' (sample_request (Decimal 2500 (- 2)))
          (session_on (sample_db NEW)) =
        (Inr \<lparr>ctr_ticket = timed 2000 (new_ticket 100 ''k2'' (sample_request (Decimal 2500 (- 2))) RUB),
             ctr_created = True\<rparr>, s') \<and>
      length (tickets (committed s')) = 2 \<and> length (outbox_events (committed s')) = 1"
proof -
  have st: "storable ref_codec (sample_ambient (1/2) id)
      (new_ticket 100 ''k2'' (sample_request (Decimal 2500 (- 2))) RUB)"
    by (simp add: storable_def stored_ticket_def new_ticket_def sample_request_def ticket_columns_fit_def
        stake_amount_positive_def numeric_fits_def varchar_fits_def numeric_round_def)
  have cur: "enum_by_value currency_value (cr_currency (sample_request d)) = Some RUB" for d
    using cur.by_value_value [of RUB] by (simp add: sample_request_def)
  show ?thesis
    using create_ticket_announced [OF ref_codec_ok, of "session_on (sample_db NEW)"
        "sample_ambient (1/2) id" "sample_request (Decimal 2500 (- 2))" RUB "''k2''" 0 0] st cur
    by auto
qed

text \<open>
  Creation is idempotent. After a request under a key has returned a ticket, whether it
  stored it or found it, every later request under this key, whatever its content, returns
  the same ticket, stores nothing and counts no creation.
\<close>

theorem create_ticket_retry:
  assumes "fresh_session s" and "quiet w" and ok: "db_ok (committed s)" "db_ok (committed s1)"
    and first: "create_ticket c w key request s = (Inr res, s1)"
  shows "\<exists>r s2. create_ticket c w' key request' (open_session s1) =
           (Inr \<lparr>ctr_ticket = r, ctr_created = False\<rparr>, s2) \<and>
         t_id r = t_id (ctr_ticket res) \<and> r \<in> set (tickets (committed s1)) \<and>
         committed s2 = committed s1 \<and> counters s2 = counters s1"
proof -
  obtain r where r: "r \<in> set (tickets (committed s1))" "t_idempotency_key r = key"
    "t_id r = t_id (ctr_ticket res)"
    by (rule create_ticket_inv [OF assms(1,2) ok(1) first])
  have "fresh_session (open_session s1)" by (simp add: fresh_session_def open_session_def)
  from create_ticket_existing [OF this _ _ r(2), of c w' request'] ok(2) r show ?thesis
    by (simp add: open_session_def)
qed

theorem create_ticket_retry_witness:
  "\<exists>s2. create_ticket ref_codec (sample_ambient 0 id) ''k1'' (sample_request (Decimal 1 0))
      (open_session (session_on (sample_db SETTLED)\<lparr>objs := [7 \<mapsto> (sample_ticket SETTLED, sample_ticket SETTLED)]\<rparr>)) =
    (Inr \<lparr>ctr_ticket = sample_ticket SETTLED, ctr_created = False\<rparr>, s2)"
proof -
  have first: "create_ticket ref_codec (sample_ambient 0 id) ''k1'' (sample_request (Decimal 5 0))
      (session_on (sample_db SETTLED)) =
    (Inr \<lparr>ctr_ticket = sample_ticket SETTLED, ctr_created = False\<rparr>,
     session_on (sample_db SETTLED)\<lparr>objs := [7 \<mapsto> (sample_ticket SETTLED, sample_ticket SETTLED)]\<rparr>)"
    using create_ticket_existing [of "session_on (sample_db SETTLED)" "sample_ticket SETTLED" "''k1''"]
    by simp
  show ?thesis
    using create_ticket_retry [OF _ _ _ _ first, where w' = "sample_ambient 0 id"
        and request' = "sample_request (Decimal 1 0)"]
    by auto
qed

text \<open>
  C23: of two concurrent requests under one key, the one whose insert meets the unique
  constraint because the other committed first returns the other's ticket: it commits
  nothing, counts no creation and raises nothing.
\<close>

theorem create_ticket_loses_race:
  assumes fresh: "fresh_session s"
    and db0: "db0 = others w 0 (committed s)" and db1: "db1 = others w 1 db0"
    and cur: "enum_by_value currency_value (cr_currency request) = Some cur"
    and unused: "key \<notin> t_idempotency_key ` set (tickets (committed s))"
    and raced: "key \<in> t_idempotency_key ` set (tickets db0)"
    and fits: "ticket_columns_fit (stored_ticket (db_clock w 0) (new_ticket (uuid4 w 0) key request cur))"
    and ok: "db_ok db1" and r: "r \<in> set (tickets db1)" and key: "t_idempotency_key r = key"
  shows "\<exists>s'. create_ticket c w key request s = (Inr \<lparr>ctr_ticket = r, ctr_created = False\<rparr>, s') \<and>
    committed s' = db1 \<and> counters s' = counters s"
  using create_ticket_race [OF fresh db0 db1 cur unused raced fits ok r key, of c] by simp

theorem create_ticket_loses_race_witness:
  "\<exists>s'. create_ticket ref_codec (sample_ambient 0 (\<lambda>_. sample_db NEW)) ''k1'' (sample_request (Decimal 5 0))
      (session_on empty_db) = (Inr \<lparr>ctr_ticket = sample_ticket NEW, ctr_created = False\<rparr>, s') \<and>
    committed s' = sample_db NEW \<and> counters s' = (\<lambda>_. 0)"
proof -
  have fits: "ticket_columns_fit (stored_ticket 2000 (new_ticket 100 ''k1'' (sample_request (Decimal 5 0)) RUB))"
    by (simp add: stored_ticket_def new_ticket_def sample_request_def ticket_columns_fit_def
        numeric_fits_def varchar_fits_def numeric_round_def)
  have cur: "enum_by_value currency_value (cr_currency (sample_request d)) = Some RUB" for d
    using cur.by_value_value [of RUB] by (simp add: sample_request_def)
  show ?thesis
    using create_ticket_loses_race [of "session_on empty_db" "sample_db NEW"
        "sample_ambient 0 (\<lambda>_. sample_db NEW)" "sample_db NEW" "sample_request (Decimal 5 0)" RUB
        "''k1''" "sample_ticket NEW" ref_codec] fits cur
    by simp
qed

text \<open>
  A creation that raises, whatever the exception, has committed nothing: the database
  is what it was, up to what other processes committed meanwhile.
\<close>

theorem create_ticket_failure_atomic:
  assumes "fresh_session s" and "fst (create_ticket c w key request s) = Inl e"
  shows "committed (snd (create_ticket c w key request s)) \<in>
    {committed s, others w 0 (committed s), others w 1 (others w 0 (committed s))}"
  by (rule create_ticket_error_committed [OF assms])

theorem create_ticket_failure_atomic_witness:
  "fst (create_ticket ref_codec (sample_ambient 0 id) ''k2'' (sample_request (Decimal 5 0)\<lparr>cr_currency := ''GBP''\<rparr>)
      (session_on (sample_db NEW))) = Inl ValueError \<and>
   committed (snd (create_ticket ref_codec (sample_ambient 0 id) ''k2''
      (sample_request (Decimal 5 0)\<lparr>cr_currency := ''GBP''\<rparr>) (session_on (sample_db NEW)))) = sample_db NEW"
proof -
  have "enum_by_value currency_value ''GBP'' = None"
    unfolding cur.by_value_None_iff by (rule allI, rename_tac x, case_tac x) simp_all
  then have e: "fst (create_ticket ref_codec (sample_ambient 0 id) ''k2''
      (sample_request (Decimal 5 0)\<lparr>cr_currency := ''GBP''\<rparr>) (session_on (sample_db NEW))) = Inl ValueError"
    by (simp add: create_ticket_def py_bind_def get_key_missing py_raise_def)
  then show ?thesis
    using create_ticket_failure_atomic [OF sample_fresh e] by auto
qed

text \<open>
  Which requests are refused, and how, when no other process interferes and the key is
  unused: an unknown currency with \<^verbatim>\<open>ValueError\<close>, a value that does not fit its column (a
  key over 128 characters among them) with \<^verbatim>\<open>DataError\<close>, a stake that is not positive with
  \<^verbatim>\<open>IntegrityError\<close> (nothing is found under the key afterwards, so it is re-raised), a
  malformed selection with \<^verbatim>\<open>ValidationError\<close>.
\<close>

theorem create_ticket_refusals:
  assumes fresh: "fresh_session s" and q: "quiet w"
    and unused: "key \<notin> t_idempotency_key ` set (tickets (committed s))"
    and id: "uuid4 w 0 \<notin> t_id ` set (tickets (committed s))"
  shows "fst (create_ticket c w key request s) =
    (case enum_by_value currency_value (cr_currency request) of
       None \<Rightarrow> Inl ValueError
     | Some cur \<Rightarrow>
         let t = new_ticket (uuid4 w 0) key request cur; r = stored_ticket (db_clock w 0) t in
         if \<not> ticket_columns_fit r then Inl DataError
         else if \<not> stake_amount_positive r then Inl IntegrityError
         else if map_options (selection_validate c) (cr_selections request) = None then Inl ValidationError
         else if uuid4 w 2 \<in> event_ids (committed s) then Inl IntegrityError
         else Inr \<lparr>ctr_ticket = timed (db_clock w 0) t, ctr_created = True\<rparr>)"
proof -
  have v: "view s = committed s" "objs s = Map.empty" using fresh by (simp_all add: fresh_session_def)
  then have same: "s\<lparr>view := committed s\<rparr> = s" by (cases s) simp
  show ?thesis
  proof (cases "enum_by_value currency_value (cr_currency request)")
    case None
    with v unused show ?thesis
      by (simp add: create_ticket_def py_bind_def get_key_missing py_raise_def)
  next
    case (Some cur)
    let ?t = "new_ticket (uuid4 w 0) key request cur"
    let ?r = "stored_ticket (db_clock w 0) ?t"
    have ins: "insert_ticket (db_clock w 0) ?t (committed s) =
      (if \<not> ticket_columns_fit ?r then Inl DataError
       else if \<not> stake_amount_positive ?r then Inl IntegrityError
       else Inr ((committed s)\<lparr>tickets := insert_row ?r (tickets (committed s))\<rparr>))"
      using unused id
      by (auto simp: insert_ticket_def Let_def select_by_empty_iff stored_ticket_def new_ticket_def)
    have store: "fst (store_ticket c w ?t s) =
      (if \<not> ticket_columns_fit ?r then Inl DataError
       else if \<not> stake_amount_positive ?r then Inl IntegrityError
       else if map_options (selection_validate c) (cr_selections request) = None then Inl ValidationError
       else if uuid4 w 2 \<in> event_ids (committed s) then Inl IntegrityError
       else Inr (timed (db_clock w 0) ?t))"
      using v ins
      by (auto simp: store_ticket_def py_bind_def ticket_add_clean build_ticket_message_def py_lift_def
          new_ticket_def outbox_message_def outbox_add_def flush_all_clean insert_outbound_event
          commit_def py_modify_def session_options_def attributes_def split: option.splits)
    obtain x s1 where st: "store_ticket c w ?t s = (x, s1)" by fastforce
    have again: "get_by_idempotency_key key (s1\<lparr>objs := Map.empty, view := committed s1\<rparr>) =
        (Inr None, s1\<lparr>objs := Map.empty, view := committed s1\<rparr>)" if "x = Inl e" for e
      using store_ticket_committed [OF v(2), of c w ?t e] st that unused by (intro get_key_missing) simp
    show ?thesis
      using Some v unused st store again
      by (cases x) (simp_all add: create_ticket_def py_bind_def py_try_def interfere_def py_modify_def same
          get_key_missing rollback_def py_raise_def open_session_def quiet_id [OF q] inc_def py_return_def
          Let_def split: if_splits)
  qed
qed

theorem create_ticket_refusals_witness:
  "fst (create_ticket ref_codec (sample_ambient 0 id) ''k2'' (sample_request (Decimal (- 5) 0))
      (session_on (sample_db NEW))) = Inl IntegrityError"
proof -
  have cur: "enum_by_value currency_value (cr_currency (sample_request d)) = Some RUB" for d
    using cur.by_value_value [of RUB] by (simp add: sample_request_def)
  have "ticket_columns_fit (stored_ticket 2000 (new_ticket 100 ''k2'' (sample_request (Decimal (- 5) 0)) RUB))"
    "\<not> stake_amount_positive (stored_ticket 2000 (new_ticket 100 ''k2'' (sample_request (Decimal (- 5) 0)) RUB))"
    by (simp_all add: stored_ticket_def new_ticket_def sample_request_def ticket_columns_fit_def
        numeric_fits_def varchar_fits_def numeric_round_def stake_amount_positive_def)
  then show ?thesis
    using create_ticket_refusals [OF sample_fresh sample_quiet, of "''k2''" "sample_db NEW" 0 ref_codec
        "sample_request (Decimal (- 5) 0)"] cur
    by simp
qed

section \<open>Recommendations\<close>

text \<open>
  C19: the successful path. A recommendation for a ticket that is not final, whose reason
  fits its column, with no interference and a monolith that answers, is carried to the end:
  the ticket is \<open>SETTLED\<close>, records the provider's action and reason and both times, and the
  outbox gained exactly one entry, a \<open>CONFIRM_RECOMMENDATION\<close> for an accepted ticket and a
  \<open>DECLINE_RECOMMENDATION\<close> for a declined one. No other ticket changes.
\<close>

theorem apply_recommendation_settles:
  assumes obj: "objs s = Map.empty" and ok: "db_ok (view s)" and q: "quiet w"
    and r: "select_by t_id (rp_ticket_id p) (tickets (view s)) = [r]"
    and st: "\<not> terminal (t_status r)" and reason: "varchar_fits 512 (rp_reason p)"
    and answers: "\<not> rolls w 0 < error_rate client"
    and ev: "uuid4 w 1 \<notin> event_ids (view s)"
  shows "\<exists>s' r'. apply_recommendation c client w p s = (Inr (), s') \<and>
    select_by t_id (rp_ticket_id p) (tickets (committed s')) = [r'] \<and>
    t_status r' = SETTLED \<and> t_provider_recommendation r' = Some (rp_action p) \<and>
    t_provider_reason r' = rp_reason p \<and> t_provider_recommendation_at r' = Some (clock w 0) \<and>
    t_settled_at r' = Some (clock w 1) \<and> t_confirmed_at r' = t_confirmed_at r \<and>
    (\<forall>j. j \<noteq> rp_ticket_id p \<longrightarrow>
       select_by t_id j (tickets (committed s')) = select_by t_id j (tickets (view s))) \<and>
    outbox_events (committed s') = outbox_events (view s) @
      [outbound_event c (uuid4 w 1) (db_clock w 1) (rp_ticket_id p) (ack_message c w (rp_ticket_id p) (rp_action p))] \<and>
    processed (committed s') = processed (view s)"
proof -
  let ?i = "rp_ticket_id p" and ?x = "held_ticket w p r"
  let ?db1 = "recommended_db w ?i p (view s)"
  let ?f = "write_back (db_clock w 1) ?x (settled_ticket w ?x)"
  have i: "t_id r = ?i" using r by (rule select_member)
  have row: "select_by t_id ?i (tickets ?db1) = [?x]"
    using select_rewritten [OF r, of "\<lambda>q. stamped (db_clock w 0) q (recommended_ticket w p q)"]
    by (simp add: recommended_db_def held_ticket_def)
  obtain s' where s': "apply_recommendation c client w p s = (Inr (), s')"
    "committed s' = settled_db c w ?x (rp_action p) ?db1"
    using apply_recommendation_settled [OF obj ok r st reason _ recommended_db_ok [OF ok reason] row answers, where c = c]
      quiet_id [OF q] ev by (auto simp: commits_def recommended_db_def)
  have final: "select_by t_id ?i (tickets (committed s')) = [?f ?x]"
    using select_rewritten [OF row, of ?f] i by (simp add: s' settled_db_def)
  have rest: "select_by t_id j (tickets (committed s')) = select_by t_id j (tickets (view s))" if "j \<noteq> ?i" for j
    using that i by (simp add: s' settled_db_def recommended_db_def select_not_rewritten)
  show ?thesis
    by (rule exI [of _ s'], rule exI [of _ "?f ?x"])
      (use s' final rest i in \<open>simp_all add: write_back_columns settled_ticket_def
        settled_db_def recommended_db_def insert_row_def held_ticket_def recommended_ticket_def\<close>)
qed

theorem apply_recommendation_settles_witness:
  "\<exists>s' r'. apply_recommendation ref_codec sample_client (sample_ambient (1/2) id) sample_recommendation
      (session_on (sample_db SENT_TO_PROVIDER)) = (Inr (), s') \<and>
    select_by t_id 7 (tickets (committed s')) = [r'] \<and> t_status r' = SETTLED \<and>
    length (outbox_events (committed s')) = 1"
  using apply_recommendation_settles [of "session_on (sample_db SENT_TO_PROVIDER)" "sample_ambient (1/2) id"
      sample_recommendation "sample_ticket SENT_TO_PROVIDER" sample_client ref_codec]
  by (auto simp: varchar_fits_def)

text \<open>
  C24: the monolith fails. The recommendation stays recorded, and the ticket ends in
  \<open>CANCELLATION_REQUESTED\<close> with the failure reason \<^verbatim>\<open>monolith_error: \<close> and one outbox entry
  that asks the provider to cancel; the handler does not raise.
\<close>

theorem apply_recommendation_monolith_failure:
  assumes obj: "objs s = Map.empty" and ok: "db_ok (view s)" and q: "quiet w"
    and r: "select_by t_id (rp_ticket_id p) (tickets (view s)) = [r]"
    and st: "\<not> terminal (t_status r)" and reason: "varchar_fits 512 (rp_reason p)"
    and fails: "rolls w 0 < error_rate client"
    and ev: "uuid4 w 2 \<notin> event_ids (view s)"
  shows "\<exists>s' r'. apply_recommendation c client w p s = (Inr (), s') \<and>
    select_by t_id (rp_ticket_id p) (tickets (committed s')) = [r'] \<and>
    t_status r' = CANCELLATION_REQUESTED \<and> t_failure_reason r' = Some ''monolith_error: '' \<and>
    t_cancelled_at r' = Some (clock w 1) \<and> t_provider_recommendation r' = Some (rp_action p) \<and>
    t_settled_at r' = t_settled_at r \<and>
    outbox_events (committed s') = outbox_events (view s) @
      [outbound_event c (uuid4 w 2) (db_clock w 1) (rp_ticket_id p)
         (build_cancellation_message c (uuid4 w 1) (clock w 2) (rp_ticket_id p) ''monolith_error: '')]"
proof -
  let ?i = "rp_ticket_id p" and ?x = "held_ticket w p r" and ?w = "later 1 w"
  let ?db1 = "recommended_db w ?i p (view s)"
  let ?f = "write_back (db_clock ?w 0) ?x (cancelled_ticket ?w ''monolith_error: '' ?x)"
  have i: "t_id r = ?i" using r by (rule select_member)
  have row: "select_by t_id ?i (tickets ?db1) = [?x]"
    using select_rewritten [OF r, of "\<lambda>q. stamped (db_clock w 0) q (recommended_ticket w p q)"]
    by (simp add: recommended_db_def held_ticket_def)
  have w: "uuid4 ?w 0 = uuid4 w 1" "uuid4 ?w 1 = uuid4 w 2" "clock ?w 0 = clock w 1"
    "clock ?w 1 = clock w 2" "db_clock ?w 0 = db_clock w 1"
    by (simp_all add: later_def)
  obtain s' where s': "apply_recommendation c client w p s = (Inr (), s')"
    "committed s' = held_cancelled_db c ?w ?x ''monolith_error: '' ?db1"
    using apply_recommendation_cancelled [OF obj ok r st reason _ recommended_db_ok [OF ok reason] row fails, where c = c]
      quiet_id [OF q] ev by (auto simp: commits_def recommended_db_def)
  have final: "select_by t_id ?i (tickets (committed s')) = [?f ?x]"
    using select_rewritten [OF row, of ?f] i by (simp add: s' held_cancelled_db_def)
  show ?thesis
    by (rule exI [of _ s'], rule exI [of _ "?f ?x"])
      (use s' final i in \<open>simp_all add: write_back_columns cancelled_ticket_def w
        held_cancelled_db_def recommended_db_def insert_row_def held_ticket_def recommended_ticket_def\<close>)
qed

theorem apply_recommendation_monolith_failure_witness:
  "\<exists>s' r'. apply_recommendation ref_codec sample_client (sample_ambient 0 id) sample_recommendation
      (session_on (sample_db SENT_TO_PROVIDER)) = (Inr (), s') \<and>
    select_by t_id 7 (tickets (committed s')) = [r'] \<and> t_status r' = CANCELLATION_REQUESTED"
  using apply_recommendation_monolith_failure [of "session_on (sample_db SENT_TO_PROVIDER)"
      "sample_ambient 0 id" sample_recommendation "sample_ticket SENT_TO_PROVIDER" sample_client ref_codec]
  by (auto simp: varchar_fits_def)

text \<open>
  A recommendation for an unknown ticket, or for one that is already final, changes no
  table, counts nothing and raises nothing.
\<close>

theorem apply_recommendation_ignored:
  assumes obj: "objs s = Map.empty"
    and row: "case select_by t_id (rp_ticket_id p) (tickets (view s)) of
                [] \<Rightarrow> True | [r] \<Rightarrow> terminal (t_status r) | _ \<Rightarrow> False"
  shows "\<exists>os. apply_recommendation c client w p s = (Inr (), s\<lparr>objs := os\<rparr>)"
proof (cases "select_by t_id (rp_ticket_id p) (tickets (view s))")
  case Nil
  then have "apply_recommendation c client w p s = (Inr (), s)"
    using get_missing [of "rp_ticket_id p" s] by (simp add: apply_recommendation_def py_bind_def py_return_def)
  then show ?thesis by (intro exI [of _ "objs s"]) simp
next
  case (Cons r rs)
  with row have one: "select_by t_id (rp_ticket_id p) (tickets (view s)) = [r]" and "terminal (t_status r)"
    by (cases rs; simp)+
  then show ?thesis
    using get_fresh [of "rp_ticket_id p" s r] obj select_member [OF one]
    by (auto simp: apply_recommendation_def py_bind_def py_return_def)
qed

theorem apply_recommendation_ignored_witness:
  "\<exists>os. apply_recommendation ref_codec sample_client (sample_ambient 0 id) sample_recommendation
      (session_on (sample_db CANCELLED)) = (Inr (), session_on (sample_db CANCELLED)\<lparr>objs := os\<rparr>)"
  by (rule apply_recommendation_ignored) simp_all

text \<open>
  C26: the check for a final status after the monolith's answer never fires for a ticket
  that is still there. The select returns the object the session already holds, with the
  status this very call gave it, not the row's: whatever another process has made of the
  ticket in between (cancelled it, say), the ticket is overwritten with \<open>SETTLED\<close> and the
  provider is sent an acknowledgement.
\<close>

theorem apply_recommendation_overwrites_concurrent_status:
  assumes obj: "objs s = Map.empty" and ok: "db_ok (view s)"
    and r: "select_by t_id (rp_ticket_id p) (tickets (view s)) = [r]"
    and st: "\<not> terminal (t_status r)" and reason: "varchar_fits 512 (rp_reason p)"
    and answers: "\<not> rolls w 0 < error_rate client"
    and db1: "db1 = others w 0 (recommended_db w (rp_ticket_id p) p (view s))"
    and ok1: "db_ok db1" and r1: "select_by t_id (rp_ticket_id p) (tickets db1) = [r1]"
    and ev: "uuid4 w 1 \<notin> event_ids db1"
  shows "\<exists>s' r'. apply_recommendation c client w p s = (Inr (), s') \<and>
    select_by t_id (rp_ticket_id p) (tickets (committed s')) = [r'] \<and> t_status r' = SETTLED \<and>
    t_cancelled_at r' = t_cancelled_at r1 \<and>
    outbox_events (committed s') = outbox_events db1 @
      [outbound_event c (uuid4 w 1) (db_clock w 1) (rp_ticket_id p) (ack_message c w (rp_ticket_id p) (rp_action p))]"
proof -
  let ?i = "rp_ticket_id p" and ?x = "held_ticket w p r"
  let ?f = "write_back (db_clock w 1) ?x (settled_ticket w ?x)"
  have i: "t_id r = ?i" using r by (rule select_member)
  have ns: "t_status ?x \<noteq> SETTLED" by (simp add: recommendation_target_def)
  obtain s' where s': "apply_recommendation c client w p s = (Inr (), s')"
    "committed s' = settled_db c w ?x (rp_action p) db1"
    using apply_recommendation_settled [OF obj ok r st reason db1 ok1 r1 answers ev, of c]
    by (auto simp: commits_def)
  have final: "select_by t_id ?i (tickets (committed s')) = [?f r1]"
    using select_rewritten [OF r1, of ?f] i by (simp add: s' settled_db_def)
  have cols: "t_status (settled_ticket w ?x) = SETTLED" "t_cancelled_at (settled_ticket w ?x) = t_cancelled_at ?x"
    by (simp_all add: settled_ticket_def)
  have "t_status (?f r1) = SETTLED" "t_cancelled_at (?f r1) = t_cancelled_at r1"
    unfolding write_back_columns changed_def cols using ns by simp_all
  with s' final i show ?thesis
    by (intro exI [of _ s'] exI [of _ "?f r1"]) (simp add: settled_db_def insert_row_def)
qed

theorem apply_recommendation_overwrites_concurrent_status_witness:
  "\<exists>s' r'. apply_recommendation ref_codec sample_client (sample_ambient (1/2) (\<lambda>_. sample_db CANCELLED))
      sample_recommendation (session_on (sample_db SENT_TO_PROVIDER)) = (Inr (), s') \<and>
    select_by t_id 7 (tickets (committed s')) = [r'] \<and> t_status r' = SETTLED"
  using apply_recommendation_overwrites_concurrent_status [of "session_on (sample_db SENT_TO_PROVIDER)"
      sample_recommendation "sample_ticket SENT_TO_PROVIDER" "sample_ambient (1/2) (\<lambda>_. sample_db CANCELLED)"
      sample_client "sample_db CANCELLED" "sample_ticket CANCELLED" ref_codec]
  by (auto simp: varchar_fits_def)

text \<open>
  A reason longer than the 512 characters of its column makes the first transaction
  raise \<^verbatim>\<open>DataError\<close>: nothing is committed and the monolith is not called.
\<close>

theorem apply_recommendation_reason_too_long:
  assumes obj: "objs s = Map.empty" and ok: "db_ok (view s)"
    and r: "select_by t_id (rp_ticket_id p) (tickets (view s)) = [r]"
    and st: "\<not> terminal (t_status r)" and long: "rp_reason p = Some txt" "512 < length txt"
  shows "\<exists>s'. apply_recommendation c client w p s = (Inl DataError, s') \<and> committed s' = committed s"
proof -
  let ?i = "rp_ticket_id p"
  let ?s = "s\<lparr>objs := [?i \<mapsto> (r, r)]\<rparr>"
  have i: "t_id r = ?i" using r by (rule select_member)
  have g: "get_by_id_for_update ?i s = (Inr (Some r), ?s)"
    using get_fresh [of ?i s r] r obj i by simp
  obtain s' where "record_recommendation w ?i p ?s = (Inl DataError, s')" "committed s' = committed s"
    using record_recommendation_too_long [of ?s ?i r p w] ok r long by (auto simp: varchar_fits_def)
  then show ?thesis using st i by (simp add: apply_recommendation_def py_bind_def g)
qed

theorem apply_recommendation_reason_too_long_witness:
  "\<exists>s'. apply_recommendation ref_codec sample_client (sample_ambient 0 id)
      (sample_recommendation\<lparr>rp_reason := Some (replicate 513 (CHR ''x''))\<rparr>) (session_on (sample_db NEW)) =
    (Inl DataError, s') \<and> committed s' = sample_db NEW"
  using apply_recommendation_reason_too_long [of "session_on (sample_db NEW)"
      "sample_recommendation\<lparr>rp_reason := Some (replicate 513 (CHR ''x''))\<rparr>" "sample_ticket NEW"
      "replicate 513 (CHR ''x'')" ref_codec sample_client "sample_ambient 0 id"]
  by simp

section \<open>Cancellation\<close>

text \<open>
  A cancellation request is carried out for every ticket that exists, in whatever
  status it is (a \<open>CONFIRMED\<close> or \<open>CANCELLED\<close> one too: the method has no check for a final
  status), and whether or not the monolith's call fails: the status becomes
  \<open>CANCELLATION_REQUESTED\<close>, the reason is kept to 1024 characters in the row and whole in the
  message, and the outbox gains the request to the provider.
\<close>

theorem request_cancellation_any_status:
  assumes obj: "objs s = Map.empty" and ok: "db_ok (view s)"
    and r: "select_by t_id i (tickets (view s)) = [r]"
    and ev: "uuid4 w 1 \<notin> event_ids (view s)"
  shows "\<exists>s' r'. request_cancellation c client w i reason s = (Inr (), s') \<and>
    select_by t_id i (tickets (committed s')) = [r'] \<and> t_status r' = CANCELLATION_REQUESTED \<and>
    t_failure_reason r' = Some (take 1024 reason) \<and> t_cancelled_at r' = Some (clock w 0) \<and>
    outbox_events (committed s') = outbox_events (view s) @
      [outbound_event c (uuid4 w 1) (db_clock w 0) i
         (message_build c (RequestCancellationPayload \<lparr>rc_ticket_id = i, rc_reason = reason\<rparr>)
            REQUEST_CANCELLATION None (Some i) (uuid4 w 0) (clock w 1))] \<and>
    counters s' = counted (t_status r) CANCELLATION_REQUESTED (counters s)"
proof -
  obtain s' where s': "request_cancellation c client w i reason s = (Inr (), s')"
    "committed s' = cancelled_db c w i reason (view s)"
    "counters s' = counted (t_status r) CANCELLATION_REQUESTED (counters s)"
    using request_cancellation_effect [OF obj ok r ev, of c client reason] by (auto simp: commits_def)
  let ?f = "\<lambda>q. stamped (db_clock w 0) q (cancelled_ticket w reason q)"
  have "select_by t_id i (tickets (committed s')) = [?f r]"
    using select_rewritten [OF r, of ?f] by (simp add: s' cancelled_db_def)
  with s' show ?thesis
    by (intro exI [of _ s'] exI [of _ "?f r"])
      (simp add: cancelled_db_def insert_row_def cancelled_ticket_def build_cancellation_message_def)
qed

theorem request_cancellation_any_status_witness:
  "\<exists>s' r'. request_cancellation ref_codec sample_client (sample_ambient 0 id) 7 ''late''
      (session_on (sample_db CONFIRMED)) = (Inr (), s') \<and>
    select_by t_id 7 (tickets (committed s')) = [r'] \<and> t_status r' = CANCELLATION_REQUESTED"
  using request_cancellation_any_status [of "session_on (sample_db CONFIRMED)" 7 "sample_ticket CONFIRMED"
      "sample_ambient 0 id" ref_codec sample_client "''late''"]
  by auto

text \<open>
  The provider's confirmation of a cancellation makes the ticket \<open>CANCELLED\<close> from
  every other status, keeps the time of the request where there is one, and touches
  nothing else; confirming again changes nothing.
\<close>

theorem mark_cancellation_applied_once:
  assumes obj: "objs s = Map.empty" and ok: "db_ok (view s)"
    and r: "select_by t_id i (tickets (view s)) = [r]" and st: "t_status r \<noteq> CANCELLED"
  shows "\<exists>s' r' os. mark_cancellation_applied w i s = (Inr (), s') \<and>
    select_by t_id i (tickets (committed s')) = [r'] \<and> t_status r' = CANCELLED \<and>
    t_cancelled_at r' = (case t_cancelled_at r of Some x \<Rightarrow> Some x | None \<Rightarrow> Some (clock w 0)) \<and>
    t_confirmed_at r' = t_confirmed_at r \<and> t_settled_at r' = t_settled_at r \<and>
    outbox_events (committed s') = outbox_events (view s) \<and>
    processed (committed s') = processed (view s) \<and>
    mark_cancellation_applied w' i (open_session s') = (Inr (), (open_session s')\<lparr>objs := os\<rparr>)"
proof -
  obtain s' where s': "mark_cancellation_applied w i s = (Inr (), s')"
    "committed s' = cancel_applied_db w i (view s)"
    using mark_cancellation_applied_effect [OF obj ok r st, of w] by (auto simp: commits_def)
  let ?f = "\<lambda>q. stamped (db_clock w 0) q (cancel_applied_ticket w q)"
  have row: "select_by t_id i (tickets (committed s')) = [?f r]"
    using select_rewritten [OF r, of ?f] by (simp add: s' cancel_applied_db_def)
  obtain os where "mark_cancellation_applied w' i (open_session s') = (Inr (), (open_session s')\<lparr>objs := os\<rparr>)"
    using mark_cancellation_applied_done [of "open_session s'" i "?f r" w'] row
    by (auto simp: open_session_def cancel_applied_ticket_def)
  with s' row show ?thesis
    by (intro exI [of _ s'] exI [of _ "?f r"] exI [of _ os])
      (simp add: cancel_applied_db_def, simp add: cancel_applied_ticket_def)
qed

theorem mark_cancellation_applied_once_witness:
  "\<exists>s' r'. mark_cancellation_applied (sample_ambient 0 id) 7 (session_on (sample_db CANCELLATION_REQUESTED)) =
      (Inr (), s') \<and>
    select_by t_id 7 (tickets (committed s')) = [r'] \<and> t_status r' = CANCELLED"
  using mark_cancellation_applied_once [of "session_on (sample_db CANCELLATION_REQUESTED)" 7
      "sample_ticket CANCELLATION_REQUESTED" "sample_ambient 0 id" "sample_ambient 0 id"]
  by auto

text \<open>
  \<^verbatim>\<open>mark_provider_ack_delivered\<close> finishes a ticket that is not final as \<open>CONFIRMED\<close> or
  \<open>DECLINED\<close> by the action acknowledged, sets its time, and sends nothing.
\<close>

theorem mark_provider_ack_delivered_finishes:
  assumes obj: "objs s = Map.empty" and ok: "db_ok (view s)"
    and r: "select_by t_id i (tickets (view s)) = [r]" and st: "\<not> terminal (t_status r)"
  shows "\<exists>s' r'. mark_provider_ack_delivered w i a s = (Inr (), s') \<and>
    select_by t_id i (tickets (committed s')) = [r'] \<and>
    t_status r' = (if a = ACCEPT then CONFIRMED else DECLINED) \<and> terminal (t_status r') \<and>
    t_confirmed_at r' = Some (clock w 0) \<and> outbox_events (committed s') = outbox_events (view s)"
proof -
  obtain s' where s': "mark_provider_ack_delivered w i a s = (Inr (), s')"
    "committed s' = ack_delivered_db w i a (view s)"
    using mark_provider_ack_delivered_effect [OF obj ok r st, of w a] by (auto simp: commits_def)
  let ?f = "\<lambda>q. stamped (db_clock w 0) q (ack_delivered_ticket w a q)"
  have row: "select_by t_id i (tickets (committed s')) = [?f r]"
    using select_rewritten [OF r, of ?f] by (simp add: s' ack_delivered_db_def)
  with s' show ?thesis
    by (intro exI [of _ s'] exI [of _ "?f r"])
      (simp add: ack_delivered_db_def, simp add: ack_delivered_ticket_def)
qed

theorem mark_provider_ack_delivered_finishes_witness:
  "\<exists>s' r'. mark_provider_ack_delivered (sample_ambient 0 id) 7 DECLINE (session_on (sample_db SETTLED)) =
      (Inr (), s') \<and> select_by t_id 7 (tickets (committed s')) = [r'] \<and> t_status r' = DECLINED"
  using mark_provider_ack_delivered_finishes [of "session_on (sample_db SETTLED)" 7 "sample_ticket SETTLED"
      "sample_ambient 0 id" DECLINE]
  by auto

end
