(* ===== verification/Outbox_Service.thy ===== *)
theory Outbox_Service
  imports Samples
begin

text \<open>
  The outbox producer: \<^verbatim>\<open>backend/services/outbox.py\<close> and the loop of
  \<^verbatim>\<open>backend/workers/outbox_producer/worker.py\<close>. One batch reads the oldest pending entries,
  gives each to the broker, and marks what became of it, in one transaction.

  The broker is a third party: \<open>publish\<close> says for each frame whether \<^verbatim>\<open>broker.publish\<close>
  returns or raises, and then the text of the exception. The rows of the batch stay locked
  while the frames are sent; what other processes commit meanwhile is the function \<open>env\<close>.
\<close>

section \<open>The batch\<close>

definition event_frame :: "outbox_event \<Rightarrow> frame" where
  "event_frame e =
     \<lparr>f_body = e_payload e, f_exchange = top_tickets_exchange TOPOLOGY,
      f_routing_key = e_routing_key e,
      f_headers = [(''event_id'', uuid_str (e_id e)), (''event_type'', e_event_type e)],
      f_message_id = uuid_str (e_id e)\<rparr>"

definition broker_publish :: "(frame \<Rightarrow> string + unit) \<Rightarrow> frame \<Rightarrow> unit op" where
  "broker_publish publish f = (\<lambda>s.
     case publish f of
       Inl text \<Rightarrow> (Inl (OtherError text), s)
     | Inr _ \<Rightarrow> (Inr (), s\<lparr>published := published s @ [f]\<rparr>))"

fun exn_text :: "exn \<Rightarrow> string" where
  "exn_text (OtherError text) = text"
| "exn_text (ConnectionError text) = text"
| "exn_text _ = ''''"

text \<open>The loop over the batch collects the identifiers sent and the failures with their text.\<close>

fun publish_events ::
  "(frame \<Rightarrow> string + unit) \<Rightarrow> outbox_event list \<Rightarrow> (uuid list \<times> (uuid \<times> string) list) op" where
  "publish_events publish [] = py_return ([], [])"
| "publish_events publish (e # es) =
     py_try (broker_publish publish (event_frame e))
       (\<lambda>x. py_bind (publish_events publish es) (\<lambda>(ids, failed).
              py_return (ids, (e_id e, exn_text x) # failed)))
       (\<lambda>_. py_bind (publish_events publish es) (\<lambda>(ids, failed).
              py_return (e_id e # ids, failed)))"

fun mark_failures :: "instant \<Rightarrow> (uuid \<times> string) list \<Rightarrow> unit op" where
  "mark_failures db_now [] = py_return ()"
| "mark_failures db_now ((i, text) # failed) =
     py_bind (mark_failed default_max_attempts db_now i text) (\<lambda>_. mark_failures db_now failed)"

definition deliver ::
  "(frame \<Rightarrow> string + unit) \<Rightarrow> (database \<Rightarrow> database) \<Rightarrow> instant \<Rightarrow> instant \<Rightarrow> outbox_event list \<Rightarrow> nat op" where
  "deliver publish env now db_now events =
     py_bind (publish_events publish events) (\<lambda>(published_ids, failed).
     py_bind (interfere env) (\<lambda>_.
     py_bind (mark_published_many now db_now published_ids) (\<lambda>_.
     py_bind (mark_failures db_now failed) (\<lambda>_.
     py_bind (commit db_now) (\<lambda>_.
     py_return (length published_ids))))))"

definition send_batch ::
  "nat \<Rightarrow> (uuid \<Rightarrow> bool) \<Rightarrow> (frame \<Rightarrow> string + unit) \<Rightarrow> (database \<Rightarrow> database) \<Rightarrow> instant \<Rightarrow> instant \<Rightarrow> nat op" where
  "send_batch batch_size locked publish env now db_now = session_scope (
     py_bind (fetch_pending batch_size locked) (\<lambda>pending.
     if pending = [] then py_return 0 else deliver publish env now db_now pending))"

text \<open>
  \<^verbatim>\<open>OutboxProducerWorker._loop\<close>, cut after some rounds: an exception of one batch is logged,
  and the loop sleeps before the next round. Each round has its own arguments, among them
  what the other processes commit during the batch and during the sleep.
\<close>

record outbox_round =
  or_locked :: "uuid \<Rightarrow> bool"
  or_publish :: "frame \<Rightarrow> string + unit"
  or_env :: "database \<Rightarrow> database"
  or_now :: instant
  or_db_now :: instant
  or_asleep :: "database \<Rightarrow> database"

definition producer_round :: "nat \<Rightarrow> outbox_round \<Rightarrow> unit op" where
  "producer_round batch_size r =
     py_bind
       (py_try (send_batch batch_size (or_locked r) (or_publish r) (or_env r) (or_now r) (or_db_now r))
         (\<lambda>e. py_return ()) (\<lambda>n. py_return ()))
       (\<lambda>_. interfere (or_asleep r))"

fun producer_loop :: "nat \<Rightarrow> outbox_round list \<Rightarrow> unit op" where
  "producer_loop batch_size [] = py_return ()"
| "producer_loop batch_size (r # rs) =
     py_bind (producer_round batch_size r) (\<lambda>_. producer_loop batch_size rs)"

section \<open>What a batch does to the table\<close>

abbreviation accepted :: "(frame \<Rightarrow> string + unit) \<Rightarrow> outbox_event \<Rightarrow> bool" where
  "accepted publish e \<equiv> publish (event_frame e) = Inr ()"

definition refusal :: "(frame \<Rightarrow> string + unit) \<Rightarrow> outbox_event \<Rightarrow> string" where
  "refusal publish e = (case publish (event_frame e) of Inl text \<Rightarrow> text | Inr _ \<Rightarrow> '''')"

definition batch_of :: "nat \<Rightarrow> (uuid \<Rightarrow> bool) \<Rightarrow> database \<Rightarrow> outbox_event list" where
  "batch_of n locked db = select_ordered (pending locked) e_created_at n (outbox_events db)"

text \<open>The row of an entry after the batch.\<close>

definition sent_row :: "(frame \<Rightarrow> string + unit) \<Rightarrow> instant \<Rightarrow> instant \<Rightarrow> outbox_event \<Rightarrow> outbox_event" where
  "sent_row publish now db_now e =
     (if accepted publish e then mark_published_row now db_now e
      else mark_failed_row default_max_attempts db_now (refusal publish e) e)"

lemma publish_events_eq:
  "publish_events publish es s =
    (Inr (map e_id (filter (accepted publish) es),
          map (\<lambda>e. (e_id e, refusal publish e)) (filter (\<lambda>e. \<not> accepted publish e) es)),
     s\<lparr>published := published s @ map event_frame (filter (accepted publish) es)\<rparr>)"
proof (induction es arbitrary: s)
  case Nil
  then show ?case by (simp add: py_return_def)
next
  case (Cons e es)
  show ?case
    by (cases "publish (event_frame e)")
      (simp_all add: py_try_def py_bind_def py_return_def broker_publish_def Cons refusal_def)
qed

lemma update_outbox_view:
  "update_outbox P f s =
    (Inr (), s\<lparr>view := (view s)\<lparr>outbox_events := update_where P f (outbox_events (view s))\<rparr>\<rparr>)"
  by (simp add: update_outbox_def py_modify_def)

text \<open>Several single-row updates with distinct keys are one pass over the table.\<close>

definition failed_row :: "instant \<Rightarrow> (uuid \<times> string) list \<Rightarrow> outbox_event \<Rightarrow> outbox_event" where
  "failed_row db_now failed e =
     (case map_of failed (e_id e) of None \<Rightarrow> e | Some text \<Rightarrow> mark_failed_row default_max_attempts db_now text e)"

lemma mark_failures_eq:
  assumes "distinct (map fst failed)"
  shows "mark_failures db_now failed s =
    (Inr (), s\<lparr>view := (view s)\<lparr>outbox_events := map (failed_row db_now failed) (outbox_events (view s))\<rparr>\<rparr>)"
  using assms
proof (induction failed arbitrary: s)
  case Nil
  have "map (failed_row db_now []) rows = rows" for rows by (simp add: failed_row_def map_idI)
  then show ?case by (simp add: py_return_def)
next
  case (Cons f failed)
  obtain i msg where f: "f = (i, msg)" by fastforce
  have "map_of failed i = None" using Cons.prems by (auto simp: f map_of_eq_None_iff)
  then have row: "failed_row db_now failed (if e_id e = i then mark_failed_row default_max_attempts db_now msg e else e)
      = failed_row db_now (f # failed) e" for e
    by (auto simp: failed_row_def f)
  have "map (failed_row db_now failed) (update_where (\<lambda>e. e_id e = i)
      (mark_failed_row default_max_attempts db_now msg) rows) = map (failed_row db_now (f # failed)) rows" for rows
    using row by (simp add: update_where_def)
  with Cons show ?case
    by (simp add: f py_bind_def mark_failed_def update_outbox_view)
qed


text \<open>
  While the batch is sent its rows are locked: whatever the others commit, they are the
  same rows afterwards, and no identifier is duplicated.
\<close>

definition respects_locks :: "uuid set \<Rightarrow> (database \<Rightarrow> database) \<Rightarrow> database \<Rightarrow> bool" where
  "respects_locks ids env db \<longleftrightarrow>
     unique_by e_id (outbox_events (env db)) \<and>
     (\<forall>i \<in> ids. select_by e_id i (outbox_events (env db)) = select_by e_id i (outbox_events db))"

lemma respects_locks_id [simp]: "respects_locks ids id db \<longleftrightarrow> unique_by e_id (outbox_events db)"
  by (simp add: respects_locks_def)

definition sent_db ::
  "(frame \<Rightarrow> string + unit) \<Rightarrow> instant \<Rightarrow> instant \<Rightarrow> outbox_event list \<Rightarrow> database \<Rightarrow> database" where
  "sent_db publish now db_now batch db =
     db\<lparr>outbox_events :=
       update_where (\<lambda>e. e_id e \<in> e_id ` set batch) (sent_row publish now db_now) (outbox_events db)\<rparr>"

lemma batch_of_set: "set (batch_of n locked db) \<subseteq> {e \<in> set (outbox_events db). pending locked e}"
  unfolding batch_of_def by (rule set_select_ordered)

lemma batch_of_distinct:
  "unique_by e_id (outbox_events db) \<Longrightarrow> distinct (map e_id (batch_of n locked db))"
  unfolding batch_of_def unique_by_def by (rule distinct_take_sort)

lemma same_row:
  assumes "unique_by key rows" and "x \<in> set rows" and "y \<in> set rows" and "key x = key y"
  shows "x = y"
  using assms by (auto simp: unique_by_def distinct_map dest: inj_onD)

text \<open>A locked row after the others' commits is the row that was read.\<close>

lemma locked_row:
  assumes "respects_locks ids env db" and "unique_by e_id (outbox_events db)"
    and "b \<in> set (outbox_events db)" and "e \<in> set (outbox_events (env db))"
    and "e_id e = e_id b" and "e_id b \<in> ids"
  shows "e = b"
proof -
  have "select_by e_id (e_id b) (outbox_events (env db)) = [b]"
    using assms select_by_unique [of e_id "outbox_events db" b] by (simp add: respects_locks_def)
  moreover have "e \<in> set (select_by e_id (e_id b) (outbox_events (env db)))"
    using assms(4,5) by (simp add: select_by_def)
  ultimately show ?thesis by simp
qed

lemma marked_rows:
  assumes uniq: "unique_by e_id (outbox_events db)" and locks: "respects_locks (e_id ` set batch) env db"
    and sub: "set batch \<subseteq> set (outbox_events db)" and dist: "distinct (map e_id batch)"
    and e: "e \<in> set (outbox_events (env db))"
    and ok: "oks = filter (accepted publish) batch" and bad: "bads = filter (\<lambda>e. \<not> accepted publish e) batch"
  shows "failed_row db_now (map (\<lambda>e. (e_id e, refusal publish e)) bads)
      (if e_id e \<in> set (map e_id oks) then mark_published_row now db_now e else e) =
    (if e_id e \<in> e_id ` set batch then sent_row publish now db_now e else e)"
proof (cases "e_id e \<in> e_id ` set batch")
  case False
  then have "map_of (map (\<lambda>e. (e_id e, refusal publish e)) bads) (e_id e) = None"
    by (auto simp: map_of_eq_None_iff bad)
  with False show ?thesis by (auto simp: failed_row_def ok)
next
  case True
  then obtain b where b: "b \<in> set batch" "e_id e = e_id b" by auto
  with sub locked_row [OF locks uniq _ e] have "e = b" by auto
  with b have mem: "e \<in> set batch" by simp
  have only: "x = e" if "x \<in> set batch" "e_id x = e_id e" for x
    using that mem dist by (auto simp: distinct_map dest: inj_onD)
  show ?thesis
  proof (cases "accepted publish e")
    case acc: True
    then have "map_of (map (\<lambda>e. (e_id e, refusal publish e)) bads) (e_id e) = None"
      using only by (auto simp: map_of_eq_None_iff bad)
    with True acc mem show ?thesis by (simp add: failed_row_def ok sent_row_def)
  next
    case rej: False
    have "distinct (map e_id bads)" unfolding bad by (rule distinct_map_filter [OF dist])
    then have "distinct (map fst (map (\<lambda>e. (e_id e, refusal publish e)) bads))" by (simp add: comp_def)
    moreover have "(e_id e, refusal publish e) \<in> set (map (\<lambda>e. (e_id e, refusal publish e)) bads)"
      using mem rej by (auto simp: bad)
    ultimately have "map_of (map (\<lambda>e. (e_id e, refusal publish e)) bads) (e_id e) = Some (refusal publish e)"
      by (rule map_of_is_SomeI)
    moreover have "e_id e \<notin> set (map e_id oks)" using only rej by (auto simp: ok)
    ultimately show ?thesis using True rej by (simp add: failed_row_def sent_row_def)
  qed
qed

lemma send_batch_empty:
  assumes "batch_of n locked (committed s) = []"
  shows "send_batch n locked publish env now db_now s = (Inr 0, open_session s)"
  using assms
  by (simp add: send_batch_def session_scope_def fetch_pending_def batch_of_def open_session_def
      py_try_def py_bind_def py_return_def py_modify_def)

lemma deliver_effect:
  assumes uniq: "unique_by e_id (outbox_events db0)"
    and dist: "distinct (map e_id batch)" and sub: "set batch \<subseteq> set (outbox_events db0)"
    and locks: "respects_locks (e_id ` set batch) env db0"
    and db: "db = sent_db publish now db_now batch (env db0)"
  shows "deliver publish env now db_now batch
      \<lparr>committed = db0, view = db0, objs = Map.empty, counters = cs, published = ps\<rparr> =
    (Inr (length (filter (accepted publish) batch)),
     \<lparr>committed = db, view = db, objs = Map.empty, counters = cs,
      published = ps @ map event_frame (filter (accepted publish) batch)\<rparr>)"
proof -
  let ?oks = "filter (accepted publish) batch" and ?bads = "filter (\<lambda>e. \<not> accepted publish e) batch"
  let ?ps = "ps @ map event_frame ?oks"
  let ?rows = "update_where (\<lambda>e. e_id e \<in> set (map e_id ?oks)) (mark_published_row now db_now)
      (outbox_events (env db0))"
  let ?st = "\<lambda>v. \<lparr>committed = env db0, view = v, objs = Map.empty, counters = cs, published = ?ps\<rparr>"
  have "distinct (map e_id ?bads)" using dist by (rule distinct_map_filter)
  then have fails: "mark_failures db_now (map (\<lambda>e. (e_id e, refusal publish e)) ?bads) x =
    (Inr (), x\<lparr>view := (view x)\<lparr>outbox_events := map (failed_row db_now
        (map (\<lambda>e. (e_id e, refusal publish e)) ?bads)) (outbox_events (view x))\<rparr>\<rparr>)" for x
    by (intro mark_failures_eq) (simp add: comp_def)
  have rows: "map (failed_row db_now (map (\<lambda>e. (e_id e, refusal publish e)) ?bads)) ?rows = outbox_events db"
    unfolding update_where_def map_map db sent_db_def
    using marked_rows [OF uniq locks sub dist _ refl refl, of _ db_now publish now]
    by (simp add: update_where_def)
  have none: "update_where (\<lambda>e. False) f r = r" for f and r :: "outbox_event list"
    by (simp add: update_where_def map_idI)
  have marks: "py_bind (mark_published_many now db_now (map e_id ?oks)) f (?st (env db0)) =
      f () (?st ((env db0)\<lparr>outbox_events := ?rows\<rparr>))" for f :: "_ \<Rightarrow> nat op"
    by (cases "?oks = []") (simp_all add: py_bind_def mark_published_many_def py_return_def update_outbox_view none)
  have db': "(env db0)\<lparr>outbox_events := outbox_events db\<rparr> = db" by (simp add: db sent_db_def)
  have send: "py_bind (publish_events publish batch) f
      \<lparr>committed = db0, view = db0, objs = Map.empty, counters = cs, published = ps\<rparr> =
    f (map e_id ?oks, map (\<lambda>e. (e_id e, refusal publish e)) ?bads)
      \<lparr>committed = db0, view = db0, objs = Map.empty, counters = cs, published = ?ps\<rparr>"
    for f :: "_ \<Rightarrow> nat op"
    by (simp add: py_bind_def publish_events_eq)
  have wait: "py_bind (interfere env) f
      \<lparr>committed = db0, view = db0, objs = Map.empty, counters = cs, published = ?ps\<rparr> = f () (?st (env db0))"
    for f :: "_ \<Rightarrow> nat op"
    by (simp add: py_bind_def interfere_def py_modify_def)
  have last: "py_bind (mark_failures db_now (map (\<lambda>e. (e_id e, refusal publish e)) ?bads)) f
      (?st ((env db0)\<lparr>outbox_events := ?rows\<rparr>)) = f () (?st db)" for f :: "_ \<Rightarrow> nat op"
    using rows db' by (simp add: py_bind_def fails)
  show ?thesis
    unfolding deliver_def send split wait
    by (subst marks, subst last)
      (simp add: py_bind_def commit_def flush_all_clean py_modify_def py_return_def session_options_def)
qed

lemma send_batch_effect:
  assumes uniq: "unique_by e_id (outbox_events (committed s))"
    and batch: "batch = batch_of n locked (committed s)" and some: "batch \<noteq> []"
    and locks: "respects_locks (e_id ` set batch) env (committed s)"
    and db: "db = sent_db publish now db_now batch (env (committed s))"
  shows "send_batch n locked publish env now db_now s =
    (Inr (length (filter (accepted publish) batch)),
     \<lparr>committed = db, view = db, objs = Map.empty, counters = counters s,
      published = published s @ map event_frame (filter (accepted publish) batch)\<rparr>)"
proof -
  have dist: "distinct (map e_id batch)" unfolding batch by (rule batch_of_distinct [OF uniq])
  have sub: "set batch \<subseteq> set (outbox_events (committed s))"
    using batch_of_set [of n locked "committed s"] batch by blast
  have opened: "open_session s = \<lparr>committed = committed s, view = committed s, objs = Map.empty,
      counters = counters s, published = published s\<rparr>" (is "_ = ?s0")
    by (cases s) (simp add: open_session_def)
  have "py_bind (fetch_pending n locked) (\<lambda>pending. if pending = [] then py_return 0
      else deliver publish env now db_now pending) ?s0 = deliver publish env now db_now batch ?s0"
    by (simp add: py_bind_def fetch_pending_def batch [unfolded batch_of_def, symmetric] some)
  then show ?thesis
    unfolding send_batch_def session_scope_def opened
    by (simp add: py_try_def deliver_effect [OF uniq dist sub locks db] py_bind_def py_modify_def
        py_return_def open_session_def)
qed

end
