(* ===== verification/Outbox_Properties.thy ===== *)
theory Outbox_Properties
  imports Outbox_Service
begin

text \<open>
  The promises of the outbox: what one batch does to every row, that an entry counts as
  published only when the broker took its frame, that a broker that answers drains the
  table in a known number of rounds, and that one that refuses is given up on after three
  attempts, for good.
\<close>

section \<open>Sample entries\<close>

definition sample_event :: "uuid \<Rightarrow> instant \<Rightarrow> outbox_event" where
  "sample_event i t =
     new_outbox_event i t 7 EVENT_TYPE_TICKET_OUTBOUND (top_provider_out_routing_key TOPOLOGY) []"

definition sample_outbox :: database where
  "sample_outbox = \<lparr>tickets = [], outbox_events = [sample_event 1 20, sample_event 2 10], processed = []\<rparr>"

lemma sample_event_simps [simp]:
  "e_id (sample_event i t) = i" "e_status (sample_event i t) = PENDING"
  "e_attempts (sample_event i t) = 0" "e_created_at (sample_event i t) = t"
  by (simp_all add: sample_event_def new_outbox_event_def)

lemma sample_outbox_simps [simp]:
  "outbox_events sample_outbox = [sample_event 1 20, sample_event 2 10]"
  "tickets sample_outbox = []" "processed sample_outbox = []"
  by (simp_all add: sample_outbox_def)

lemma sample_outbox_batch [simp]:
  "batch_of 1 (\<lambda>_. False) sample_outbox = [sample_event 2 10]"
  "batch_of 50 (\<lambda>_. False) sample_outbox = [sample_event 2 10, sample_event 1 20]"
  by (simp_all add: batch_of_def select_ordered_def pending_def One_nat_def)

lemma sample_outbox_unique [simp]: "unique_by e_id [sample_event 1 20, sample_event 2 10]"
  by (simp add: unique_by_def)

section \<open>One batch\<close>

lemma rows_of_batch:
  assumes "unique_by e_id (outbox_events db)" and "e \<in> set (outbox_events db)"
    and "respects_locks ids env db" and "e_id e \<in> ids"
  shows "select_by e_id (e_id e) (outbox_events (env db)) = [e]"
  using assms select_by_unique [of e_id "outbox_events db" e] by (simp add: respects_locks_def)

lemma sent_row_id [simp]: "e_id (sent_row publish now db_now e) = e_id e"
  by (simp add: sent_row_def)

text \<open>
  C20: one batch. Every entry the batch holds whose frame the broker took ends
  \<open>PUBLISHED\<close> with the time of publication and no error; every other entry of the batch
  has one attempt more and the text of its error, and is \<open>FAILED\<close> exactly when this was
  its third; every row outside the batch is as the other processes left it. The broker got
  the frames of the entries it took, in the batch's order, and their number is returned.
\<close>

theorem send_batch_outcome:
  assumes uniq: "unique_by e_id (outbox_events (committed s))"
    and batch: "batch = batch_of n locked (committed s)" and some: "batch \<noteq> []"
    and locks: "respects_locks (e_id ` set batch) env (committed s)"
  shows "\<exists>s'. send_batch n locked publish env now db_now s =
      (Inr (length (filter (accepted publish) batch)), s') \<and>
    published s' = published s @ map event_frame (filter (accepted publish) batch) \<and>
    (\<forall>e \<in> set batch. \<exists>r. select_by e_id (e_id e) (outbox_events (committed s')) = [r] \<and>
       (if accepted publish e
        then e_status r = PUBLISHED \<and> e_published_at r = Some now \<and> e_last_error r = None \<and>
             e_attempts r = e_attempts e
        else e_attempts r = e_attempts e + 1 \<and>
             e_last_error r = Some (take 2000 (refusal publish e)) \<and>
             e_published_at r = e_published_at e \<and>
             e_status r = (if e_attempts e + 1 \<ge> 3 then FAILED else PENDING))) \<and>
    (\<forall>i. i \<notin> e_id ` set batch \<longrightarrow>
       select_by e_id i (outbox_events (committed s')) =
       select_by e_id i (outbox_events (env (committed s)))) \<and>
    tickets (committed s') = tickets (env (committed s)) \<and>
    processed (committed s') = processed (env (committed s))"
proof -
  let ?db = "sent_db publish now db_now batch (env (committed s))"
  obtain s' where run: "send_batch n locked publish env now db_now s =
      (Inr (length (filter (accepted publish) batch)), s')"
    and s': "committed s' = ?db" "published s' = published s @ map event_frame (filter (accepted publish) batch)"
    using send_batch_effect [OF uniq batch some locks refl] by simp
  have sel: "select_by e_id i (outbox_events ?db) =
      update_where (\<lambda>e. e_id e \<in> e_id ` set batch) (sent_row publish now db_now)
        (select_by e_id i (outbox_events (env (committed s))))" for i
    by (simp add: sent_db_def table_simps)
  have row: "select_by e_id (e_id e) (outbox_events ?db) = [sent_row publish now db_now e] \<and> e_status e = PENDING"
    if e: "e \<in> set batch" for e
  proof -
    have mem: "e \<in> set (outbox_events (committed s))" and st: "e_status e = PENDING"
      using e batch_of_set [of n locked "committed s"] batch by (auto simp: pending_def)
    have "select_by e_id (e_id e) (outbox_events (env (committed s))) = [e]"
      using rows_of_batch [OF uniq mem locks] e by simp
    with e st show ?thesis by (simp add: sel)
  qed
  have other: "select_by e_id i (outbox_events ?db) = select_by e_id i (outbox_events (env (committed s)))"
    if "i \<notin> e_id ` set batch" for i
    unfolding sel by (rule update_where_id) (use that in \<open>auto simp: select_by_def\<close>)
  have written: "if accepted publish e
        then e_status (sent_row publish now db_now e) = PUBLISHED \<and>
             e_published_at (sent_row publish now db_now e) = Some now \<and>
             e_last_error (sent_row publish now db_now e) = None \<and>
             e_attempts (sent_row publish now db_now e) = e_attempts e
        else e_attempts (sent_row publish now db_now e) = e_attempts e + 1 \<and>
             e_last_error (sent_row publish now db_now e) = Some (take 2000 (refusal publish e)) \<and>
             e_published_at (sent_row publish now db_now e) = e_published_at e \<and>
             e_status (sent_row publish now db_now e) = (if e_attempts e + 1 \<ge> 3 then FAILED else e_status e)" for e
    by (simp add: sent_row_def mark_published_row_def mark_failed_row_def default_max_attempts_def Let_def)
  show ?thesis
  proof (intro exI [of _ s'] conjI ballI allI impI, rule run, rule s')
    fix e assume e: "e \<in> set batch"
    show "\<exists>r. select_by e_id (e_id e) (outbox_events (committed s')) = [r] \<and>
       (if accepted publish e
        then e_status r = PUBLISHED \<and> e_published_at r = Some now \<and> e_last_error r = None \<and>
             e_attempts r = e_attempts e
        else e_attempts r = e_attempts e + 1 \<and>
             e_last_error r = Some (take 2000 (refusal publish e)) \<and>
             e_published_at r = e_published_at e \<and>
             e_status r = (if e_attempts e + 1 \<ge> 3 then FAILED else PENDING))"
      using row [OF e] written [of e] s'(1) by (intro exI [of _ "sent_row publish now db_now e"]) simp
  next
    fix i assume "i \<notin> e_id ` set batch"
    then show "select_by e_id i (outbox_events (committed s')) =
        select_by e_id i (outbox_events (env (committed s)))"
      unfolding s' by (rule other)
  qed (simp_all add: s' sent_db_def)
qed

theorem send_batch_outcome_witness:
  "\<exists>s' r. send_batch 1 (\<lambda>_. False) (\<lambda>_. Inl ''down'') id 500 600 (session_on sample_outbox) = (Inr 0, s') \<and>
    select_by e_id 2 (outbox_events (committed s')) = [r] \<and> e_attempts r = 1 \<and>
    e_status r = PENDING \<and> e_last_error r = Some ''down''"
proof -
  have b: "[sample_event 2 10] = batch_of 1 (\<lambda>_. False) (committed (session_on sample_outbox))" by simp
  show ?thesis
    using send_batch_outcome [OF _ b, of id "\<lambda>_. Inl ''down''" 500 600]
    by (auto simp: refusal_def)
qed

text \<open>
  Which entries a batch takes. They are pending, not locked by another producer, at
  most \<open>limit\<close> and as many as there are up to that, in the order of their creation, and no
  older eligible entry is left out for a younger one. Reading them changes nothing.
\<close>

theorem fetch_pending_oldest:
  "\<exists>es. fetch_pending limit locked s = (Inr es, s) \<and>
    set es \<subseteq> {e \<in> set (outbox_events (view s)). e_status e = PENDING \<and> \<not> locked (e_id e)} \<and>
    length es = min limit (length (filter (pending locked) (outbox_events (view s)))) \<and>
    sorted (map e_created_at es) \<and>
    (\<forall>e \<in> set (outbox_events (view s)). \<forall>q \<in> set es.
       pending locked e \<longrightarrow> e \<notin> set es \<longrightarrow> e_created_at q \<le> e_created_at e)"
  unfolding fetch_pending_def
  using set_select_ordered [of "pending locked" e_created_at limit "outbox_events (view s)"]
    length_select_ordered [of "pending locked" e_created_at limit "outbox_events (view s)"]
    sorted_select_ordered [of e_created_at "pending locked" limit "outbox_events (view s)"]
    select_ordered_oldest [of _ "outbox_events (view s)" "pending locked" e_created_at limit]
  by (auto simp: pending_def [abs_def])

theorem fetch_pending_oldest_witness:
  "\<exists>es. fetch_pending 1 (\<lambda>_. False) (session_on sample_outbox) = (Inr es, session_on sample_outbox) \<and>
    length es = 1 \<and> e_id (hd es) = 2"
proof -
  have "select_ordered (pending (\<lambda>_. False)) e_created_at 1 (outbox_events sample_outbox) = [sample_event 2 10]"
    using sample_outbox_batch(1) by (simp add: batch_of_def)
  then show ?thesis
    using fetch_pending_oldest [of 1 "\<lambda>_. False" "session_on sample_outbox"]
    by (auto simp: fetch_pending_def One_nat_def)
qed


section \<open>Rounds\<close>

text \<open>
  The state of the outbox between batches: keys are unique, an entry that counts as
  published was given to the broker, and the number of attempts agrees with the status.
\<close>

definition outbox_ok :: "database \<Rightarrow> frame list \<Rightarrow> bool" where
  "outbox_ok db sent \<longleftrightarrow>
     unique_by e_id (outbox_events db) \<and>
     (\<forall>e \<in> set (outbox_events db).
        case e_status e of
          PENDING \<Rightarrow> e_attempts e < 3
        | PUBLISHED \<Rightarrow> e_attempts e < 3 \<and> event_frame e \<in> set sent
        | FAILED \<Rightarrow> e_attempts e = 3)"

lemma event_frame_sent_row [simp]: "event_frame (sent_row publish now db_now e) = event_frame e"
  by (simp add: sent_row_def mark_published_row_def mark_failed_row_def event_frame_def Let_def)

lemma outbox_ok_mono: "outbox_ok db sent \<Longrightarrow> set sent \<subseteq> set sent' \<Longrightarrow> outbox_ok db sent'"
  by (fastforce simp: outbox_ok_def split: outbox_status.splits)

lemma outbox_ok_sent:
  assumes ok: "outbox_ok (env db) sent" and uniq: "unique_by e_id (outbox_events db)"
    and locks: "respects_locks (e_id ` set batch) env db"
    and sub: "\<And>e. e \<in> set batch \<Longrightarrow> e \<in> set (outbox_events db) \<and> e_status e = PENDING"
  shows "outbox_ok (sent_db publish now db_now batch (env db))
           (sent @ map event_frame (filter (accepted publish) batch))"
proof -
  have row: "case e_status (sent_row publish now db_now e) of
          PENDING \<Rightarrow> e_attempts (sent_row publish now db_now e) < 3
        | PUBLISHED \<Rightarrow> e_attempts (sent_row publish now db_now e) < 3 \<and>
            event_frame e \<in> set (sent @ map event_frame (filter (accepted publish) batch))
        | FAILED \<Rightarrow> e_attempts (sent_row publish now db_now e) = 3"
    if e: "e \<in> set (outbox_events (env db))" and i: "e_id e \<in> e_id ` set batch" for e
  proof -
    obtain b where b: "b \<in> set batch" "e_id e = e_id b" using i by auto
    with sub locked_row [OF locks uniq _ e] have "e = b" by auto
    with b sub have mem: "e \<in> set batch" and st: "e_status e = PENDING" by auto
    with ok e have "e_attempts e < 3" by (auto simp: outbox_ok_def)
    with mem st show ?thesis
      by (auto simp: sent_row_def mark_published_row_def mark_failed_row_def default_max_attempts_def Let_def
          split: outbox_status.splits)
  qed
  have "unique_by e_id (outbox_events (sent_db publish now db_now batch (env db)))"
    using ok by (simp add: sent_db_def outbox_ok_def unique_by_update)
  moreover have "case e_status r of PENDING \<Rightarrow> e_attempts r < 3
        | PUBLISHED \<Rightarrow> e_attempts r < 3 \<and>
            event_frame r \<in> set (sent @ map event_frame (filter (accepted publish) batch))
        | FAILED \<Rightarrow> e_attempts r = 3"
    if r: "r \<in> set (outbox_events (sent_db publish now db_now batch (env db)))" for r
  proof -
    obtain e where e: "e \<in> set (outbox_events (env db))"
      "r = (if e_id e \<in> e_id ` set batch then sent_row publish now db_now e else e)"
      using r by (auto simp: sent_db_def set_update_where)
    show ?thesis
    proof (cases "e_id e \<in> e_id ` set batch")
      case True
      then have "r = sent_row publish now db_now e" by (simp add: e(2))
      then show ?thesis using row [OF e(1) True] by (simp only: event_frame_sent_row)
    next
      case False
      with e ok show ?thesis by (auto simp: outbox_ok_def split: outbox_status.splits)
    qed
  qed
  ultimately show ?thesis by (simp add: outbox_ok_def)
qed

text \<open>
  What the other processes may do during a round: they leave locked rows alone and keep
  the table in order (the services only add pending entries; another producer sends what
  it publishes).
\<close>

definition benign_round :: "outbox_round \<Rightarrow> bool" where
  "benign_round r \<longleftrightarrow>
     (\<forall>db sent. outbox_ok db sent \<longrightarrow> outbox_ok (or_env r db) sent \<and> outbox_ok (or_asleep r db) sent) \<and>
     (\<forall>db n. unique_by e_id (outbox_events db) \<longrightarrow>
        respects_locks (e_id ` set (batch_of n (or_locked r) db)) (or_env r) db)"

lemmas round_simps = producer_round_def py_try_def py_bind_def py_return_def interfere_def py_modify_def

lemma send_batch_keeps_outbox:
  assumes ok: "outbox_ok (committed s) (published s)" and r: "benign_round r"
  shows "outbox_ok (committed (snd (producer_round n r s))) (published (snd (producer_round n r s)))"
proof (cases "batch_of n (or_locked r) (committed s) = []")
  case True
  with ok r show ?thesis
    by (simp add: round_simps send_batch_empty benign_round_def)
next
  case False
  have uniq: "unique_by e_id (outbox_events (committed s))" using ok by (simp add: outbox_ok_def)
  have env: "outbox_ok (or_env r (committed s)) (published s)" using r ok by (simp add: benign_round_def)
  have locks: "respects_locks (e_id ` set (batch_of n (or_locked r) (committed s))) (or_env r) (committed s)"
    using r uniq by (simp add: benign_round_def)
  have sub: "e \<in> set (outbox_events (committed s)) \<and> e_status e = PENDING"
    if "e \<in> set (batch_of n (or_locked r) (committed s))" for e
    using that batch_of_set [of n "or_locked r" "committed s"] by (auto simp: pending_def)
  show ?thesis
    using outbox_ok_sent [OF env uniq locks sub] r
    by (simp add: round_simps send_batch_effect [OF uniq refl False locks refl] benign_round_def)
qed


lemma outbox_loop_ok:
  assumes "outbox_ok (committed s) (published s)" and "\<forall>r \<in> set rounds. benign_round r"
  shows "outbox_ok (committed (snd (producer_loop n rounds s))) (published (snd (producer_loop n rounds s)))"
  using assms
proof (induction rounds arbitrary: s)
  case Nil
  then show ?case by (simp add: py_return_def)
next
  case (Cons r rounds)
  have "\<exists>s1. producer_round n r s = (Inr (), s1)"
    by (auto simp: round_simps split: prod.splits sum.splits)
  then obtain s1 where s1: "producer_round n r s = (Inr (), s1)" ..
  with Cons send_batch_keeps_outbox [of s r n]
  have "outbox_ok (committed (snd (producer_loop n rounds s1))) (published (snd (producer_loop n rounds s1)))"
    by simp
  with s1 show ?case by (simp add: py_bind_def)
qed

text \<open>
  In every state of the outbox, however many rounds have run and whatever the broker
  answered, an entry that is \<open>PUBLISHED\<close> was given to the broker, a \<open>PENDING\<close> one has been
  tried fewer than three times, and a \<open>FAILED\<close> one exactly three times.
\<close>

theorem published_only_if_sent:
  assumes "outbox_ok (committed s) (published s)" and "\<forall>r \<in> set rounds. benign_round r"
  shows "\<forall>e \<in> set (outbox_events (committed (snd (producer_loop n rounds s)))).
    case e_status e of
      PENDING \<Rightarrow> e_attempts e < 3
    | PUBLISHED \<Rightarrow> e_attempts e < 3 \<and> event_frame e \<in> set (published (snd (producer_loop n rounds s)))
    | FAILED \<Rightarrow> e_attempts e = 3"
  using outbox_loop_ok [OF assms, of n] by (simp add: outbox_ok_def)

section \<open>Draining\<close>

definition calm_round :: "(frame \<Rightarrow> string + unit) \<Rightarrow> outbox_round \<Rightarrow> bool" where
  "calm_round publish r \<longleftrightarrow> or_locked r = (\<lambda>_. False) \<and> or_env r = id \<and> or_asleep r = id \<and> or_publish r = publish"

definition pending_events :: "database \<Rightarrow> outbox_event list" where
  "pending_events db = filter (\<lambda>e. e_status e = PENDING) (outbox_events db)"

lemma pending_unlocked: "pending (\<lambda>_. False) = (\<lambda>e. e_status e = PENDING)"
  by (simp add: pending_def fun_eq_iff)

lemma length_batch: "length (batch_of n (\<lambda>_. False) db) = min n (length (pending_events db))"
  by (simp add: batch_of_def length_select_ordered pending_unlocked pending_events_def)

lemma calm_round_effect:
  assumes uniq: "unique_by e_id (outbox_events (committed s))" and r: "calm_round publish r"
  shows "producer_round n r s = (Inr (),
    (let batch = batch_of n (\<lambda>_. False) (committed s);
         db = sent_db publish (or_now r) (or_db_now r) batch (committed s)
     in \<lparr>committed = db, view = db, objs = Map.empty, counters = counters s,
         published = published s @ map event_frame (filter (accepted publish) batch)\<rparr>))"
proof (cases "batch_of n (\<lambda>_. False) (committed s) = []")
  case True
  have "(committed s)\<lparr>outbox_events := update_where (\<lambda>e. False) f (outbox_events (committed s))\<rparr> = committed s" for f
    by (simp add: update_where_id)
  then show ?thesis
    using True r by (cases s) (simp add: round_simps send_batch_empty calm_round_def open_session_def sent_db_def)
next
  case False
  with uniq r show ?thesis
    by (simp add: round_simps send_batch_effect calm_round_def Let_def)
qed

text \<open>A broker that takes every frame: a round removes a full batch from the pending entries.\<close>

lemma accepting_round_pending:
  assumes uniq: "unique_by e_id (outbox_events db)" and all: "\<And>f. publish f = Inr ()"
    and b: "b = batch_of n (\<lambda>_. False) db" and db': "db' = sent_db publish now db_now b db"
  shows "unique_by e_id (outbox_events db')"
    and "pending_events db' = filter (\<lambda>e. e \<notin> set b) (pending_events db)"
    and "length (pending_events db') = length (pending_events db) - n"
proof -
  let ?rows = "outbox_events db"
  show "unique_by e_id (outbox_events db')" using uniq by (simp add: db' sent_db_def unique_by_update)
  have sub: "set b \<subseteq> set (pending_events db)"
    using batch_of_set [of n "\<lambda>_. False" db] by (auto simp: b pending_events_def pending_unlocked)
  have mem: "e_id e \<in> e_id ` set b \<longleftrightarrow> e \<in> set b" if "e \<in> set ?rows" for e
    using that sub same_row [OF uniq that] by (auto simp: pending_events_def)
  have "filter (\<lambda>e. e_status e = PENDING) (update_where (\<lambda>e. e_id e \<in> e_id ` set b) (sent_row publish now db_now) rows)
      = filter (\<lambda>e. e \<notin> set b) (filter (\<lambda>e. e_status e = PENDING) rows)" if "set rows \<subseteq> set ?rows" for rows
    using that
  proof (induction rows)
    case (Cons e rows)
    then have "e \<in> set ?rows" by simp
    from mem [OF this] Cons show ?case
      by (simp add: update_where_def sent_row_def all mark_published_row_def)
  qed simp
  from this [of ?rows] show p: "pending_events db' = filter (\<lambda>e. e \<notin> set b) (pending_events db)"
    by (simp add: pending_events_def db' sent_db_def)
  have dist: "distinct (pending_events db)"
    using uniq by (auto simp: pending_events_def unique_by_def distinct_map)
  have db: "distinct b" using batch_of_distinct [OF uniq, of n "\<lambda>_. False"] by (simp add: b distinct_map)
  have "length (pending_events db') = card (set (pending_events db) - set b)"
    unfolding p using dist by (subst distinct_card [symmetric]) (auto intro: arg_cong [where f = card])
  also have "\<dots> = length (pending_events db) - length b"
    using sub dist db by (simp add: card_Diff_subset distinct_card)
  finally show "length (pending_events db') = length (pending_events db) - n"
    by (simp add: b length_batch)
qed

lemma accepting_loop:
  assumes "unique_by e_id (outbox_events (committed s))" and all: "\<And>f. publish f = Inr ()"
    and "\<forall>r \<in> set rounds. calm_round publish r"
  shows "\<exists>s'. producer_loop n rounds s = (Inr (), s') \<and>
    length (pending_events (committed s')) = length (pending_events (committed s)) - length rounds * n \<and>
    event_frame ` set (pending_events (committed s)) \<subseteq>
      set (published s') \<union> event_frame ` set (pending_events (committed s')) \<and>
    set (published s) \<subseteq> set (published s')"
  using assms(1,3)
proof (induction rounds arbitrary: s)
  case Nil
  then show ?case by (auto simp: py_return_def)
next
  case (Cons r rounds)
  let ?b = "batch_of n (\<lambda>_. False) (committed s)"
  let ?db = "sent_db publish (or_now r) (or_db_now r) ?b (committed s)"
  let ?s1 = "\<lparr>committed = ?db, view = ?db, objs = Map.empty, counters = counters s,
         published = published s @ map event_frame (filter (accepted publish) ?b)\<rparr>"
  have run: "producer_round n r s = (Inr (), ?s1)"
    using calm_round_effect [OF Cons.prems(1), of publish r n] Cons.prems(2) by (simp add: Let_def)
  note one = accepting_round_pending [OF Cons.prems(1) all refl refl, where n = n and now = "or_now r"
      and db_now = "or_db_now r"]
  obtain s' where s': "producer_loop n rounds ?s1 = (Inr (), s')"
    "length (pending_events (committed s')) = length (pending_events ?db) - length rounds * n"
    "event_frame ` set (pending_events ?db) \<subseteq> set (published s') \<union> event_frame ` set (pending_events (committed s'))"
    "set (published ?s1) \<subseteq> set (published s')"
    using Cons.IH [of ?s1] one(1) Cons.prems(2) by auto
  have "event_frame ` set (pending_events (committed s)) \<subseteq>
      event_frame ` set ?b \<union> event_frame ` set (pending_events ?db)"
    by (auto simp: one(2))
  moreover have "event_frame ` set ?b \<subseteq> set (published s')" using s'(4) by (auto simp: all)
  ultimately have "event_frame ` set (pending_events (committed s)) \<subseteq>
      set (published s') \<union> event_frame ` set (pending_events (committed s'))"
    using s'(3) by blast
  with s' run show ?case by (auto simp: py_bind_def one(3) algebra_simps)
qed


text \<open>
  A broker that takes every frame drains the outbox. When nothing interferes, as many
  rounds as there are full batches of pending entries leave none pending, and every frame
  that was waiting has been given to the broker.
\<close>

theorem producer_loop_drains:
  assumes ok: "db_ok (committed s)" and "\<forall>f. publish f = Inr ()"
    and rounds: "\<forall>r \<in> set rounds. calm_round publish r"
    and enough: "length (pending_events (committed s)) \<le> length rounds * n"
  shows "\<exists>s'. producer_loop n rounds s = (Inr (), s') \<and>
    pending_events (committed s') = [] \<and>
    event_frame ` set (pending_events (committed s)) \<subseteq> set (published s')"
proof -
  have all: "\<And>f. publish f = Inr ()" using assms(2) by blast
  have "unique_by e_id (outbox_events (committed s))" using ok by (simp add: db_ok_def)
  from accepting_loop [where publish = publish, OF this all rounds, of n] enough show ?thesis by auto
qed

definition sample_round :: "(frame \<Rightarrow> string + unit) \<Rightarrow> outbox_round" where
  "sample_round publish =
     \<lparr>or_locked = (\<lambda>_. False), or_publish = publish, or_env = id, or_now = 500, or_db_now = 600, or_asleep = id\<rparr>"

lemma sample_round_calm [simp]: "calm_round publish (sample_round publish)"
  by (simp add: calm_round_def sample_round_def)

lemma sample_round_benign [simp]: "benign_round (sample_round publish)"
  by (simp add: benign_round_def sample_round_def)

lemma sample_outbox_ok [simp]: "outbox_ok sample_outbox []" "db_ok sample_outbox"
  by (simp_all add: outbox_ok_def db_ok_def unique_by_def)

lemma sample_pending [simp]: "pending_events sample_outbox = [sample_event 1 20, sample_event 2 10]"
  by (simp add: pending_events_def)

theorem producer_loop_drains_witness:
  "\<exists>s'. producer_loop 1 (replicate 2 (sample_round (\<lambda>_. Inr ()))) (session_on sample_outbox) = (Inr (), s') \<and>
    pending_events (committed s') = [] \<and> event_frame (sample_event 1 20) \<in> set (published s')"
  using producer_loop_drains [of "session_on sample_outbox" "\<lambda>_. Inr ()"
      "replicate 2 (sample_round (\<lambda>_. Inr ()))" 1]
  by auto

theorem published_only_if_sent_witness:
  "list_all (\<lambda>e. case e_status e of
      PENDING \<Rightarrow> e_attempts e < 3
    | PUBLISHED \<Rightarrow> e_attempts e < 3 \<and> event_frame e \<in>
        set (published (snd (producer_loop 50 [sample_round (\<lambda>_. Inr ())] (session_on sample_outbox))))
    | FAILED \<Rightarrow> e_attempts e = 3)
    (outbox_events (committed (snd (producer_loop 50 [sample_round (\<lambda>_. Inr ())] (session_on sample_outbox)))))"
  unfolding list_all_iff by (rule published_only_if_sent) simp_all

section \<open>Giving up\<close>

lemma whole_batch:
  assumes "length (pending_events db) \<le> n"
  shows "set (batch_of n (\<lambda>_. False) db) = set (pending_events db)"
  using assms by (simp add: batch_of_def select_ordered_def pending_unlocked pending_events_def)

lemma refusing_round_pending:
  assumes uniq: "unique_by e_id (outbox_events db)" and all: "\<And>f. publish f = Inl (err f)"
    and n: "length (pending_events db) \<le> n" and b: "b = batch_of n (\<lambda>_. False) db"
    and db': "db' = sent_db publish now db_now b db"
    and k: "\<forall>e \<in> set (pending_events db). k \<le> e_attempts e"
  shows "length (pending_events db') \<le> n" and "\<forall>e \<in> set (pending_events db'). k + 1 \<le> e_attempts e"
proof -
  let ?P = "\<lambda>e. e_status e = PENDING"
  have row: "?P (sent_row publish now db_now e) \<Longrightarrow> ?P e"
    "e_attempts (sent_row publish now db_now e) = e_attempts e + 1" for e
    by (simp_all add: sent_row_def all mark_failed_row_def Let_def split: if_splits)
  have "length (filter ?P (update_where Q (sent_row publish now db_now) rows)) \<le> length (filter ?P rows)" for Q rows
  proof (induction rows)
    case (Cons e rows)
    with row(1) [of e] show ?case by (cases "Q e"; cases "?P e"; cases "?P (sent_row publish now db_now e)") (simp_all add: update_where_def)
  qed simp
  then show "length (pending_events db') \<le> n"
    using n by (auto simp: pending_events_def db' sent_db_def intro: order_trans)
  show "\<forall>e \<in> set (pending_events db'). k + 1 \<le> e_attempts e"
  proof
    fix r assume "r \<in> set (pending_events db')"
    then obtain e where e: "e \<in> set (outbox_events db)" "?P r"
      "r = (if e_id e \<in> e_id ` set b then sent_row publish now db_now e else e)"
      by (auto simp: pending_events_def db' sent_db_def set_update_where)
    have "?P e" using e row(1) by (cases "e_id e \<in> e_id ` set b") simp_all
    with e(1) have p: "e \<in> set (pending_events db)" by (simp add: pending_events_def)
    then have "e_id e \<in> e_id ` set b" by (simp add: b whole_batch [OF n])
    with e(3) k p show "k + 1 \<le> e_attempts r" by (simp add: row(2))
  qed
qed

lemma refusing_loop:
  assumes "unique_by e_id (outbox_events (committed s))" and all: "\<And>f. publish f = Inl (err f)"
    and "\<forall>r \<in> set rounds. calm_round publish r" and "length (pending_events (committed s)) \<le> n"
    and "\<forall>e \<in> set (pending_events (committed s)). k \<le> e_attempts e"
  shows "\<exists>s'. producer_loop n rounds s = (Inr (), s') \<and> published s' = published s \<and>
    unique_by e_id (outbox_events (committed s')) \<and>
    (\<forall>e \<in> set (pending_events (committed s')). k + length rounds \<le> e_attempts e)"
  using assms(1,3-5)
proof (induction rounds arbitrary: s k)
  case Nil
  then show ?case by (simp add: py_return_def)
next
  case (Cons r rounds)
  let ?db = "sent_db publish (or_now r) (or_db_now r) (batch_of n (\<lambda>_. False) (committed s)) (committed s)"
  let ?s1 = "\<lparr>committed = ?db, view = ?db, objs = Map.empty, counters = counters s, published = published s\<rparr>"
  have run: "producer_round n r s = (Inr (), ?s1)"
    using calm_round_effect [OF Cons.prems(1), of publish r n] Cons.prems(2) by (simp add: Let_def all)
  note one = refusing_round_pending [OF Cons.prems(1) all Cons.prems(3) refl refl Cons.prems(4),
      where now = "or_now r" and db_now = "or_db_now r"]
  have uniq: "unique_by e_id (outbox_events ?db)"
    using Cons.prems(1) by (simp add: sent_db_def unique_by_update)
  obtain s' where "producer_loop n rounds ?s1 = (Inr (), s')" "published s' = published s"
    "unique_by e_id (outbox_events (committed s'))"
    "\<forall>e \<in> set (pending_events (committed s')). (k + 1) + length rounds \<le> e_attempts e"
    using Cons.IH [of ?s1 "k + 1"] one uniq Cons.prems(2) by auto
  with run show ?case by (auto simp: py_bind_def)
qed

lemma idle_loop:
  assumes "pending_events (committed s) = []" and "\<forall>r \<in> set rounds. calm_round (or_publish r) r"
  shows "committed (snd (producer_loop n rounds s)) = committed s \<and>
    published (snd (producer_loop n rounds s)) = published s"
  using assms
proof (induction rounds arbitrary: s)
  case Nil
  then show ?case by (simp add: py_return_def)
next
  case (Cons r rounds)
  have "batch_of n (\<lambda>_. False) (committed s) = []"
    using length_batch [of n "committed s"] Cons.prems(1) by simp
  then have "producer_round n r s = (Inr (), open_session s)"
    using Cons.prems(2) by (simp add: round_simps send_batch_empty calm_round_def)
  with Cons show ?case by (simp add: py_bind_def open_session_def)
qed

text \<open>
  A broker that refuses everything is given up on. After three rounds no entry is
  pending, nothing was sent, and no later round, whatever the broker then answers, sends
  or changes anything: an entry that failed three times is never tried again.
\<close>

theorem refused_entries_are_dropped:
  assumes ok: "outbox_ok (committed s) (published s)" and refuses: "\<forall>f. \<exists>err. publish f = Inl err"
    and rounds: "length rounds = 3" "\<forall>r \<in> set rounds. calm_round publish r"
    and big: "length (pending_events (committed s)) \<le> n"
    and later: "\<forall>r \<in> set rest. calm_round (or_publish r) r"
  shows "\<exists>s'. producer_loop n rounds s = (Inr (), s') \<and> published s' = published s \<and>
    pending_events (committed s') = [] \<and>
    committed (snd (producer_loop n rest s')) = committed s' \<and>
    published (snd (producer_loop n rest s')) = published s"
proof -
  obtain err where all: "\<And>f. publish f = Inl (err f)" using refuses by metis
  have uniq: "unique_by e_id (outbox_events (committed s))" using ok by (simp add: outbox_ok_def)
  obtain s' where run: "producer_loop n rounds s = (Inr (), s')" "published s' = published s"
    and old: "\<forall>e \<in> set (pending_events (committed s')). 3 \<le> e_attempts e"
    using refusing_loop [where publish = publish and err = err and k = 0, OF uniq all rounds(2) big] rounds(1) by auto
  have benign: "\<forall>r \<in> set rounds. benign_round r"
    using rounds(2) by (auto simp: benign_round_def calm_round_def)
  have "\<forall>e \<in> set (outbox_events (committed s')). e_status e = PENDING \<longrightarrow> e_attempts e < 3"
    using outbox_loop_ok [OF ok benign, of n] run(1) by (auto simp: outbox_ok_def)
  with old have none: "pending_events (committed s') = []"
    by (fastforce simp: pending_events_def filter_empty_conv)
  show ?thesis using run none idle_loop [OF none later, of n] by auto
qed

theorem refused_entries_are_dropped_witness:
  "\<exists>s'. producer_loop 50 (replicate 3 (sample_round (\<lambda>_. Inl ''down''))) (session_on sample_outbox) = (Inr (), s') \<and>
    pending_events (committed s') = [] \<and>
    published (snd (producer_loop 50 [sample_round (\<lambda>_. Inr ())] s')) = []"
proof -
  have "or_publish (sample_round p) = p" for p by (simp add: sample_round_def)
  then show ?thesis
    using refused_entries_are_dropped [of "session_on sample_outbox" "\<lambda>_. Inl ''down''"
        "replicate 3 (sample_round (\<lambda>_. Inl ''down''))" 50 "[sample_round (\<lambda>_. Inr ())]"]
    by auto
qed

end
