(* ===== verification/Outbox_Queue.thy ===== *)
theory Outbox_Queue
  imports Outbox_Properties
begin

text \<open>
  What the outbox promises, without tables: a queue of frames, each with the number of times
  it was refused, and the frames already given to the broker. A round offers the first \<open>n\<close>
  frames; what the broker takes is sent, what it refuses keeps its place until the third
  refusal; entries that arrive meanwhile queue at the end. The rounds of the producer
  implement this queue.
\<close>

section \<open>The abstract queue\<close>

record relay =
  waiting :: "(frame \<times> nat) list"
  sent :: "frame list"

definition keeps_trying :: "(frame \<Rightarrow> string + unit) \<Rightarrow> frame \<times> nat \<Rightarrow> bool" where
  "keeps_trying publish x \<longleftrightarrow> publish (fst x) \<noteq> Inr () \<and> snd x + 1 < default_max_attempts"

definition serve :: "nat \<Rightarrow> (frame \<Rightarrow> string + unit) \<Rightarrow> frame list \<Rightarrow> relay \<Rightarrow> relay" where
  "serve n publish arrivals q =
     \<lparr>waiting = map (\<lambda>x. (fst x, snd x + 1)) (filter (keeps_trying publish) (take n (waiting q))) @
        drop n (waiting q) @ map (\<lambda>f. (f, 0)) arrivals,
      sent = sent q @ filter (\<lambda>f. publish f = Inr ()) (map fst (take n (waiting q)))\<rparr>"

fun serve_all :: "nat \<Rightarrow> ((frame \<Rightarrow> string + unit) \<times> frame list) list \<Rightarrow> relay \<Rightarrow> relay" where
  "serve_all n [] q = q"
| "serve_all n ((publish, arrivals) # rounds) q = serve_all n rounds (serve n publish arrivals q)"

text \<open>A broker that takes everything gets the frames in the order of the queue.\<close>

definition line :: "relay \<Rightarrow> frame list" where
  "line q = sent q @ map fst (waiting q)"

lemma serve_line:
  assumes "\<And>f. publish f = Inr ()"
  shows "line (serve n publish arrivals q) = line q @ arrivals"
    and "length (waiting (serve n publish arrivals q)) = length (waiting q) - n + length arrivals"
proof -
  have none: "filter (keeps_trying publish) xs = []" for xs
    using assms by (induction xs) (simp_all add: keeps_trying_def)
  have all: "filter (\<lambda>f. publish f = Inr ()) fs = fs" for fs using assms by (induction fs) simp_all
  have "map fst (take n (waiting q)) @ map fst (drop n (waiting q)) = map fst (waiting q)"
    by (simp flip: map_append)
  with none all show "line (serve n publish arrivals q) = line q @ arrivals"
    by (simp add: line_def serve_def comp_def)
  from none show "length (waiting (serve n publish arrivals q)) = length (waiting q) - n + length arrivals"
    by (simp add: serve_def)
qed

lemma serve_all_line:
  assumes "\<And>publish arrivals f. (publish, arrivals) \<in> set rounds \<Longrightarrow> publish f = Inr ()"
  shows "line (serve_all n rounds q) = line q @ concat (map snd rounds)"
  using assms
proof (induction n rounds q rule: serve_all.induct)
  case (2 n publish arrivals rounds q)
  have all: "publish f = Inr ()" for f using "2.prems" by auto
  have "line (serve_all n rounds (serve n publish arrivals q)) =
      line (serve n publish arrivals q) @ concat (map snd rounds)"
    using 2 by auto
  then show ?case by (simp add: serve_line [OF all])
qed simp

section \<open>The queue in the table\<close>

definition entry_of :: "outbox_event \<Rightarrow> frame \<times> nat" where
  "entry_of e = (event_frame e, e_attempts e)"

definition relay_of :: "sess \<Rightarrow> relay" where
  "relay_of s =
     \<lparr>waiting = map entry_of (sort_key e_created_at (pending_events (committed s))), sent = published s\<rparr>"

definition stamps :: "database \<Rightarrow> (uuid \<times> instant) list" where
  "stamps db = map (\<lambda>e. (e_id e, e_created_at e)) (outbox_events db)"

text \<open>While the loop sleeps other processes add entries, none of them older than those there.\<close>

definition arrive :: "outbox_event list \<Rightarrow> database \<Rightarrow> database" where
  "arrive new db = db\<lparr>outbox_events := outbox_events db @ new\<rparr>"

definition arrives_after :: "(uuid \<times> instant) list \<Rightarrow> outbox_event list \<Rightarrow> bool" where
  "arrives_after old new \<longleftrightarrow>
     distinct (map fst old @ map e_id new) \<and> sorted (map e_created_at new) \<and>
     (\<forall>e \<in> set new. e_status e = PENDING \<and> e_attempts e = 0 \<and> (\<forall>x \<in> set old. snd x \<le> e_created_at e))"

fun arrive_in_order :: "(uuid \<times> instant) list \<Rightarrow> outbox_event list list \<Rightarrow> bool" where
  "arrive_in_order old [] = True"
| "arrive_in_order old (new # news) =
     (arrives_after old new \<and> arrive_in_order (old @ map (\<lambda>e. (e_id e, e_created_at e)) new) news)"

lemma insort_key_append:
  "\<forall>y \<in> set ys. f x \<le> f y \<Longrightarrow> insort_key f x (xs @ ys) = insort_key f x xs @ ys"
  by (induction xs) (cases ys, simp_all)

lemma sort_key_append:
  "\<forall>x \<in> set xs. \<forall>y \<in> set ys. f x \<le> f y \<Longrightarrow> sort_key f (xs @ ys) = sort_key f xs @ sort_key f ys"
  by (induction xs) (simp_all add: insort_key_append)

lemma insort_key_map:
  "\<forall>y \<in> insert x (set xs). f (g y) = f y \<Longrightarrow> insort_key f (g x) (map g xs) = map g (insort_key f x xs)"
  by (induction xs) auto

lemma sort_key_map: "(\<And>x. f (g x) = f x) \<Longrightarrow> sort_key f (map g xs) = map g (sort_key f xs)"
  by (induction xs) (simp_all add: insort_key_map)

lemma sent_row_stamp [simp]: "e_created_at (sent_row publish now db_now e) = e_created_at e"
  by (simp add: sent_row_def mark_published_row_def mark_failed_row_def Let_def)

lemma sent_row_pending:
  "e_status e = PENDING \<Longrightarrow>
   e_status (sent_row publish now db_now e) = PENDING \<longleftrightarrow> keeps_trying publish (entry_of e)"
  by (simp add: sent_row_def mark_published_row_def mark_failed_row_def keeps_trying_def entry_of_def Let_def)

lemma sent_row_entry:
  "keeps_trying publish (entry_of e) \<Longrightarrow>
   entry_of (sent_row publish now db_now e) = (fst (entry_of e), snd (entry_of e) + 1)"
  by (simp add: sent_row_def mark_failed_row_def keeps_trying_def entry_of_def event_frame_def Let_def)

text \<open>The rows of a batch among the pending ones, oldest first.\<close>

lemma sent_queue:
  assumes dist: "distinct (map e_id q)" and pend: "\<forall>e \<in> set q. e_status e = PENDING"
  shows "map entry_of (filter (\<lambda>e. e_status e = PENDING)
      (update_where (\<lambda>e. e_id e \<in> e_id ` set (take n q)) (sent_row publish now db_now) q)) =
    map (\<lambda>x. (fst x, snd x + 1)) (filter (keeps_trying publish) (take n (map entry_of q))) @
      drop n (map entry_of q)"
proof -
  let ?f = "sent_row publish now db_now" and ?P = "\<lambda>e. e_id e \<in> e_id ` set (take n q)"
  have "distinct (map e_id (take n q) @ map e_id (drop n q))" using dist by (simp flip: map_append)
  then have rest: "update_where ?P ?f (drop n q) = drop n q"
    by (intro update_where_id) auto
  have head: "update_where ?P ?f (take n q) = map ?f (take n q)"
    by (simp add: update_where_def)
  have split: "update_where ?P ?f q = update_where ?P ?f (take n q) @ update_where ?P ?f (drop n q)"
    by (simp add: update_where_def flip: map_append)
  have first: "map entry_of (filter (\<lambda>e. e_status e = PENDING) (map ?f es)) =
      map (\<lambda>x. (fst x, snd x + 1)) (filter (keeps_trying publish) (map entry_of es))"
    if "\<forall>e \<in> set es. e_status e = PENDING" for es
    using that by (induction es) (simp_all add: sent_row_pending sent_row_entry)
  have last: "filter (\<lambda>e. e_status e = PENDING) (drop n q) = drop n q"
    using pend by (intro filter_True ballI) (blast dest: in_set_dropD)
  show ?thesis
    unfolding split head rest filter_append map_append last
    using pend first [of "take n q"] set_take_subset [of n q] by (simp add: take_map drop_map subset_iff)
qed

text \<open>The pending entries after a batch were pending before it.\<close>

lemma sent_pending:
  assumes only: "\<And>e. e \<in> set rows \<Longrightarrow> P e \<Longrightarrow> e_status e = PENDING"
  shows "filter (\<lambda>e. e_status e = PENDING) (update_where P (sent_row publish now db_now) rows) =
    filter (\<lambda>e. e_status e = PENDING)
      (update_where P (sent_row publish now db_now) (filter (\<lambda>e. e_status e = PENDING) rows))"
  using only by (induction rows) (simp_all add: update_where_def)

section \<open>Refinement\<close>

definition relay_round :: "outbox_event list \<Rightarrow> outbox_round \<Rightarrow> bool" where
  "relay_round new r \<longleftrightarrow> or_locked r = (\<lambda>_. False) \<and> or_env r = id \<and> or_asleep r = arrive new"

lemma relay_round_effect:
  assumes uniq: "unique_by e_id (outbox_events (committed s))" and r: "relay_round new r"
  shows "\<exists>s'. producer_round n r s = (Inr (), s') \<and>
    committed s' = arrive new (sent_db (or_publish r) (or_now r) (or_db_now r)
      (batch_of n (\<lambda>_. False) (committed s)) (committed s)) \<and>
    published s' = published s @
      map event_frame (filter (accepted (or_publish r)) (batch_of n (\<lambda>_. False) (committed s)))"
proof -
  have "calm_round (or_publish r) (r\<lparr>or_asleep := id\<rparr>)" using r by (simp add: calm_round_def relay_round_def)
  note calm = calm_round_effect [OF uniq this, of n]
  have "producer_round n r s = (Inr (),
      (snd (producer_round n (r\<lparr>or_asleep := id\<rparr>) s))\<lparr>
        committed := arrive new (committed (snd (producer_round n (r\<lparr>or_asleep := id\<rparr>) s))),
        view := arrive new (committed (snd (producer_round n (r\<lparr>or_asleep := id\<rparr>) s)))\<rparr>)"
    using r by (simp add: round_simps relay_round_def split: prod.splits sum.splits)
  then show ?thesis by (simp add: calm Let_def)
qed

text \<open>A round is a step of the abstract queue.\<close>

lemma round_refines:
  assumes uniq: "unique_by e_id (outbox_events (committed s))" and r: "relay_round new r"
    and new: "arrives_after (stamps (committed s)) new"
    and run: "producer_round n r s = (Inr (), s')"
  shows "relay_of s' = serve n (or_publish r) (map event_frame new) (relay_of s)"
    and "unique_by e_id (outbox_events (committed s'))"
    and "stamps (committed s') = stamps (committed s) @ map (\<lambda>e. (e_id e, e_created_at e)) new"
proof -
  let ?rows = "outbox_events (committed s)" and ?b = "batch_of n (\<lambda>_. False) (committed s)"
  let ?q = "sort_key e_created_at (pending_events (committed s))"
  let ?upd = "update_where (\<lambda>e. e_id e \<in> e_id ` set ?b) (sent_row (or_publish r) (or_now r) (or_db_now r))"
  have s': "outbox_events (committed s') = ?upd ?rows @ new"
      "published s' = published s @ map event_frame (filter (accepted (or_publish r)) ?b)"
    using relay_round_effect [OF uniq r, of n] run by (auto simp: arrive_def sent_db_def)
  have b: "?b = take n ?q" by (simp add: batch_of_def select_ordered_def pending_unlocked pending_events_def)
  have stamp: "map (\<lambda>e. (e_id e, e_created_at e)) (?upd rows) = map (\<lambda>e. (e_id e, e_created_at e)) rows" for rows
    by (simp add: update_where_def)
  show "stamps (committed s') = stamps (committed s) @ map (\<lambda>e. (e_id e, e_created_at e)) new"
    by (simp add: stamps_def s'(1) stamp)
  have "map fst (stamps (committed s)) = map e_id ?rows" by (simp add: stamps_def comp_def)
  moreover have "map e_id (?upd ?rows) = map e_id ?rows" by (simp add: update_where_def)
  ultimately have ids: "map e_id (outbox_events (committed s')) = map fst (stamps (committed s)) @ map e_id new"
    by (simp only: s'(1) map_append)
  with new show "unique_by e_id (outbox_events (committed s'))" by (simp only: unique_by_def arrives_after_def)
  have "e_status e = PENDING" if mem: "e \<in> set ?rows" "e_id e \<in> e_id ` set ?b" for e
  proof -
    obtain x where "x \<in> set ?b" "e_id x = e_id e" using mem(2) by auto
    then show ?thesis
      using batch_of_set [of n "\<lambda>_. False" "committed s"] same_row [OF uniq mem(1), of x] by (auto simp: pending_def)
  qed
  then have "filter (\<lambda>e. e_status e = PENDING) (?upd ?rows) =
      filter (\<lambda>e. e_status e = PENDING) (?upd (pending_events (committed s)))"
    unfolding pending_events_def by (rule sent_pending)
  moreover have "filter (\<lambda>e. e_status e = PENDING) new = new" using new by (auto simp: arrives_after_def)
  ultimately have "pending_events (committed s') =
      filter (\<lambda>e. e_status e = PENDING) (?upd (pending_events (committed s))) @ new"
    by (simp add: pending_events_def s'(1))
  moreover have "\<forall>x \<in> set (filter (\<lambda>e. e_status e = PENDING) (?upd (pending_events (committed s)))).
      \<forall>y \<in> set new. e_created_at x \<le> e_created_at y"
  proof (intro ballI)
    fix x y assume x: "x \<in> set (filter (\<lambda>e. e_status e = PENDING) (?upd (pending_events (committed s))))"
      and y: "y \<in> set new"
    then obtain e where e: "e \<in> set ?rows" "e_created_at x = e_created_at e"
      by (auto simp: set_update_where pending_events_def split: if_splits)
    then have "(e_id e, e_created_at e) \<in> set (stamps (committed s))" by (simp add: stamps_def)
    moreover have "\<forall>x \<in> set (stamps (committed s)). snd x \<le> e_created_at y"
      using new y by (simp add: arrives_after_def)
    ultimately have "snd (e_id e, e_created_at e) \<le> e_created_at y" by (rule bspec [rotated])
    with e(2) show "e_created_at x \<le> e_created_at y" by simp
  qed
  ultimately have "sort_key e_created_at (pending_events (committed s')) =
      sort_key e_created_at (filter (\<lambda>e. e_status e = PENDING) (?upd (pending_events (committed s)))) @
      sort_key e_created_at new"
    by (simp only: sort_key_append)
  moreover have "sort_key e_created_at new = new" using new by (simp add: arrives_after_def sort_key_id_if_sorted)
  moreover have "sort_key e_created_at (filter (\<lambda>e. e_status e = PENDING) (?upd (pending_events (committed s)))) =
      filter (\<lambda>e. e_status e = PENDING) (?upd ?q)"
    unfolding update_where_def by (simp only: filter_sort [symmetric]) (simp add: sort_key_map)
  moreover have "map entry_of (filter (\<lambda>e. e_status e = PENDING) (?upd ?q)) =
      map (\<lambda>x. (fst x, snd x + 1)) (filter (keeps_trying (or_publish r)) (take n (map entry_of ?q))) @
        drop n (map entry_of ?q)"
    unfolding b using uniq by (intro sent_queue)
      (auto simp: unique_by_def pending_events_def distinct_map intro: inj_on_subset)
  moreover have "map entry_of new = map (\<lambda>f. (f, 0)) (map event_frame new)"
    using new by (simp add: arrives_after_def entry_of_def)
  moreover have "map event_frame (filter (accepted (or_publish r)) ?b) =
      filter (\<lambda>f. or_publish r f = Inr ()) (map fst (take n (map entry_of ?q)))"
    by (simp add: b take_map filter_map comp_def entry_of_def)
  ultimately show "relay_of s' = serve n (or_publish r) (map event_frame new) (relay_of s)"
    by (simp add: relay_of_def serve_def s'(2))
qed

text \<open>
  The rounds still to come fit the state: keys are unique, no entry is locked by another
  producer, and the entries that will arrive are newer than those there.
\<close>

definition rounds_fit :: "sess \<Rightarrow> (outbox_round \<times> outbox_event list) list \<Rightarrow> bool" where
  "rounds_fit s rounds \<longleftrightarrow>
     unique_by e_id (outbox_events (committed s)) \<and>
     arrive_in_order (stamps (committed s)) (map snd rounds) \<and>
     (\<forall>(r, new) \<in> set rounds. relay_round new r)"

interpretation relay: simulation
  "\<lambda>x s. snd (producer_round n (fst x) s)"
  "\<lambda>x. serve n (or_publish (fst x)) (map event_frame (snd x))"
  relay_of rounds_fit for n
proof unfold_locales
  fix s :: sess and x :: "outbox_round \<times> outbox_event list" and rounds
  assume fit: "rounds_fit s (x # rounds)"
  then have uniq: "unique_by e_id (outbox_events (committed s))" and r: "relay_round (snd x) (fst x)"
    and new: "arrives_after (stamps (committed s)) (snd x)"
    by (auto simp: rounds_fit_def)
  obtain s1 where s1: "producer_round n (fst x) s = (Inr (), s1)"
    using relay_round_effect [OF uniq r] by blast
  note refines = round_refines [OF uniq r new s1]
  show "rounds_fit (snd (producer_round n (fst x) s)) rounds"
    using fit refines(2,3) by (simp add: rounds_fit_def s1)
  show "relay_of (snd (producer_round n (fst x) s)) =
      serve n (or_publish (fst x)) (map event_frame (snd x)) (relay_of s)"
    by (simp add: s1 refines(1))
qed

lemma producer_round_returns: "\<exists>s'. producer_round n r s = (Inr (), s')"
  by (auto simp: round_simps split: prod.splits sum.splits)

lemma producer_loop_fold:
  "snd (producer_loop n (map fst rounds) s) = fold (\<lambda>x s. snd (producer_round n (fst x) s)) rounds s"
proof (induction rounds arbitrary: s)
  case (Cons x rounds)
  obtain s1 where "producer_round n (fst x) s = (Inr (), s1)" using producer_round_returns by blast
  then show ?case by (simp add: py_bind_def Cons)
qed (simp add: py_return_def)

lemma serve_all_fold:
  "serve_all n (map (\<lambda>(r, new). (or_publish r, map event_frame new)) rounds) q =
   fold (\<lambda>x. serve n (or_publish (fst x)) (map event_frame (snd x))) rounds q"
  by (induction rounds arbitrary: q) auto

lemma loop_refines:
  assumes "unique_by e_id (outbox_events (committed s))"
    and "arrive_in_order (stamps (committed s)) (map snd rounds)"
    and "\<forall>(r, new) \<in> set rounds. relay_round new r"
  shows "relay_of (snd (producer_loop n (map fst rounds) s)) =
    serve_all n (map (\<lambda>(r, new). (or_publish r, map event_frame new)) rounds) (relay_of s)"
  unfolding producer_loop_fold serve_all_fold
  using assms by (intro relay.run_abs) (simp add: rounds_fit_def)

text \<open>
  C6: the producer loop implements the abstract queue, whatever the broker answers to each
  frame: after any rounds, with entries of other processes arriving between them, the
  entries still pending are, oldest first and each with its number of refusals, the queue
  that as many rounds of the abstract queue leave, and the broker has been given the frames
  the abstract queue sends, in the same order.
\<close>

theorem producer_loop_refines_queue:
  assumes "unique_by e_id (outbox_events (committed s))"
    and "arrive_in_order (stamps (committed s)) (map snd rounds)"
    and "\<forall>(r, new) \<in> set rounds. relay_round new r"
  shows "relay_of (snd (producer_loop n (map fst rounds) s)) =
    serve_all n (map (\<lambda>(r, new). (or_publish r, map event_frame new)) rounds) (relay_of s)"
  using assms by (rule loop_refines)

text \<open>
  C16: first in, first out. While the broker takes every frame, what it was given followed
  by what still waits is always what it was given and what waited at the start, followed by
  the entries that arrived since, in the order of arrival: no frame is lost, doubled or
  overtaken.
\<close>

theorem producer_first_in_first_out:
  assumes uniq: "unique_by e_id (outbox_events (committed s))"
    and arrivals: "arrive_in_order (stamps (committed s)) (map snd rounds)"
    and rounds: "\<forall>(r, new) \<in> set rounds. relay_round new r"
    and takes: "\<forall>(r, new) \<in> set rounds. \<forall>f. or_publish r f = Inr ()"
    and end_state: "s' = snd (producer_loop n (map fst rounds) s)"
  shows "published s' @ map event_frame (sort_key e_created_at (pending_events (committed s'))) =
    published s @ map event_frame (sort_key e_created_at (pending_events (committed s))) @
      map event_frame (concat (map snd rounds))"
proof -
  let ?abs = "map (\<lambda>(r, new). (or_publish r, map event_frame new)) rounds"
  have "line (relay_of s') = line (relay_of s) @ concat (map snd ?abs)"
    unfolding end_state loop_refines [OF uniq arrivals rounds]
    using takes by (intro serve_all_line) auto
  moreover have "concat (map snd ?abs) = map event_frame (concat (map snd rounds))"
    by (simp add: map_concat comp_def case_prod_beta)
  moreover have "line (relay_of x) = published x @ map event_frame (sort_key e_created_at (pending_events (committed x)))" for x
    by (simp add: line_def relay_of_def comp_def entry_of_def)
  ultimately show ?thesis by simp
qed

text \<open>Two entries wait; a broker refuses the first frame offered, and a third entry arrives.\<close>

definition sample_arrival :: "outbox_round" where
  "sample_arrival = (sample_round (\<lambda>_. Inr ()))\<lparr>or_asleep := arrive [sample_event 3 30]\<rparr>"

definition refusing_arrival :: "outbox_round" where
  "refusing_arrival = (sample_round (\<lambda>_. Inl ''closed''))\<lparr>or_asleep := arrive [sample_event 3 30]\<rparr>"

lemma sample_arrives:
  "arrive_in_order (stamps sample_outbox) [[sample_event 3 30]]"
  "relay_round [sample_event 3 30] sample_arrival" "relay_round [sample_event 3 30] refusing_arrival"
  by (simp_all add: arrives_after_def stamps_def relay_round_def sample_arrival_def refusing_arrival_def sample_round_def)

theorem producer_loop_refines_queue_witness:
  "relay_of (snd (producer_loop 1 [refusing_arrival] (session_on sample_outbox))) =
    \<lparr>waiting = [(event_frame (sample_event 2 10), 1), (event_frame (sample_event 1 20), 0),
       (event_frame (sample_event 3 30), 0)], sent = []\<rparr>"
  using producer_loop_refines_queue [of "session_on sample_outbox" "[(refusing_arrival, [sample_event 3 30])]" 1]
    sample_arrives
  by (simp add: relay_of_def serve_def keeps_trying_def refusing_arrival_def sample_round_def entry_of_def
      default_max_attempts_def One_nat_def del: producer_loop.simps)

theorem producer_first_in_first_out_witness:
  "\<exists>s'. s' = snd (producer_loop 1 [sample_arrival] (session_on sample_outbox)) \<and>
    published s' @ map event_frame (sort_key e_created_at (pending_events (committed s'))) =
    [event_frame (sample_event 2 10), event_frame (sample_event 1 20), event_frame (sample_event 3 30)]"
  using producer_first_in_first_out [of "session_on sample_outbox" "[(sample_arrival, [sample_event 3 30])]" _ 1]
    sample_arrives
  by (simp add: sample_arrival_def sample_round_def del: producer_loop.simps)

end
