(* ===== verification/Consumer_Worker.thy ===== *)
theory Consumer_Worker
  imports Samples
begin

text \<open>
  The consumer of the provider's messages, \<^verbatim>\<open>backend/workers/provider_consumer/worker.py\<close>:
  one delivery is validated, its identifier is claimed in the inbox, and the ticket service
  is called, in one unit of work. The claim is not committed by itself: it goes with the
  first commit of the service.

  The second half of the theory proves what the claim gives: every method the handler calls
  keeps a claim that was made, so that a delivery that changed anything has left its claim
  behind and a second delivery of the same message changes nothing.
\<close>

section \<open>The handler\<close>

definition HANDLED_TYPES :: "provider_message_type set" where
  "HANDLED_TYPES = {RECOMMENDATION, CANCELLATION_APPLIED}"

definition dispatch :: "codec \<Rightarrow> fake_monolith \<Rightarrow> ambient \<Rightarrow> message \<Rightarrow> unit op" where
  "dispatch c client w m =
     (if m_type m = RECOMMENDATION
      then py_bind (py_lift (raise_invalid (recommendation_payload_validate c (m_payload m)))) (\<lambda>recommendation.
           apply_recommendation c client w recommendation)
      else py_bind (py_lift (raise_invalid (cancellation_applied_payload_validate c (m_payload m)))) (\<lambda>cancellation.
           mark_cancellation_applied w (ca_ticket_id cancellation)))"

definition handle_claimed :: "codec \<Rightarrow> fake_monolith \<Rightarrow> ambient \<Rightarrow> message \<Rightarrow> unit op" where
  "handle_claimed c client w m =
     py_bind (try_claim (db_clock w 0) (m_message_id m) (provider_message_type_value (m_type m)) (m_ticket_id m))
       (\<lambda>claimed.
        if \<not> claimed then inc (InboundDuplicate (provider_message_type_value (m_type m)))
        else dispatch c client w m)"

text \<open>\<open>fresh\<close> and \<open>arrival\<close> are the defaults of a body without identifier or timestamp.\<close>

definition consumer_handle ::
  "codec \<Rightarrow> fake_monolith \<Rightarrow> ambient \<Rightarrow> uuid \<Rightarrow> instant \<Rightarrow> dict \<Rightarrow> unit op" where
  "consumer_handle c client w fresh arrival body =
     py_bind (py_lift (raise_invalid (message_validate c fresh arrival body))) (\<lambda>m.
     if m_type m \<notin> HANDLED_TYPES then py_return ()
     else session_scope (handle_claimed c client w m))"

section \<open>The claim is kept\<close>

text \<open>
  The claim on \<open>i\<close> is in the view of the transaction, and \<open>Q\<close> holds of the committed
  database; \<open>Q\<close> is any condition that a database with the claim satisfies.
\<close>

definition claim_kept :: "uuid \<Rightarrow> (database \<Rightarrow> bool) \<Rightarrow> sess \<Rightarrow> bool" where
  "claim_kept i Q s \<longleftrightarrow> i \<in> claimed_ids (view s) \<and> Q (committed s)"

abbreviation claimed_in :: "uuid \<Rightarrow> database \<Rightarrow> bool" where
  "claimed_in i db \<equiv> i \<in> claimed_ids db"

definition claim_only_grows :: "ambient \<Rightarrow> bool" where
  "claim_only_grows w \<longleftrightarrow> (\<forall>n db. claimed_ids db \<subseteq> claimed_ids (others w n db))"

lemma keeps_same:
  assumes "\<And>s. view (snd (m s)) = view s \<and> committed (snd (m s)) = committed s"
  shows "keeps (claim_kept i Q) m"
  using assms by (simp add: keeps_def claim_kept_def)

lemma keeps_assign [keeps_intros]: "keeps (claim_kept i Q) (assign j f)"
  by (rule keeps_same) (simp add: assign_def split: option.splits)

lemma keeps_attributes [keeps_intros]: "keeps (claim_kept i Q) (attributes j)"
  by (rule keeps_same) (simp add: attributes_def split: option.splits)

lemma keeps_inc [keeps_intros]: "keeps (claim_kept i Q) (inc m)"
  by (rule keeps_same) (simp add: inc_def py_modify_def)

lemma keeps_get [keeps_intros]: "keeps (claim_kept i Q) (get_by_id_for_update j)"
  by (rule keeps_same)
    (auto simp: get_by_id_for_update_def scalar_one_or_none_def load_object_def py_bind_def py_return_def
      split: list.splits option.splits)

lemma keeps_flush [keeps_intros]: "keeps (claim_kept i Q) (flush now)"
  by (simp add: keeps_def claim_kept_def claimed_ids_def flush_def)

lemma keeps_outbox [keeps_intros]: "keeps (claim_kept i Q) (outbox_message c fresh now j m)"
  unfolding outbox_message_def outbox_add_def
  by (intro keeps_intros)
    (auto simp: keeps_def claim_kept_def claimed_ids_def split: sum.splits dest: insert_outbox_event_ok(1))

lemma keeps_commit [keeps_intros]:
  assumes "\<And>db. claimed_in i db \<Longrightarrow> Q db"
  shows "keeps (claim_kept i Q) (commit now)"
  unfolding commit_def
  by (intro keeps_intros) (simp add: keeps_def claim_kept_def py_modify_def assms)

lemma keeps_change_status [keeps_intros]: "keeps (claim_kept i Q) (change_status j st False now)"
  unfolding change_status_def Let_def by (intro keeps_intros | simp)+

lemma keeps_interfere:
  assumes "claim_only_grows w"
  shows "keeps (claim_kept i (claimed_in i)) (interfere (others w n))"
  using assms by (auto simp: keeps_def claim_kept_def interfere_def py_modify_def claim_only_grows_def)

lemma keeps_cancel_locked [keeps_intros]:
  "(\<And>db. claimed_in i db \<Longrightarrow> Q db) \<Longrightarrow> keeps (claim_kept i Q) (cancel_locked c w j reason)"
  unfolding cancel_locked_def by (intro keeps_intros)

lemma keeps_request_cancellation [keeps_intros]:
  "(\<And>db. claimed_in i db \<Longrightarrow> Q db) \<Longrightarrow> keeps (claim_kept i Q) (request_cancellation c client w j reason)"
  unfolding request_cancellation_eq by (intro keeps_intros) (auto intro!: keeps_intros split: option.split)

lemma keeps_mark_cancellation_applied [keeps_intros]:
  "(\<And>db. claimed_in i db \<Longrightarrow> Q db) \<Longrightarrow> keeps (claim_kept i Q) (mark_cancellation_applied w j)"
  unfolding mark_cancellation_applied_def
  by (intro keeps_intros) (auto intro!: keeps_intros split: option.split)

lemma keeps_record_recommendation [keeps_intros]:
  "(\<And>db. claimed_in i db \<Longrightarrow> Q db) \<Longrightarrow> keeps (claim_kept i Q) (record_recommendation w j p)"
  unfolding record_recommendation_def by (intro keeps_intros)

lemma keeps_settle [keeps_intros]:
  "(\<And>db. claimed_in i db \<Longrightarrow> Q db) \<Longrightarrow> keeps (claim_kept i Q) (settle c w j a)"
  unfolding settle_def settle_locked_def
  by (intro keeps_intros) (auto intro!: keeps_intros split: option.split)

text \<open>After a commit that succeeded, the claim is committed.\<close>

definition ends_committed :: "unit op \<Rightarrow> bool" where
  "ends_committed m \<longleftrightarrow> (\<forall>s s'. m s = (Inr (), s') \<longrightarrow> committed s' = view s')"

lemma ends_committed_bind: "(\<And>x. ends_committed (f x)) \<Longrightarrow> ends_committed (py_bind m f)"
  unfolding ends_committed_def py_bind_def by (auto split: prod.splits sum.splits)

lemma ends_committed_commit: "ends_committed (commit now)"
  by (auto simp: ends_committed_def commit_def py_bind_def py_modify_def split: prod.splits sum.splits)

lemma record_recommendation_ends: "ends_committed (record_recommendation w j p)"
  unfolding record_recommendation_def by (intro ends_committed_bind ends_committed_commit)

lemma claim_kept_committed:
  assumes "keeps (claim_kept i Q) m" and "ends_committed m" and "claim_kept i Q s" and "m s = (Inr (), s')"
  shows "claim_kept i (claimed_in i) s'"
  using keepsD [OF assms(1,3)] assms(2,4) by (simp add: claim_kept_def ends_committed_def)

lemma claim_kept_weaken:
  "claim_kept i (claimed_in i) s \<Longrightarrow> (\<And>db. claimed_in i db \<Longrightarrow> Q db) \<Longrightarrow> claim_kept i Q s"
  by (simp add: claim_kept_def)

lemma claim_kept_bind:
  assumes Q: "\<And>db. claimed_in i db \<Longrightarrow> Q db" and m: "keeps (claim_kept i Q) m" "ends_committed m"
    and f: "keeps (claim_kept i (claimed_in i)) (f ())"
  shows "keeps (claim_kept i Q) (py_bind m f)"
proof (rule keepsI)
  fix s assume s: "claim_kept i Q s"
  obtain x s1 where run: "m s = (x, s1)" by fastforce
  show "claim_kept i Q (snd (py_bind m f s))"
  proof (cases x)
    case (Inl e)
    with keepsD [OF m(1) s] run show ?thesis by (simp add: py_bind_def)
  next
    case (Inr u)
    with run have "m s = (Inr (), s1)" by simp
    from claim_kept_committed [OF m s this] have "claim_kept i (claimed_in i) s1" .
    with f have "claim_kept i (claimed_in i) (snd (f () s1))" by (rule keepsD)
    with Inr run Q show ?thesis by (simp add: py_bind_def claim_kept_weaken)
  qed
qed

lemma keeps_apply_recommendation [keeps_intros]:
  assumes Q: "\<And>db. claimed_in i db \<Longrightarrow> Q db" and grows: "claim_only_grows w"
  shows "keeps (claim_kept i Q) (apply_recommendation c client w p)"
proof -
  have rest: "keeps (claim_kept i (claimed_in i)) (py_bind (interfere (others w 0)) (\<lambda>_.
           py_try (py_lift (process_ticket client (rolls w 0) j (Some (rp_action p)) (rp_reason p)))
             (\<lambda>e. if e = MonolithError
                  then request_cancellation c client (later 1 w) j (''monolith_error: '' @ monolith_error_str)
                  else py_raise e)
             (\<lambda>_. settle c w j (rp_action p))))" for j
    by (intro keeps_intros keeps_interfere grows) simp_all
  have "keeps (claim_kept i Q) (case x of None \<Rightarrow> py_return ()
     | Some t \<Rightarrow>
         if t_status t \<in> TERMINAL_TICKET_STATUSES then py_return ()
         else py_bind (record_recommendation w (t_id t) p) (\<lambda>_.
           py_bind (interfere (others w 0)) (\<lambda>_.
           py_try (py_lift (process_ticket client (rolls w 0) (t_id t) (Some (rp_action p)) (rp_reason p)))
             (\<lambda>e. if e = MonolithError
                  then request_cancellation c client (later 1 w) (t_id t)
                         (''monolith_error: '' @ monolith_error_str)
                  else py_raise e)
             (\<lambda>_. settle c w (t_id t) (rp_action p)))))" for x
    by (cases x) (auto intro!: keeps_return claim_kept_bind [OF Q keeps_record_recommendation
        record_recommendation_ends rest] Q)
  then show ?thesis unfolding apply_recommendation_def by (intro keeps_intros)
qed

lemma keeps_dispatch:
  assumes "\<And>db. claimed_in i db \<Longrightarrow> Q db" and "claim_only_grows w"
  shows "keeps (claim_kept i Q) (dispatch c client w m)"
  unfolding dispatch_def using assms by (intro keeps_intros)

section \<open>Deliveries\<close>

text \<open>The body's identifier, which does not depend on the defaults.\<close>

definition body_message :: "codec \<Rightarrow> dict \<Rightarrow> message \<Rightarrow> bool" where
  "body_message c body m \<longleftrightarrow> (\<forall>fresh arrival. message_validate c fresh arrival body = Some m)"

lemma handle_duplicate:
  assumes m: "body_message c body m" and ty: "m_type m \<in> HANDLED_TYPES"
    and old: "m_message_id m \<in> claimed_ids (committed s)"
  shows "consumer_handle c client w fresh arrival body s = (Inr (),
    (open_session s)\<lparr>counters := (counters s)(InboundDuplicate (provider_message_type_value (m_type m)) :=
       Suc (counters s (InboundDuplicate (provider_message_type_value (m_type m)))))\<rparr>)"
proof -
  have v: "message_validate c fresh arrival body = Some m" using m by (simp add: body_message_def)
  show ?thesis using old ty
    by (cases s) (simp add: consumer_handle_def py_bind_def py_lift_def raise_invalid_def v session_scope_def py_try_def
      handle_claimed_def claim_refused inc_def py_modify_def py_return_def open_session_def)
qed

text \<open>A first delivery either leaves the database or leaves its claim.\<close>

lemma handle_claims:
  assumes m: "body_message c body m" and grows: "claim_only_grows w"
  shows "committed (snd (consumer_handle c client w fresh arrival body s)) = committed s \<or>
    (m_type m \<in> HANDLED_TYPES \<and>
     m_message_id m \<in> claimed_ids (committed (snd (consumer_handle c client w fresh arrival body s))))"
proof -
  have v: "message_validate c fresh arrival body = Some m" using m by (simp add: body_message_def)
  let ?i = "m_message_id m"
  let ?Q = "\<lambda>db. db = committed s \<or> claimed_in ?i db"
  show ?thesis
  proof (cases "m_type m \<in> HANDLED_TYPES \<and> ?i \<notin> claimed_ids (committed s)")
    case False
    then show ?thesis
      using handle_duplicate [OF m, of s client w fresh arrival]
      by (cases "m_type m \<in> HANDLED_TYPES")
        (auto simp: consumer_handle_def py_bind_def py_lift_def raise_invalid_def v py_return_def)
  next
    case True
    obtain s1 where claim: "try_claim (db_clock w 0) ?i (provider_message_type_value (m_type m))
        (m_ticket_id m) (open_session s) = (Inr True, s1)"
      and s1: "claimed_in ?i (view s1)" "committed s1 = committed s"
      using True claim_taken [of ?i "open_session s"] by fastforce
    then have "claim_kept ?i ?Q s1" by (simp add: claim_kept_def)
    moreover have "keeps (claim_kept ?i ?Q) (dispatch c client w m)"
      by (rule keeps_dispatch) (simp_all add: grows)
    ultimately have "claim_kept ?i ?Q (snd (dispatch c client w m s1))" by (rule keepsD [rotated])
    moreover have "committed (snd (consumer_handle c client w fresh arrival body s)) =
        committed (snd (dispatch c client w m s1))"
      using True by (simp add: consumer_handle_def py_bind_def py_lift_def raise_invalid_def v
          session_scope_committed handle_claimed_def claim)
    ultimately show ?thesis using True by (auto simp: claim_kept_def)
  qed
qed

end
