(* ===== verification/Consumer_Properties.thy ===== *)
theory Consumer_Properties
  imports Consumer_Worker Ticket_Properties
begin

text \<open>
  The promises of the consumer: a message takes effect at most once however often it is
  delivered, what a delivery that fails leaves, and what the two handled messages do
  to the ticket, the outbox and the inbox.
\<close>

section \<open>Sample messages\<close>

definition sample_message :: "payload \<Rightarrow> message" where
  "sample_message p =
     \<lparr>m_message_id = 900, m_ticket_id = Some 7, m_type = payload_type p, m_timestamp = 50,
      m_payload = payload_dump ref_codec p\<rparr>"

definition sample_body :: "payload \<Rightarrow> dict" where
  "sample_body p = message_dump ref_codec (sample_message p)"

lemma sample_message_simps [simp]:
  "m_message_id (sample_message p) = 900" "m_type (sample_message p) = payload_type p"
  "m_ticket_id (sample_message p) = Some 7" "m_payload (sample_message p) = payload_dump ref_codec p"
  by (simp_all add: sample_message_def)

lemma sample_body_message [simp]: "body_message ref_codec (sample_body p) (sample_message p)"
  by (simp add: body_message_def sample_body_def ref.message_roundtrip)

lemma sample_grows [simp]: "claim_only_grows (sample_ambient roll id)"
  by (simp add: claim_only_grows_def)

section \<open>At most once\<close>

text \<open>
  A message takes effect at most once. If a delivery changed the database in any way,
  even if it then raised, every later delivery of the same body, whatever the clocks, the
  random draws and the monolith then do, returns normally, changes no table and is counted
  as a duplicate.
\<close>

theorem consumer_at_most_once:
  assumes m: "body_message c body m" and grows: "claim_only_grows w"
    and first: "consumer_handle c client w fresh arrival body s = (x, s1)"
    and effect: "committed s1 \<noteq> committed s"
  shows "\<exists>s2. consumer_handle c client' w' fresh' arrival' body s1 = (Inr (), s2) \<and>
    committed s2 = committed s1 \<and> published s2 = published s1 \<and>
    counters s2 = (counters s1)(InboundDuplicate (provider_message_type_value (m_type m)) :=
       Suc (counters s1 (InboundDuplicate (provider_message_type_value (m_type m)))))"
  using handle_claims [OF m grows, of client fresh arrival s] first effect
    handle_duplicate [OF m, of s1 client' w' fresh' arrival']
  by auto

section \<open>Recommendations\<close>

definition claim_row :: "ambient \<Rightarrow> message \<Rightarrow> processed_provider_message" where
  "claim_row w m =
     \<lparr>p_message_id = m_message_id m, p_ticket_id = m_ticket_id m,
      p_message_type = provider_message_type_value (m_type m), p_processed_at = db_clock w 0\<rparr>"

definition with_claim :: "ambient \<Rightarrow> message \<Rightarrow> database \<Rightarrow> database" where
  "with_claim w m db = db\<lparr>processed := processed db @ [claim_row w m]\<rparr>"

lemma with_claim_simps [simp]:
  "tickets (with_claim w m db) = tickets db" "outbox_events (with_claim w m db) = outbox_events db"
  "processed (with_claim w m db) = processed db @ [claim_row w m]"
  by (simp_all add: with_claim_def)

lemma with_claim_db_ok:
  "db_ok db \<Longrightarrow> m_message_id m \<notin> claimed_ids db \<Longrightarrow> db_ok (with_claim w m db)"
  by (auto simp: db_ok_def claimed_ids_def with_claim_def claim_row_def unique_by_def)

lemma handle_new:
  assumes m: "body_message c body m" and ty: "m_type m \<in> HANDLED_TYPES"
    and new: "m_message_id m \<notin> claimed_ids (committed s)"
  shows "consumer_handle c client w fresh arrival body s =
    session_scope (\<lambda>x. dispatch c client w m (x\<lparr>view := with_claim w m (view x)\<rparr>)) s"
proof -
  have v: "message_validate c fresh arrival body = Some m" using m by (simp add: body_message_def)
  have "handle_claimed c client w m (open_session s) =
      dispatch c client w m ((open_session s)\<lparr>view := with_claim w m (view (open_session s))\<rparr>)"
    using new by (simp add: handle_claimed_def py_bind_def try_claim_eq with_claim_def claim_row_def insert_row_def)
  then show ?thesis using ty
    by (simp add: consumer_handle_def py_bind_def py_lift_def raise_invalid_def v session_scope_def py_try_def)
qed

lemma handle_cancellation:
  assumes m: "body_message c body m" and ty: "m_type m = CANCELLATION_APPLIED"
    and p: "cancellation_applied_payload_validate c (m_payload m) = Some p"
    and new: "m_message_id m \<notin> claimed_ids (committed s)" and ok: "db_ok (committed s)"
    and r: "select_by t_id (ca_ticket_id p) (tickets (committed s)) = [r]" and st: "t_status r \<noteq> CANCELLED"
  shows "\<exists>s'. consumer_handle c client w fresh arrival body s = (Inr (), s') \<and>
    committed s' = cancel_applied_db w (ca_ticket_id p) (with_claim w m (committed s)) \<and>
    counters s' = counted (t_status r) CANCELLED (counters s)"
proof -
  let ?db = "with_claim w m (committed s)"
  let ?s0 = "(open_session s)\<lparr>view := ?db\<rparr>"
  obtain s1 where "mark_cancellation_applied w (ca_ticket_id p) ?s0 = (Inr (), s1)"
    and s1: "committed s1 = cancel_applied_db w (ca_ticket_id p) ?db"
      "counters s1 = counted (t_status r) CANCELLED (counters s)"
    using mark_cancellation_applied_effect [of ?s0 "ca_ticket_id p" r w] with_claim_db_ok [OF ok new] r st
    by (auto simp: commits_def)
  then have "dispatch c client w m ?s0 = (Inr (), s1)"
    by (simp add: dispatch_def ty p py_bind_def py_lift_def raise_invalid_def)
  then show ?thesis
    using session_scope_commits [of "\<lambda>x. dispatch c client w m (x\<lparr>view := with_claim w m (view x)\<rparr>)" s s1]
      handle_new [OF m _ new, of client w fresh arrival] ty s1
    by (auto simp: HANDLED_TYPES_def)
qed

text \<open>
  A first delivery of a recommendation for a ticket that is not final, when the
  monolith answers and no other process interferes: the ticket ends \<open>SETTLED\<close> with the
  recommendation recorded, the acknowledgement for the provider is in the outbox, and the
  message's identifier is in the inbox.
\<close>

theorem consumer_settles_recommendation:
  assumes m: "body_message c body m" and ty: "m_type m = RECOMMENDATION"
    and p: "recommendation_payload_validate c (m_payload m) = Some p"
    and new: "m_message_id m \<notin> claimed_ids (committed s)"
    and ok: "db_ok (committed s)" and q: "quiet w"
    and r: "select_by t_id (rp_ticket_id p) (tickets (committed s)) = [r]"
    and st: "\<not> terminal (t_status r)" and reason: "varchar_fits 512 (rp_reason p)"
    and answers: "\<not> rolls w 0 < error_rate client"
    and ev: "uuid4 w 1 \<notin> event_ids (committed s)"
  shows "\<exists>s' r'. consumer_handle c client w fresh arrival body s = (Inr (), s') \<and>
    select_by t_id (rp_ticket_id p) (tickets (committed s')) = [r'] \<and>
    t_status r' = SETTLED \<and> t_provider_recommendation r' = Some (rp_action p) \<and>
    t_settled_at r' = Some (clock w 1) \<and>
    outbox_events (committed s') = outbox_events (committed s) @
      [outbound_event c (uuid4 w 1) (db_clock w 1) (rp_ticket_id p)
         (ack_message c w (rp_ticket_id p) (rp_action p))] \<and>
    processed (committed s') = processed (committed s) @ [claim_row w m]"
proof -
  let ?i = "rp_ticket_id p" and ?x = "held_ticket w p r"
  let ?db = "with_claim w m (committed s)"
  let ?s0 = "(open_session s)\<lparr>view := ?db\<rparr>"
  let ?db1 = "recommended_db w ?i p ?db"
  let ?f = "write_back (db_clock w 1) ?x (settled_ticket w ?x)"
  have i: "t_id r = ?i" using r by (rule select_member)
  have ok0: "db_ok (view ?s0)" using with_claim_db_ok [OF ok new] by simp
  have r0: "select_by t_id ?i (tickets (view ?s0)) = [r]" using r by simp
  have row: "select_by t_id ?i (tickets ?db1) = [?x]"
    using select_rewritten [of ?i ?db r "\<lambda>q. stamped (db_clock w 0) q (recommended_ticket w p q)"] r
    by (simp add: recommended_db_def held_ticket_def)
  obtain s1 where "apply_recommendation c client w p ?s0 = (Inr (), s1)"
    and s1: "committed s1 = settled_db c w ?x (rp_action p) ?db1"
    using apply_recommendation_settled [where s = ?s0 and c = c,
        OF _ ok0 r0 st reason _ recommended_db_ok [OF with_claim_db_ok [OF ok new] reason] row answers]
      quiet_id [OF q] ev
    by (auto simp: commits_def recommended_db_def)
  then have "dispatch c client w m ?s0 = (Inr (), s1)"
    by (simp add: dispatch_def ty p py_bind_def py_lift_def raise_invalid_def)
  then obtain s' where s': "consumer_handle c client w fresh arrival body s = (Inr (), s')"
    "committed s' = committed s1"
    using session_scope_commits [of "\<lambda>x. dispatch c client w m (x\<lparr>view := with_claim w m (view x)\<rparr>)" s s1]
      handle_new [OF m _ new, of client w fresh arrival] ty
    by (auto simp: HANDLED_TYPES_def)
  have final: "select_by t_id ?i (tickets (committed s')) = [?f ?x]"
    using select_rewritten [OF row, of ?f] i by (simp add: s' s1 settled_db_def)
  show ?thesis
    by (rule exI [of _ s'], rule exI [of _ "?f ?x"])
      (use s' s1 final i in \<open>simp_all add: write_back_columns settled_ticket_def
        settled_db_def recommended_db_def insert_row_def held_ticket_def recommended_ticket_def\<close>)
qed

theorem consumer_settles_recommendation_witness:
  "\<exists>s' r'. consumer_handle ref_codec sample_client (sample_ambient (1/2) id) 0 0
      (sample_body (RecommendationPayload sample_recommendation)) (session_on (sample_db SENT_TO_PROVIDER)) =
      (Inr (), s') \<and>
    select_by t_id 7 (tickets (committed s')) = [r'] \<and> t_status r' = SETTLED \<and>
    length (processed (committed s')) = 1"
  using consumer_settles_recommendation [OF sample_body_message, of "RecommendationPayload sample_recommendation"
      sample_recommendation "session_on (sample_db SENT_TO_PROVIDER)" "sample_ambient (1/2) id"
      "sample_ticket SENT_TO_PROVIDER" sample_client 0 0]
    ref.recommendation_payload_roundtrip [of sample_recommendation]
  by (auto simp: varchar_fits_def claimed_ids_def)

theorem consumer_at_most_once_witness:
  "\<exists>s1 s2. consumer_handle ref_codec sample_client (sample_ambient (1/2) id) 0 0
      (sample_body (CancellationAppliedPayload \<lparr>ca_ticket_id = 7\<rparr>)) (session_on (sample_db SETTLED)) = (Inr (), s1) \<and>
    consumer_handle ref_codec sample_client (sample_ambient 0 id) 1 1
      (sample_body (CancellationAppliedPayload \<lparr>ca_ticket_id = 7\<rparr>)) s1 = (Inr (), s2) \<and>
    committed s2 = committed s1 \<and> committed s1 \<noteq> sample_db SETTLED"
proof -
  let ?b = "sample_body (CancellationAppliedPayload \<lparr>ca_ticket_id = 7\<rparr>)"
  obtain s' where s': "consumer_handle ref_codec sample_client (sample_ambient (1/2) id) 0 0 ?b
      (session_on (sample_db SETTLED)) = (Inr (), s')" "processed (committed s') \<noteq> []"
    using handle_cancellation [OF sample_body_message, of "CancellationAppliedPayload \<lparr>ca_ticket_id = 7\<rparr>"
        "\<lparr>ca_ticket_id = 7\<rparr>" "session_on (sample_db SETTLED)" "sample_ticket SETTLED" sample_client
        "sample_ambient (1/2) id" 0 0] ref.cancellation_applied_payload_roundtrip [of "\<lparr>ca_ticket_id = 7\<rparr>"]
    by (auto simp: claimed_ids_def cancel_applied_db_def)
  then have ne: "committed s' \<noteq> sample_db SETTLED" by auto
  then show ?thesis
    using consumer_at_most_once [OF sample_body_message sample_grows s'(1), of sample_client
        "sample_ambient 0 id" 1 1] s'(1)
    by auto
qed


section \<open>Deliveries without effect\<close>

text \<open>
  What leaves no trace. A body that is no message raises \<^verbatim>\<open>ValidationError\<close> and one of a
  type the consumer does not handle is dropped, both without touching the database, the
  counters or the inbox; a message whose payload does not validate raises and its claim is
  rolled back, so that a redelivery is not taken for a duplicate.
\<close>

theorem consumer_without_effect:
  assumes m: "\<And>m. message_validate c fresh arrival body = Some m \<Longrightarrow>
      m_type m \<in> HANDLED_TYPES \<Longrightarrow>
      payload_by_type (m_type m) c (m_payload m) = None \<and>
      m_message_id m \<notin> claimed_ids (committed s)"
  shows "\<exists>s'. consumer_handle c client w fresh arrival body s =
      ((case message_validate c fresh arrival body of
          None \<Rightarrow> Inl ValidationError
        | Some m \<Rightarrow> if m_type m \<in> HANDLED_TYPES then Inl ValidationError else Inr ()), s') \<and>
    committed s' = committed s \<and> counters s' = counters s \<and> published s' = published s"
proof (cases "message_validate c fresh arrival body")
  case None
  then show ?thesis by (simp add: consumer_handle_def py_bind_def py_lift_def raise_invalid_def)
next
  case (Some m)
  show ?thesis
  proof (cases "m_type m \<in> HANDLED_TYPES")
    case False
    with Some show ?thesis
      by (simp add: consumer_handle_def py_bind_def py_lift_def raise_invalid_def py_return_def)
  next
    case True
    with m [OF Some] have bad: "payload_by_type (m_type m) c (m_payload m) = None"
      and new: "m_message_id m \<notin> claimed_ids (committed s)" by simp_all
    have "dispatch c client w m x = (Inl ValidationError, x)" for x
      using bad True by (auto simp: HANDLED_TYPES_def dispatch_def py_bind_def py_lift_def raise_invalid_def)
    with Some True new show ?thesis
      by (simp add: consumer_handle_def py_bind_def py_lift_def raise_invalid_def session_scope_def py_try_def
          handle_claimed_def try_claim_eq rollback_def py_modify_def py_raise_def)
  qed
qed

theorem consumer_without_effect_witness:
  "\<exists>s'. consumer_handle ref_codec sample_client (sample_ambient 0 id) 0 0
      [(''type'', JStr ''RECOMMENDATION''), (''payload'', JObj [])] (session_on (sample_db NEW)) =
      (Inl ValidationError, s') \<and> committed s' = sample_db NEW"
proof -
  let ?b = "[(''type'', JStr ''RECOMMENDATION''), (''payload'', JObj [])]"
  have load: "load_enum provider_message_type_value (JStr ''RECOMMENDATION'') = Some RECOMMENDATION"
    using ref.enum_rt(2) [of RECOMMENDATION] by simp
  have v: "message_validate ref_codec 0 0 ?b = Some \<lparr>m_message_id = 0, m_ticket_id = None,
      m_type = RECOMMENDATION, m_timestamp = 0, m_payload = []\<rparr>"
    using load by (simp add: message_validate_def field_defs)
  have "recommendation_payload_validate ref_codec [] = None"
    by (simp add: recommendation_payload_validate_def field_defs)
  then show ?thesis
    using consumer_without_effect [of ref_codec 0 0 ?b "session_on (sample_db NEW)" sample_client
        "sample_ambient 0 id"] v
    by (auto simp: claimed_ids_def HANDLED_TYPES_def)
qed

section \<open>Cancellation applied\<close>

text \<open>
  A first delivery of \<open>CANCELLATION_APPLIED\<close> moves the ticket its payload names to
  \<open>CANCELLED\<close> and claims the identifier in the same commit; the outbox is not touched.
\<close>

theorem consumer_applies_cancellation:
  assumes m: "body_message c body m" and ty: "m_type m = CANCELLATION_APPLIED"
    and p: "cancellation_applied_payload_validate c (m_payload m) = Some p"
    and new: "m_message_id m \<notin> claimed_ids (committed s)" and ok: "db_ok (committed s)"
    and r: "select_by t_id (ca_ticket_id p) (tickets (committed s)) = [r]" and st: "t_status r \<noteq> CANCELLED"
  shows "\<exists>s' r'. consumer_handle c client w fresh arrival body s = (Inr (), s') \<and>
    select_by t_id (ca_ticket_id p) (tickets (committed s')) = [r'] \<and> t_status r' = CANCELLED \<and>
    t_cancelled_at r' \<noteq> None \<and>
    outbox_events (committed s') = outbox_events (committed s) \<and>
    processed (committed s') = processed (committed s) @ [claim_row w m] \<and>
    counters s' = counted (t_status r) CANCELLED (counters s)"
proof -
  let ?i = "ca_ticket_id p" and ?db = "with_claim w m (committed s)"
  let ?f = "\<lambda>q. stamped (db_clock w 0) q (cancel_applied_ticket w q)"
  obtain s' where s': "consumer_handle c client w fresh arrival body s = (Inr (), s')"
    "committed s' = cancel_applied_db w ?i ?db" "counters s' = counted (t_status r) CANCELLED (counters s)"
    using handle_cancellation [OF m ty p new ok r st] by blast
  have final: "select_by t_id ?i (tickets (committed s')) = [?f r]"
    using select_rewritten [of ?i ?db r ?f] r by (simp add: s' cancel_applied_db_def)
  show ?thesis
    by (rule exI [of _ s'], rule exI [of _ "?f r"])
      (use s' final in \<open>simp_all add: cancel_applied_db_def cancel_applied_ticket_def split: option.splits\<close>)
qed

theorem consumer_applies_cancellation_witness:
  "\<exists>s' r'. consumer_handle ref_codec sample_client (sample_ambient 0 id) 0 0
      (sample_body (CancellationAppliedPayload \<lparr>ca_ticket_id = 7\<rparr>))
      (session_on (sample_db CANCELLATION_REQUESTED)) = (Inr (), s') \<and>
    select_by t_id 7 (tickets (committed s')) = [r'] \<and> t_status r' = CANCELLED"
  using consumer_applies_cancellation [OF sample_body_message, of "CancellationAppliedPayload \<lparr>ca_ticket_id = 7\<rparr>"
      "\<lparr>ca_ticket_id = 7\<rparr>" "session_on (sample_db CANCELLATION_REQUESTED)"
      "sample_ticket CANCELLATION_REQUESTED" sample_client "sample_ambient 0 id" 0 0]
    ref.cancellation_applied_payload_roundtrip [of "\<lparr>ca_ticket_id = 7\<rparr>"]
  by (auto simp: claimed_ids_def)

section \<open>The claim goes with the first commit only\<close>

lemma settle_fails:
  assumes obj: "objs s = [i \<mapsto> (x, x)]" and i: "t_id x = i" and st: "\<not> terminal (t_status x)"
    and r: "select_by t_id i (tickets (view s)) = [r]" and ok: "db_ok (view s)"
    and taken: "uuid4 w 1 \<in> event_ids (view s)"
  shows "\<exists>s'. settle c w i a s = (Inl IntegrityError, s') \<and> committed s' = committed s"
proof -
  have g: "get_by_id_for_update i s = (Inr (Some x), s)"
    using get_held [of i s r x x] r obj select_member [OF r] by simp
  have fits: "ticket_columns_fit (write_back now x (x\<lparr>t_settled_at := Some (clock w 1), t_status := SETTLED\<rparr>) q)"
    if "q \<in> set (tickets (view s))" for q now
    using rows_fit [OF ok that] by (intro write_back_fits) simp_all
  have ob: "outbox_events (view (rewritten i n l c' c'' s)) = outbox_events (view s)" for n l c' c''
    by (simp add: rewritten_def)
  have "settle c w i a s = settle_locked c w x a s"
    using st by (simp add: settle_def py_bind_def g)
  also have "\<dots> = (Inl IntegrityError,
      rewritten i (db_clock w 1) x x (x\<lparr>t_settled_at := Some (clock w 1), t_status := SETTLED\<rparr>) s)"
    unfolding settle_locked_def i outbox_message_def outbox_add_def py_bind_assoc
    by (subst update_status [of s i x x])
      (use obj fits taken in \<open>simp_all add: clean_except_def ob py_bind_def insert_outbound_event\<close>)
  finally show ?thesis by (simp add: rewritten_def)
qed

text \<open>
  The claim is committed with the recommendation, before the ticket is settled. One cause of a
  failure after it: the identifier drawn for the outbox entry is taken.
\<close>

lemma settlement_fails_when_taken:
  assumes m: "body_message c body m" and ty: "m_type m = RECOMMENDATION"
    and p: "recommendation_payload_validate c (m_payload m) = Some p"
    and new: "m_message_id m \<notin> claimed_ids (committed s)"
    and ok: "db_ok (committed s)" and q: "quiet w"
    and r: "select_by t_id (rp_ticket_id p) (tickets (committed s)) = [r]"
    and st: "\<not> terminal (t_status r)" and reason: "varchar_fits 512 (rp_reason p)"
    and answers: "\<not> rolls w 0 < error_rate client"
    and taken: "uuid4 w 1 \<in> event_ids (committed s)"
  shows "\<exists>s1 r'. consumer_handle c client w fresh arrival body s = (Inl IntegrityError, s1) \<and>
    select_by t_id (rp_ticket_id p) (tickets (committed s1)) = [r'] \<and>
    t_status r' = recommendation_target (rp_action p) \<and>
    outbox_events (committed s1) = outbox_events (committed s) \<and>
    (\<exists>s2. consumer_handle c client w' fresh' arrival' body s1 = (Inr (), s2) \<and> committed s2 = committed s1)"
proof -
  let ?i = "rp_ticket_id p" and ?x = "held_ticket w p r"
  let ?db = "with_claim w m (committed s)"
  let ?s0 = "(open_session s)\<lparr>view := ?db\<rparr>"
  let ?db1 = "recommended_db w ?i p ?db"
  let ?s1 = "?s0\<lparr>committed := ?db1, view := ?db1, objs := [?i \<mapsto> (?x, ?x)],
      counters := counted (t_status r) (recommendation_target (rp_action p)) (counters s)\<rparr>"
  have i: "t_id r = ?i" using r by (rule select_member)
  have ok0: "db_ok ?db" by (rule with_claim_db_ok [OF ok new])
  have row: "select_by t_id ?i (tickets ?db1) = [?x]"
    using select_rewritten [of ?i ?db r "\<lambda>q. stamped (db_clock w 0) q (recommended_ticket w p q)"] r
    by (simp add: recommended_db_def held_ticket_def)
  have "apply_recommendation c client w p ?s0 = settle c w ?i (rp_action p) ?s1"
    by (subst apply_recommendation_steps [where s = ?s0 and c = c and client = client,
          OF _ _ _ st reason refl refl])
      (use answers ok0 r in \<open>simp_all add: quiet_id [OF q]\<close>)
  moreover have nt: "\<not> terminal (t_status ?x)" by (simp add: recommendation_target_def)
  moreover have tk: "uuid4 w 1 \<in> event_ids (view ?s1)" using taken by (simp add: recommended_db_def)
  moreover obtain s2 where "settle c w ?i (rp_action p) ?s1 = (Inl IntegrityError, s2)" "committed s2 = ?db1"
    using settle_fails [where s = ?s1 and i = ?i and x = ?x and r = ?x and w = w and c = c and a = "rp_action p",
        OF _ _ nt _ _ tk] i row recommended_db_ok [OF ok0 reason, of w ?i]
    by auto
  ultimately have "dispatch c client w m ?s0 = (Inl IntegrityError, s2)" "committed s2 = ?db1"
    by (simp_all add: dispatch_def ty p py_bind_def py_lift_def raise_invalid_def)
  then have run: "consumer_handle c client w fresh arrival body s = (Inl IntegrityError, open_session s2)"
    and c2: "committed s2 = ?db1"
    using session_scope_raises [of "\<lambda>x. dispatch c client w m (x\<lparr>view := with_claim w m (view x)\<rparr>)" s]
      handle_new [OF m _ new, of client w fresh arrival] ty
    by (auto simp: HANDLED_TYPES_def)
  have "m_message_id m \<in> claimed_ids (committed (open_session s2))"
    by (simp add: c2 recommended_db_def claimed_ids_def claim_row_def)
  from handle_duplicate [OF m _ this, of client w' fresh' arrival'] ty
  have again: "\<exists>s3. consumer_handle c client w' fresh' arrival' body (open_session s2) = (Inr (), s3) \<and>
      committed s3 = committed (open_session s2)"
    by (simp add: HANDLED_TYPES_def)
  show ?thesis
    by (rule exI [of _ "open_session s2"], rule exI [of _ ?x])
      (use run again row in \<open>simp add: c2, simp add: recommended_db_def\<close>)
qed

text \<open>
  The other causes. The second transaction of the method commits as the last thing it does, so
  that when it raises, for whatever reason, it has committed nothing.
\<close>

definition raises_clean :: "unit op \<Rightarrow> bool" where
  "raises_clean m \<longleftrightarrow> (\<forall>s e s'. m s = (Inl e, s') \<longrightarrow> committed s' = committed s)"

lemma raises_cleanD: "raises_clean m \<Longrightarrow> m s = (Inl e, s') \<Longrightarrow> committed s' = committed s"
  unfolding raises_clean_def by blast

abbreviation committed_is :: "database \<Rightarrow> sess \<Rightarrow> bool" where
  "committed_is d s \<equiv> committed s = d"

named_theorems clean_intros \<open>computations that commit at their end only\<close>

lemma clean_bind [clean_intros]:
  assumes "\<And>d. keeps (committed_is d) m" and "\<And>x. raises_clean (f x)"
  shows "raises_clean (py_bind m f)"
proof -
  have same: "committed (snd (m s)) = committed s" for s using keepsD [OF assms(1)] by blast
  show ?thesis
    unfolding raises_clean_def
  proof (intro allI impI)
    fix s e s' assume run: "py_bind m f s = (Inl e, s')"
    obtain x s0 where m: "m s = (x, s0)" by fastforce
    with same [of s] have "committed s0 = committed s" by simp
    with run m assms(2) show "committed s' = committed s"
      by (cases x) (auto simp: raises_clean_def py_bind_def)
  qed
qed

lemma clean_try_lift [clean_intros]:
  "(\<And>e. raises_clean (h e)) \<Longrightarrow> (\<And>x. raises_clean (k x)) \<Longrightarrow> raises_clean (py_try (py_lift r) h k)"
  by (cases r) (simp_all add: raises_clean_def py_try_def py_lift_def)

lemma clean_return [clean_intros]: "raises_clean (py_return x)"
  by (simp add: raises_clean_def py_return_def)

lemma clean_raise [clean_intros]: "raises_clean (py_raise e)"
  by (simp add: raises_clean_def py_raise_def)

lemma clean_commit [clean_intros]: "raises_clean (commit now)"
  by (auto simp: raises_clean_def commit_def py_bind_def py_modify_def flush_def split: if_splits)

lemma keeps_committed_assign [keeps_intros]: "keeps (committed_is d) (assign i f)"
  by (simp add: keeps_def assign_def split: option.splits)

lemma keeps_committed_get [keeps_intros]: "keeps (committed_is d) (get_by_id_for_update i)"
  by (auto simp: keeps_def get_by_id_for_update_def scalar_one_or_none_def load_object_def py_bind_def py_return_def
      split: list.splits option.splits)

lemma keeps_committed_steps [keeps_intros]:
  "keeps (committed_is d) (attributes i)" "keeps (committed_is d) (inc k)" "keeps (committed_is d) (flush now)"
  by (simp_all add: keeps_def attributes_def inc_def py_modify_def flush_def split: option.splits)

lemma keeps_committed_status [keeps_intros]: "keeps (committed_is d) (change_status i to False now)"
  unfolding change_status_def Let_def if_False by (intro keeps_intros)

lemma keeps_committed_outbox [keeps_intros]: "keeps (committed_is d) (outbox_message c fresh now i m)"
  unfolding outbox_message_def outbox_add_def
  by (intro keeps_intros) (auto simp: keeps_def split: sum.splits)

lemma settle_raises_clean: "raises_clean (settle c w i a)"
  unfolding settle_def settle_locked_def
  by (intro clean_intros keeps_intros) (auto intro!: clean_intros keeps_intros split: option.split)

lemma request_cancellation_raises_clean: "raises_clean (request_cancellation c client w i reason)"
  unfolding request_cancellation_eq cancel_locked_def
  by (intro clean_intros keeps_intros) (auto intro!: clean_intros keeps_intros split: option.split)

text \<open>
  So a delivery of a recommendation that raises has committed either nothing or the claim and
  the recommendation and no more.
\<close>

lemma recommendation_raises:
  assumes m: "body_message c body m" and ty: "m_type m = RECOMMENDATION"
    and p: "recommendation_payload_validate c (m_payload m) = Some p"
    and ok: "db_ok (committed s)" and q: "quiet w"
    and fails: "consumer_handle c client w fresh arrival body s = (Inl e, s1)"
    and effect: "committed s1 \<noteq> committed s"
  shows "committed s1 = recommended_db w (rp_ticket_id p) p (with_claim w m (committed s)) \<and>
    (\<exists>r. select_by t_id (rp_ticket_id p) (tickets (committed s)) = [r] \<and> \<not> terminal (t_status r))"
proof -
  let ?i = "rp_ticket_id p" and ?db = "with_claim w m (committed s)"
  let ?s0 = "(open_session s)\<lparr>view := ?db\<rparr>"
  have new: "m_message_id m \<notin> claimed_ids (committed s)"
    using handle_duplicate [OF m, of s client w fresh arrival] ty fails by (auto simp: HANDLED_TYPES_def)
  have ok0: "db_ok ?db" by (rule with_claim_db_ok [OF ok new])
  have scope: "session_scope (\<lambda>x. dispatch c client w m (x\<lparr>view := with_claim w m (view x)\<rparr>)) s = (Inl e, s1)"
    using handle_new [OF m _ new, of client w fresh arrival] ty fails by (simp add: HANDLED_TYPES_def)
  have dispatch: "dispatch c client w m ?s0 = apply_recommendation c client w p ?s0"
    by (simp add: dispatch_def ty p py_bind_def py_lift_def raise_invalid_def)
  obtain s' where s': "apply_recommendation c client w p ?s0 = (Inl e, s')" "committed s1 = committed s'"
    using scope by (auto simp: session_scope_def py_try_def dispatch py_bind_def rollback_def py_modify_def
        py_raise_def py_return_def split: prod.splits sum.splits)
  have "unique_by t_id (tickets ?db)" using ok0 by (simp add: db_ok_def)
  then obtain r where r: "select_by t_id ?i (tickets ?db) = [r]" and st: "\<not> terminal (t_status r)"
    by (rule select_by_cases [where k = ?i])
      (use apply_recommendation_ignored [of ?s0 p c client w] s'(1) in \<open>fastforce+\<close>)
  have reason: "varchar_fits 512 (rp_reason p)"
  proof (rule ccontr)
    assume "\<not> varchar_fits 512 (rp_reason p)"
    then obtain long where "rp_reason p = Some long" "512 < length long"
      by (auto simp: varchar_fits_def split: option.splits)
    then show False
      using apply_recommendation_reason_too_long [of ?s0 p r long c client w] ok0 r st s' effect by simp
  qed
  let ?db1 = "recommended_db w ?i p ?db"
  let ?s1 = "?s0\<lparr>committed := ?db1, view := ?db1, objs := [?i \<mapsto> (held_ticket w p r, held_ticket w p r)],
      counters := counted (t_status r) (recommendation_target (rp_action p)) (counters s)\<rparr>"
  have run: "(if rolls w 0 < error_rate client then request_cancellation c client (later 1 w) ?i ''monolith_error: '' ?s1
       else settle c w ?i (rp_action p) ?s1) = (Inl e, s')"
    unfolding s'(1) [symmetric]
    by (rule apply_recommendation_steps [OF _ _ _ st reason, symmetric]) (use ok0 r in \<open>simp_all add: quiet_id [OF q]\<close>)
  have "committed s' = committed ?s1"
    using raises_cleanD [OF request_cancellation_raises_clean, of c client "later 1 w" ?i "''monolith_error: ''" ?s1 e s']
      raises_cleanD [OF settle_raises_clean, of c w ?i "rp_action p" ?s1 e s'] run
    by (cases "rolls w 0 < error_rate client") (simp_all only: if_True if_False simp_thms)
  with s'(2) r st show ?thesis by auto
qed

end
