(* ===== verification/Config.thy ===== *)
theory Config
  imports Session
begin

text \<open>
  The settings of \<^verbatim>\<open>backend/config.py\<close>: the fields with their defaults, what loading them
  demands (an \<^verbatim>\<open>api_key\<close> of at least eight characters; it has no default), and the two
  computed connection strings. Seconds and rates are reals.
\<close>

section \<open>Fields\<close>

datatype app_env = Local | Dev | Staging | Prod

record settings =
  app_name :: string
  app_environment :: app_env
  log_level :: string
  api_key :: string
  api_host :: string
  api_port :: nat
  postgres_host :: string
  postgres_port :: nat
  postgres_db :: string
  postgres_user :: string
  postgres_password :: string
  rabbitmq_host :: string
  rabbitmq_port :: nat
  rabbitmq_user :: string
  rabbitmq_password :: string
  rabbitmq_vhost :: string
  outbox_poll_interval_sec :: real
  outbox_batch_size :: nat
  rmq_max_attempts :: nat
  provider_mock_min_delay_sec :: real
  provider_mock_max_delay_sec :: real
  provider_mock_transport_error_rate :: real
  provider_mock_ack_error_rate :: real
  provider_mock_accept_probability :: real
  provider_mock_recommendation_min_delay_sec :: real
  provider_mock_recommendation_max_delay_sec :: real
  reconciler_stuck_after_sec :: int
  reconciler_poll_interval_sec :: real
  reconciler_batch_size :: nat
  ticket_recommendation_timeout_sec :: int
  inbox_retention_days :: nat
  monolith_mock_error_rate :: real
  monolith_mock_time_multiplier :: real
  probes_port :: nat
  metrics_enabled :: bool

text \<open>The settings when the environment gives nothing but the key.\<close>

definition default_settings :: "string \<Rightarrow> settings" where
  "default_settings key =
     \<lparr>app_name = ''risk-provider-integration'', app_environment = Local, log_level = ''INFO'',
      api_key = key, api_host = ''0.0.0.0'', api_port = 8000,
      postgres_host = ''postgres'', postgres_port = 5432, postgres_db = ''risk_platform'',
      postgres_user = ''risk_platform'', postgres_password = ''risk_platform'',
      rabbitmq_host = ''rabbitmq'', rabbitmq_port = 5672, rabbitmq_user = ''guest'',
      rabbitmq_password = ''guest'', rabbitmq_vhost = ''/'',
      outbox_poll_interval_sec = 1, outbox_batch_size = 50, rmq_max_attempts = 3,
      provider_mock_min_delay_sec = 5 / 100, provider_mock_max_delay_sec = 4 / 10,
      provider_mock_transport_error_rate = 5 / 100, provider_mock_ack_error_rate = 5 / 100,
      provider_mock_accept_probability = 7 / 10,
      provider_mock_recommendation_min_delay_sec = 2 / 10,
      provider_mock_recommendation_max_delay_sec = 3,
      reconciler_stuck_after_sec = 60, reconciler_poll_interval_sec = 15,
      reconciler_batch_size = 100, ticket_recommendation_timeout_sec = 30,
      inbox_retention_days = 7, monolith_mock_error_rate = 5 / 100,
      monolith_mock_time_multiplier = 1, probes_port = 8080, metrics_enabled = True\<rparr>"

definition settings_valid :: "settings \<Rightarrow> bool" where
  "settings_valid st \<longleftrightarrow> 8 \<le> length (api_key st)"

section \<open>Connection strings\<close>

definition database_url :: "settings \<Rightarrow> string" where
  "database_url st =
     ''postgresql+asyncpg://'' @ postgres_user st @ '':'' @ postgres_password st @
     ''@'' @ postgres_host st @ '':'' @ show_nat (postgres_port st) @ ''/'' @ postgres_db st"

definition rabbitmq_url :: "settings \<Rightarrow> string" where
  "rabbitmq_url st =
     (let vhost = dropWhile (\<lambda>ch. ch = CHR ''/'') (rabbitmq_vhost st)
      in ''amqp://'' @ rabbitmq_user st @ '':'' @ rabbitmq_password st @
         ''@'' @ rabbitmq_host st @ '':'' @ show_nat (rabbitmq_port st) @ ''/'' @ vhost)"

text \<open>A leading slash of the virtual host is dropped, so both spellings give one address.\<close>

lemma rabbitmq_url_slash:
  "rabbitmq_url (st\<lparr>rabbitmq_vhost := ''/'' @ v\<rparr>) = rabbitmq_url (st\<lparr>rabbitmq_vhost := v\<rparr>)"
  by (simp add: rabbitmq_url_def)

lemma default_rates [simp]:
  "provider_mock_transport_error_rate (default_settings key) = 5 / 100"
  "provider_mock_ack_error_rate (default_settings key) = 5 / 100"
  "provider_mock_accept_probability (default_settings key) = 7 / 10"
  "ticket_recommendation_timeout_sec (default_settings key) = 30"
  "reconciler_stuck_after_sec (default_settings key) = 60"
  "reconciler_batch_size (default_settings key) = 100"
  "rmq_max_attempts (default_settings key) = 3"
  by (simp_all add: default_settings_def)

end
