(* ===== verification/Mock_Provider.thy ===== *)
theory Mock_Provider
  imports Samples Config
begin

text \<open>
  The provider as the gateway sees it, \<^verbatim>\<open>backend/workers/provider_gateway/client.py\<close>: the
  contract of the abstract \<^verbatim>\<open>ProviderClient\<close> and the simulated session
  \<^verbatim>\<open>MockProviderClient\<close>, whose state is the queue of inbound messages, the answers it still
  has to push (each an asynchronous task that sleeps first), and whether it is connected.
  The values of \<^verbatim>\<open>random.random()\<close> and \<^verbatim>\<open>random.choice\<close> are arguments.
\<close>

section \<open>The contract\<close>

text \<open>
  A send returns the acknowledgement of the message that was sent, or raises: a transport
  error, or the provider's refusal of this message. A send that raises changes nothing.
\<close>

locale provider_client =
  fixes send :: "message \<Rightarrow> 'p \<Rightarrow> (exn + ack_payload) \<times> 'p"
  assumes send_ok: "fst (send m p) = Inr a \<Longrightarrow> ack_of a = m_message_id m \<and> ack_status a = ACK_OK"
    and send_error: "fst (send m p) = Inl e \<Longrightarrow>
      (\<exists>err. e = ConnectionError err) \<or>
      (\<exists>a. e = ProviderAckError a \<and> ack_of a = m_message_id m \<and> ack_status a = ACK_ERROR)"
    and send_error_state: "fst (send m p) = Inl e \<Longrightarrow> snd (send m p) = p"
begin

lemma send_cases:
  obtains (delivered) a where "fst (send m p) = Inr a" and "ack_of a = m_message_id m" and "ack_status a = ACK_OK"
  | (transport) err where "fst (send m p) = Inl (ConnectionError err)" and "snd (send m p) = p"
  | (rejected) a where "fst (send m p) = Inl (ProviderAckError a)" and "ack_of a = m_message_id m"
      and "ack_status a = ACK_ERROR" and "snd (send m p) = p"
proof (cases "fst (send m p)")
  case (Inl e)
  with send_error [OF Inl] send_error_state [OF Inl] show ?thesis using transport rejected by auto
next
  case (Inr a)
  with send_ok [OF Inr] delivered show ?thesis by auto
qed

end

section \<open>The simulated session\<close>

datatype push = PushRecommendation uuid | PushCancellationApplied uuid

record mock_provider =
  mp_inbound :: "message option list"
  mp_tasks :: "push list"
  mp_connected :: bool

definition mock_provider_new :: mock_provider where
  "mock_provider_new = \<lparr>mp_inbound = [], mp_tasks = [], mp_connected = False\<rparr>"

definition mock_start :: "mock_provider \<Rightarrow> mock_provider" where
  "mock_start p = p\<lparr>mp_connected := True\<rparr>"

text \<open>Stopping cancels the tasks and queues \<^verbatim>\<open>_CLOSED\<close> (\<open>None\<close>) behind what is there.\<close>

definition mock_stop :: "mock_provider \<Rightarrow> mock_provider" where
  "mock_stop p = p\<lparr>mp_connected := False, mp_tasks := [], mp_inbound := mp_inbound p @ [None]\<rparr>"

definition mock_is_connected :: "mock_provider \<Rightarrow> bool" where
  "mock_is_connected p = mp_connected p"

text \<open>
  \<^verbatim>\<open>__anext__\<close>: the next message; \<open>Inl\<close> of the sentinel ends the iteration; with an empty
  queue the call waits, which is the outer \<open>None\<close>.
\<close>

definition mock_next :: "mock_provider \<Rightarrow> (message option \<times> mock_provider) option" where
  "mock_next p =
     (case mp_inbound p of [] \<Rightarrow> None | x # xs \<Rightarrow> Some (x, p\<lparr>mp_inbound := xs\<rparr>))"

definition deliver_message_from_provider :: "message \<Rightarrow> mock_provider \<Rightarrow> mock_provider" where
  "deliver_message_from_provider m p = p\<lparr>mp_inbound := mp_inbound p @ [Some m]\<rparr>"

definition schedule_response :: "message \<Rightarrow> mock_provider \<Rightarrow> mock_provider" where
  "schedule_response m p =
     (case m_ticket_id m of
        None \<Rightarrow> p
      | Some i \<Rightarrow>
          if m_type m = TICKET then p\<lparr>mp_tasks := mp_tasks p @ [PushRecommendation i]\<rparr>
          else if m_type m = REQUEST_CANCELLATION
          then p\<lparr>mp_tasks := mp_tasks p @ [PushCancellationApplied i]\<rparr>
          else p)"

definition mock_send ::
  "settings \<Rightarrow> real \<Rightarrow> provider_error_code \<Rightarrow> message \<Rightarrow> mock_provider \<Rightarrow> (exn + ack_payload) \<times> mock_provider" where
  "mock_send st roll error_code m p =
     (if roll < provider_mock_transport_error_rate st
      then (Inl (ConnectionError ''mock provider: simulated transport failure''), p)
      else if roll < provider_mock_transport_error_rate st + provider_mock_ack_error_rate st
      then (Inl (ProviderAckError \<lparr>ack_of = m_message_id m, ack_status = ACK_ERROR,
              ack_error_code = Some error_code, ack_error_detail = None\<rparr>), p)
      else (Inr \<lparr>ack_of = m_message_id m, ack_status = ACK_OK,
              ack_error_code = None, ack_error_detail = None\<rparr>, schedule_response m p))"

definition mock_send_ack :: "uuid \<Rightarrow> mock_provider \<Rightarrow> mock_provider" where
  "mock_send_ack message_id p = p"

text \<open>The two answers. \<open>now\<close> dates the expiry, \<open>fresh\<close> and \<open>stamp\<close> the message.\<close>

definition recommendation_message :: "codec \<Rightarrow> settings \<Rightarrow> real \<Rightarrow> instant \<Rightarrow> uuid \<Rightarrow> instant \<Rightarrow> uuid \<Rightarrow> message" where
  "recommendation_message c st roll now fresh stamp ticket_id =
     message_build c
       (RecommendationPayload
         \<lparr>rp_ticket_id = ticket_id,
          rp_action = (if roll < provider_mock_accept_probability st then ACCEPT else DECLINE),
          rp_reason = Some ''mock risk engine decision'',
          rp_expires_at = now + timedelta_seconds (ticket_recommendation_timeout_sec st)\<rparr>)
       RECOMMENDATION None (Some ticket_id) fresh stamp"

definition cancellation_applied_message :: "codec \<Rightarrow> uuid \<Rightarrow> instant \<Rightarrow> uuid \<Rightarrow> message" where
  "cancellation_applied_message c fresh stamp ticket_id =
     message_build c (CancellationAppliedPayload \<lparr>ca_ticket_id = ticket_id\<rparr>)
       CANCELLATION_APPLIED None (Some ticket_id) fresh stamp"

definition push_recommendation ::
  "codec \<Rightarrow> settings \<Rightarrow> real \<Rightarrow> instant \<Rightarrow> uuid \<Rightarrow> instant \<Rightarrow> uuid \<Rightarrow> mock_provider \<Rightarrow> mock_provider" where
  "push_recommendation c st roll now fresh stamp ticket_id p =
     deliver_message_from_provider (recommendation_message c st roll now fresh stamp ticket_id) p"

definition push_cancellation_applied :: "codec \<Rightarrow> uuid \<Rightarrow> instant \<Rightarrow> uuid \<Rightarrow> mock_provider \<Rightarrow> mock_provider" where
  "push_cancellation_applied c fresh stamp ticket_id p =
     deliver_message_from_provider (cancellation_applied_message c fresh stamp ticket_id) p"

text \<open>The task at position \<open>k\<close> wakes up: it leaves the set of tasks and pushes its answer.\<close>

definition mock_wake ::
  "codec \<Rightarrow> settings \<Rightarrow> real \<Rightarrow> instant \<Rightarrow> uuid \<Rightarrow> instant \<Rightarrow> nat \<Rightarrow> mock_provider \<Rightarrow> mock_provider" where
  "mock_wake c st roll now fresh stamp k p =
     (if k < length (mp_tasks p)
      then let q = p\<lparr>mp_tasks := take k (mp_tasks p) @ drop (k + 1) (mp_tasks p)\<rparr>
           in (case mp_tasks p ! k of
                 PushRecommendation i \<Rightarrow> push_recommendation c st roll now fresh stamp i q
               | PushCancellationApplied i \<Rightarrow> push_cancellation_applied c fresh stamp i q)
      else p)"

interpretation mock: provider_client "mock_send st roll error_code" for st roll error_code
  by unfold_locales (auto simp: mock_send_def split: if_splits)

section \<open>What the session answers\<close>

text \<open>A message that validates answers with the same ticket; the others are answered by nothing.\<close>

lemma schedule_response_tasks:
  "mp_tasks (schedule_response m p) = mp_tasks p @
     (case (m_ticket_id m, m_type m) of
        (Some i, TICKET) \<Rightarrow> [PushRecommendation i]
      | (Some i, REQUEST_CANCELLATION) \<Rightarrow> [PushCancellationApplied i]
      | _ \<Rightarrow> [])"
  by (cases "m_type m") (simp_all add: schedule_response_def split: option.splits)

lemma schedule_response_inbound [simp]: "mp_inbound (schedule_response m p) = mp_inbound p"
  by (simp add: schedule_response_def split: option.splits)

lemma recommendation_message_reads:
  assumes "codec_ok c"
  shows "message_validate c f t (message_dump c (recommendation_message c st roll now fresh stamp i)) =
      Some (recommendation_message c st roll now fresh stamp i)"
    and "recommendation_payload_validate c (m_payload (recommendation_message c st roll now fresh stamp i)) =
      Some \<lparr>rp_ticket_id = i,
          rp_action = (if roll < provider_mock_accept_probability st then ACCEPT else DECLINE),
          rp_reason = Some ''mock risk engine decision'',
          rp_expires_at = now + timedelta_seconds (ticket_recommendation_timeout_sec st)\<rparr>"
  using codec_reads(1) [OF assms]
    codec_reads(5) [OF assms]
  by (simp_all add: recommendation_message_def message_build_def del: payload_dump.simps)

text \<open>
  The provider answers a ticket. After a \<open>TICKET\<close> was sent successfully, the answer's
  task, whenever it wakes up, puts exactly one message behind those waiting: a
  \<open>RECOMMENDATION\<close> for the same ticket that the consumer can read back, whose reason fits
  its column and which expires after the configured time.
\<close>

theorem provider_answers_ticket:
  assumes c: "codec_ok c" and ty: "m_type m = TICKET" and i: "m_ticket_id m = Some i"
    and sent: "mock_send st roll code m p = (Inr a, q)"
  shows "\<exists>reply rec. mock_wake c st roll' now fresh stamp (length (mp_tasks p)) q =
      p\<lparr>mp_inbound := mp_inbound p @ [Some reply]\<rparr> \<and>
    message_validate c f t (message_dump c reply) = Some reply \<and>
    m_type reply = RECOMMENDATION \<and> m_ticket_id reply = Some i \<and>
    recommendation_payload_validate c (m_payload reply) = Some rec \<and>
    rp_ticket_id rec = i \<and> varchar_fits 512 (rp_reason rec) \<and>
    rp_expires_at rec = now + timedelta_seconds (ticket_recommendation_timeout_sec st)"
proof -
  have q: "q = schedule_response m p" using sent by (auto simp: mock_send_def split: if_splits)
  let ?r = "recommendation_message c st roll' now fresh stamp i"
  have "mock_wake c st roll' now fresh stamp (length (mp_tasks p)) q = p\<lparr>mp_inbound := mp_inbound p @ [Some ?r]\<rparr>"
    by (cases p) (simp add: mock_wake_def q schedule_response_def i ty push_recommendation_def
        deliver_message_from_provider_def)
  moreover have "m_type ?r = RECOMMENDATION" "m_ticket_id ?r = Some i"
    by (simp_all add: recommendation_message_def message_build_def del: payload_dump.simps)
  ultimately show ?thesis
    using recommendation_message_reads(1) [OF c, of f t st roll' now fresh stamp i]
      recommendation_message_reads(2) [OF c, of st roll' now fresh stamp i]
    by (intro exI [of _ ?r]) (auto simp: varchar_fits_def)
qed

definition sample_ticket_message :: message where
  "sample_ticket_message =
     \<lparr>m_message_id = 31, m_ticket_id = Some 7, m_type = TICKET, m_timestamp = 0, m_payload = []\<rparr>"

theorem provider_answers_ticket_witness:
  "\<exists>q reply. mock_send (default_settings ''k'') (1 / 2) PROVIDER_BUSY sample_ticket_message
      (mock_start mock_provider_new) = (Inr \<lparr>ack_of = 31, ack_status = ACK_OK, ack_error_code = None,
        ack_error_detail = None\<rparr>, q) \<and>
    mp_inbound (mock_wake ref_codec (default_settings ''k'') 0 0 5 6 0 q) = [Some reply] \<and>
    m_type reply = RECOMMENDATION"
proof -
  let ?p = "mock_start mock_provider_new"
  have sent: "mock_send (default_settings ''k'') (1 / 2) PROVIDER_BUSY sample_ticket_message ?p =
    (Inr \<lparr>ack_of = 31, ack_status = ACK_OK, ack_error_code = None, ack_error_detail = None\<rparr>,
     schedule_response sample_ticket_message ?p)"
    by (simp add: mock_send_def sample_ticket_message_def)
  have p: "mp_tasks ?p = []" "mp_inbound ?p = []" by (simp_all add: mock_start_def mock_provider_new_def)
  obtain reply where "mock_wake ref_codec (default_settings ''k'') 0 0 5 6 (length (mp_tasks ?p))
      (schedule_response sample_ticket_message ?p) = ?p\<lparr>mp_inbound := mp_inbound ?p @ [Some reply]\<rparr>"
    "m_type reply = RECOMMENDATION"
    using provider_answers_ticket [OF ref_codec_ok _ _ sent, where i = 7 and roll' = 0 and now = 0
        and fresh = 5 and stamp = 6 and f = 0 and t = 0]
    by (auto simp: sample_ticket_message_def)
  with sent p show ?thesis by auto
qed

end
