(* ===== verification/Gateway_Worker.thy ===== *)
theory Gateway_Worker
  imports Mock_Provider Outbox_Service
begin

text \<open>
  The gateway, \<^verbatim>\<open>backend/workers/provider_gateway/worker.py\<close>: messages from the outbound
  queue are sent to the provider, and what its acknowledgement means for the ticket is
  written; messages from the provider are published to the inbound queue and acknowledged.
\<close>

section \<open>To the provider\<close>

definition success_target :: "provider_message_type \<Rightarrow> ticket_status option" where
  "success_target ty =
     (if ty = TICKET then Some SENT_TO_PROVIDER
      else if ty = CONFIRM_RECOMMENDATION then Some CONFIRMED
      else if ty = DECLINE_RECOMMENDATION then Some DECLINED
      else None)"

definition assign_target :: "ambient \<Rightarrow> uuid \<Rightarrow> ticket_status \<Rightarrow> unit op" where
  "assign_target w i target =
     py_bind (assign i (\<lambda>t. t\<lparr>t_status := target\<rparr>)) (\<lambda>_.
     if target = CONFIRMED \<or> target = DECLINED
     then assign i (\<lambda>t. t\<lparr>t_confirmed_at :=
            (case t_confirmed_at t of Some x \<Rightarrow> Some x | None \<Rightarrow> Some (clock w 0))\<rparr>)
     else py_return ())"

text \<open>The unit of work; \<open>Some previous\<close> is the status before a change that was committed.\<close>

definition move_ticket :: "ambient \<Rightarrow> uuid \<Rightarrow> ticket_status \<Rightarrow> ticket_status option op" where
  "move_ticket w ticket_id target = session_scope (
     py_bind (get_by_id_for_update ticket_id) (\<lambda>ticket.
     case ticket of
       None \<Rightarrow> py_return None
     | Some t \<Rightarrow>
         if t_status t \<in> TERMINAL_TICKET_STATUSES then py_return None
         else if target = SENT_TO_PROVIDER \<and> t_status t \<noteq> NEW then py_return None
         else
           py_bind (assign_target w (t_id t) target) (\<lambda>_.
           py_bind (commit (db_clock w 0)) (\<lambda>_.
           py_return (Some (t_status t))))))"

definition handle_message_success_ack :: "ambient \<Rightarrow> message \<Rightarrow> unit op" where
  "handle_message_success_ack w m =
     (case m_ticket_id m of
        None \<Rightarrow> py_return ()
      | Some i \<Rightarrow>
          (case success_target (m_type m) of
             None \<Rightarrow> py_return ()
           | Some target \<Rightarrow>
               py_bind (move_ticket w i target) (\<lambda>previous.
               case previous of
                 None \<Rightarrow> py_return ()
               | Some st \<Rightarrow> inc (StateTransition (ticket_status_value st) (ticket_status_value target)))))"

definition handle_message_rejection :: "message \<Rightarrow> ack_payload \<Rightarrow> unit op" where
  "handle_message_rejection m ack = py_return ()"

text \<open>\<open>send\<close> is what the provider's \<^verbatim>\<open>send\<close> does with the message: it returns or raises.\<close>

definition send_to_provider ::
  "codec \<Rightarrow> (message \<Rightarrow> exn + ack_payload) \<Rightarrow> ambient \<Rightarrow> uuid \<Rightarrow> instant \<Rightarrow> dict \<Rightarrow> unit op" where
  "send_to_provider c send w fresh arrival body =
     py_bind (py_lift (raise_invalid (message_validate c fresh arrival body))) (\<lambda>m.
     py_try (py_lift (send m))
       (\<lambda>e. case e of ProviderAckError a \<Rightarrow> handle_message_rejection m a | _ \<Rightarrow> py_raise e)
       (\<lambda>_. handle_message_success_ack w m))"

section \<open>From the provider\<close>

definition inbound_frame :: "codec \<Rightarrow> message \<Rightarrow> frame" where
  "inbound_frame c m =
     \<lparr>f_body = message_dump c m, f_exchange = top_tickets_exchange TOPOLOGY,
      f_routing_key = top_provider_in_routing_key TOPOLOGY,
      f_headers = [(''provider_message_id'', uuid_str (m_message_id m)),
                   (''provider_message_type'', provider_message_type_value (m_type m))],
      f_message_id = uuid_str (m_message_id m)\<rparr>"

text \<open>
  \<^verbatim>\<open>_recieve_from_provider\<close> on the items the provider's queue yields (\<open>None\<close> ends the
  iteration): the identifiers acknowledged, how the loop stands, and the items it has not
  read. A frame that could not be published ends the loop; \<^verbatim>\<open>send_ack\<close> may fail.
\<close>

datatype loop_end = Waiting | Closed | Returned

fun receive_from_provider ::
  "codec \<Rightarrow> (frame \<Rightarrow> string + unit) \<Rightarrow> (uuid \<Rightarrow> exn + unit) \<Rightarrow> message option list \<Rightarrow>
   (uuid list \<times> loop_end \<times> message option list) op" where
  "receive_from_provider c publish ack [] = py_return ([], Waiting, [])"
| "receive_from_provider c publish ack (None # items) = py_return ([], Closed, items)"
| "receive_from_provider c publish ack (Some m # items) =
     py_try (broker_publish publish (inbound_frame c m))
       (\<lambda>e. py_return ([], Returned, items))
       (\<lambda>_. py_try (py_lift (ack (m_message_id m)))
               (\<lambda>e. receive_from_provider c publish ack items)
               (\<lambda>_. py_bind (receive_from_provider c publish ack items) (\<lambda>(ids, how, unread).
                     py_return (m_message_id m # ids, how, unread))))"

section \<open>The effect of an acknowledgement\<close>

definition moved_ticket :: "ambient \<Rightarrow> ticket_status \<Rightarrow> ticket \<Rightarrow> ticket" where
  "moved_ticket w target t =
     t\<lparr>t_status := target,
       t_confirmed_at := (if target = CONFIRMED \<or> target = DECLINED
         then (case t_confirmed_at t of Some x \<Rightarrow> Some x | None \<Rightarrow> Some (clock w 0))
         else t_confirmed_at t),
       t_updated_at := db_clock w 0\<rparr>"

definition moves :: "ticket_status \<Rightarrow> ticket_status \<Rightarrow> bool" where
  "moves target st \<longleftrightarrow> \<not> terminal st \<and> (target = SENT_TO_PROVIDER \<longrightarrow> st = NEW)"

lemma move_ticket_effect:
  assumes ok: "db_ok (committed s)" and r: "select_by t_id i (tickets (committed s)) = [r]"
    and m: "moves target (t_status r)" and ne: "target \<noteq> t_status r"
  shows "\<exists>s'. move_ticket w i target s = (Inr (Some (t_status r)), s') \<and>
    committed s' = rewrite_ticket i (moved_ticket w target) (committed s) \<and>
    view s' = committed s' \<and> counters s' = counters s \<and> published s' = published s"
proof -
  let ?now = "db_clock w 0"
  let ?c = "r\<lparr>t_status := target,
       t_confirmed_at := (if target = CONFIRMED \<or> target = DECLINED
         then (case t_confirmed_at r of Some x \<Rightarrow> Some x | None \<Rightarrow> Some (clock w 0))
         else t_confirmed_at r)\<rparr>"
  let ?s1 = "(open_session s)\<lparr>objs := [i \<mapsto> (r, ?c)]\<rparr>"
  have i: "t_id r = i" using r by (rule select_member)
  have g: "get_by_id_for_update i (open_session s) = (Inr (Some r), (open_session s)\<lparr>objs := [i \<mapsto> (r, r)]\<rparr>)"
    using get_fresh [of i "open_session s" r] r i by (simp add: open_session_def)
  have fits: "ticket_columns_fit (write_back ?now r ?c q)" if "q \<in> set (tickets (committed s))" for q
    using rows_fit [OF ok that] by (intro write_back_fits) simp_all
  have "?c \<noteq> r" using ne by (metis ticket.select_convs(7) ticket.surjective ticket.update_convs(7,12))
  then have wb: "write_back ?now r ?c r = moved_ticket w target r"
    by (simp add: write_back_fresh moved_ticket_def)
  have rows: "update_where (\<lambda>q. t_id q = i) (write_back ?now r ?c) (tickets (committed s)) =
      update_where (\<lambda>q. t_id q = i) (moved_ticket w target) (tickets (committed s))"
    using rewrite_row [OF r] wb by blast
  have fl: "flush ?now ?s1 = (Inr (), ?s1\<lparr>view := rewrite_ticket i (moved_ticket w target) (committed s),
      objs := [i \<mapsto> flushed_object ?now (r, ?c)]\<rparr>)"
    by (subst flush_one [of i _ r ?c]) (use fits in \<open>simp_all add: clean_except_def open_session_def rows\<close>)
  have body: "assign_target w i target ((open_session s)\<lparr>objs := [i \<mapsto> (r, r)]\<rparr>) = (Inr (), ?s1)"
    by (simp add: assign_target_def py_bind_def assign_def py_return_def)
  have get: "py_bind (get_by_id_for_update i) f (open_session s) =
      f (Some r) ((open_session s)\<lparr>objs := [i \<mapsto> (r, r)]\<rparr>)" for f :: "_ \<Rightarrow> ticket_status option op"
    by (simp add: py_bind_def g)
  show ?thesis
    using m by (simp add: move_ticket_def session_scope_def py_try_def get moves_def i)
      (simp add: py_bind_def body commit_after_flush [OF fl] py_return_def py_modify_def)
qed

end
