(* ===== verification/Gateway_Properties.thy ===== *)
theory Gateway_Properties
  imports Gateway_Worker
begin

text \<open>
  The promises of the gateway: what the provider's acknowledgement of each kind of message
  does to the ticket, what a refusal and a transport error do, and that a frame from the
  provider is acknowledged only after the broker took it.
\<close>

section \<open>Acknowledged messages\<close>

lemma send_to_provider_ok:
  assumes m: "message_validate c fresh arrival body = Some m" and sent: "send m = Inr a"
  shows "send_to_provider c send w fresh arrival body s = handle_message_success_ack w m s"
  using assms by (simp add: send_to_provider_def py_bind_def py_lift_def raise_invalid_def py_try_def)

text \<open>
  C21: the provider acknowledges a message that finishes a step of its ticket: the ticket of
  a \<open>TICKET\<close> that is still \<open>NEW\<close> becomes \<open>SENT_TO_PROVIDER\<close>; the ticket of a confirmation or
  a decline, in whatever status that is not final (\<open>CANCELLATION_REQUESTED\<close> included),
  becomes \<open>CONFIRMED\<close> or \<open>DECLINED\<close> and keeps the first time of confirmation. No other
  ticket and no other table changes, and the transition is counted.
\<close>

theorem gateway_ack_moves_ticket:
  assumes m: "message_validate c fresh arrival body = Some m" and sent: "send m = Inr a"
    and i: "m_ticket_id m = Some i" and target: "success_target (m_type m) = Some target"
    and ok: "db_ok (committed s)" and r: "select_by t_id i (tickets (committed s)) = [r]"
    and st: "moves target (t_status r)"
  shows "\<exists>s' r'. send_to_provider c send w fresh arrival body s = (Inr (), s') \<and>
    select_by t_id i (tickets (committed s')) = [r'] \<and> t_status r' = target \<and>
    t_confirmed_at r' = (if target = SENT_TO_PROVIDER then t_confirmed_at r
      else (case t_confirmed_at r of Some x \<Rightarrow> Some x | None \<Rightarrow> Some (clock w 0))) \<and>
    (\<forall>j. j \<noteq> i \<longrightarrow> select_by t_id j (tickets (committed s')) = select_by t_id j (tickets (committed s))) \<and>
    outbox_events (committed s') = outbox_events (committed s) \<and>
    processed (committed s') = processed (committed s) \<and>
    counters s' = counted (t_status r) target (counters s)"
proof -
  have cases: "target = SENT_TO_PROVIDER \<or> target = CONFIRMED \<or> target = DECLINED"
    using target by (auto simp: success_target_def split: if_splits)
  then have ne: "target \<noteq> t_status r" using st by (auto simp: moves_def)
  obtain s1 where s1: "move_ticket w i target s = (Inr (Some (t_status r)), s1)"
    "committed s1 = rewrite_ticket i (moved_ticket w target) (committed s)" "counters s1 = counters s"
    using move_ticket_effect [OF ok r st ne, of w] by auto
  let ?s' = "s1\<lparr>counters := counted (t_status r) target (counters s)\<rparr>"
  have run: "send_to_provider c send w fresh arrival body s = (Inr (), ?s')"
    using ne by (simp add: send_to_provider_ok [where send = send, OF m sent] handle_message_success_ack_def i target py_bind_def s1
        inc_def py_modify_def counted_def Let_def)
  have mid: "t_id (moved_ticket w target q) = t_id q" for q by (simp add: moved_ticket_def)
  have row: "select_by t_id i (tickets (committed ?s')) = [moved_ticket w target r]"
    using select_rewritten [OF r mid] by (simp add: s1)
  have rest: "select_by t_id j (tickets (committed ?s')) = select_by t_id j (tickets (committed s))" if "j \<noteq> i" for j
    using select_not_rewritten [OF that mid] by (simp add: s1)
  show ?thesis
    by (rule exI [of _ ?s'], rule exI [of _ "moved_ticket w target r"])
      (use cases run row rest in \<open>auto simp: s1 moved_ticket_def\<close>)
qed

theorem gateway_ack_moves_ticket_witness:
  "\<exists>s' r'. send_to_provider ref_codec (\<lambda>m. Inr \<lparr>ack_of = m_message_id m, ack_status = ACK_OK,
        ack_error_code = None, ack_error_detail = None\<rparr>) (sample_ambient 0 id) 0 0
      (message_dump ref_codec (build_ack_message ref_codec 5 6 (sample_ticket SETTLED) ACCEPT))
      (session_on (sample_db CANCELLATION_REQUESTED)) = (Inr (), s') \<and>
    select_by t_id 7 (tickets (committed s')) = [r'] \<and> t_status r' = CONFIRMED"
proof -
  let ?m = "build_ack_message ref_codec 5 6 (sample_ticket SETTLED) ACCEPT"
  have "m_type ?m = CONFIRM_RECOMMENDATION" "m_ticket_id ?m = Some 7"
    by (simp_all add: build_ack_message_def message_build_def)
  then show ?thesis
    using gateway_ack_moves_ticket [OF ref.message_roundtrip [of 0 0 ?m], of
        "\<lambda>m. Inr \<lparr>ack_of = m_message_id m, ack_status = ACK_OK, ack_error_code = None, ack_error_detail = None\<rparr>"
        _ 7 CONFIRMED "session_on (sample_db CANCELLATION_REQUESTED)" "sample_ticket CANCELLATION_REQUESTED"
        "sample_ambient 0 id"]
    by (auto simp: success_target_def moves_def)
qed

text \<open>
  An acknowledgement that finishes nothing changes no table and no counter: the message
  names no ticket, its type moves none (a cancellation request among them), the ticket is
  unknown or final, or it is a \<open>TICKET\<close> whose ticket has already left \<open>NEW\<close>.
\<close>

theorem gateway_ack_without_effect:
  assumes m: "message_validate c fresh arrival body = Some m" and sent: "send m = Inr a"
    and ok: "db_ok (committed s)"
    and none: "\<And>i target r. m_ticket_id m = Some i \<Longrightarrow> success_target (m_type m) = Some target \<Longrightarrow>
        r \<in> set (tickets (committed s)) \<Longrightarrow> t_id r = i \<Longrightarrow> \<not> moves target (t_status r)"
  shows "\<exists>s'. send_to_provider c send w fresh arrival body s = (Inr (), s') \<and>
    committed s' = committed s \<and> counters s' = counters s \<and> published s' = published s"
proof (cases "m_ticket_id m")
  case None
  then show ?thesis
    by (simp add: send_to_provider_ok [where send = send, OF m sent] handle_message_success_ack_def py_return_def)
next
  case (Some i)
  show ?thesis
  proof (cases "success_target (m_type m)")
    case None
    with Some show ?thesis
      by (simp add: send_to_provider_ok [where send = send, OF m sent] handle_message_success_ack_def py_return_def)
  next
    case target: (Some target)
    have "unique_by t_id (tickets (committed s))" using ok by (simp add: db_ok_def)
    then have "\<exists>s'. move_ticket w i target s = (Inr None, s') \<and>
      committed s' = committed s \<and> counters s' = counters s \<and> published s' = published s"
    proof (cases rule: select_by_cases [where k = i])
      case none
      then show ?thesis
        using get_missing [of i "open_session s"]
        by (simp add: move_ticket_def session_scope_def py_try_def py_bind_def py_return_def py_modify_def)
    next
      case (one r)
      then have "\<not> moves target (t_status r)" using none [OF Some target] by blast
      with one show ?thesis
        using get_fresh [of i "open_session s" r]
        by (auto simp: move_ticket_def session_scope_def py_try_def py_bind_def py_return_def py_modify_def
            moves_def)
    qed
    with Some target show ?thesis
      by (auto simp: send_to_provider_ok [where send = send, OF m sent] handle_message_success_ack_def py_bind_def py_return_def)
  qed
qed

theorem gateway_ack_without_effect_witness:
  "\<exists>s'. send_to_provider ref_codec (\<lambda>m. Inr \<lparr>ack_of = m_message_id m, ack_status = ACK_OK,
        ack_error_code = None, ack_error_detail = None\<rparr>) (sample_ambient 0 id) 0 0
      (message_dump ref_codec sample_ticket_message) (session_on (sample_db RECOMMENDED_CONFIRM)) = (Inr (), s') \<and>
    committed s' = sample_db RECOMMENDED_CONFIRM"
  using gateway_ack_without_effect [OF ref.message_roundtrip [of 0 0 sample_ticket_message], of
      "\<lambda>m. Inr \<lparr>ack_of = m_message_id m, ack_status = ACK_OK, ack_error_code = None, ack_error_detail = None\<rparr>"
      _ "session_on (sample_db RECOMMENDED_CONFIRM)" "sample_ambient 0 id"]
  by (auto simp: sample_ticket_message_def success_target_def moves_def)

section \<open>Messages that were not acknowledged\<close>

text \<open>With any provider: a send that fails is a refusal, which is consumed, or is raised.\<close>

context provider_client
begin

lemma gateway_failed:
  assumes m: "message_validate c fresh arrival body = Some m" and fails: "fst (send m p) = Inl e"
  shows "send_to_provider c (\<lambda>m. fst (send m p)) w fresh arrival body s =
      (if \<exists>a. e = ProviderAckError a then Inr () else Inl e, s)"
    and "snd (send m p) = p" and "(\<exists>why. e = ConnectionError why) \<or> (\<exists>a. e = ProviderAckError a \<and> ack_of a = m_message_id m)"
proof -
  show "snd (send m p) = p" by (rule send_error_state [OF fails])
  show "(\<exists>why. e = ConnectionError why) \<or> (\<exists>a. e = ProviderAckError a \<and> ack_of a = m_message_id m)"
    using send_error [OF fails] by blast
  then show "send_to_provider c (\<lambda>m. fst (send m p)) w fresh arrival body s =
      (if \<exists>a. e = ProviderAckError a then Inr () else Inl e, s)"
    using fails by (auto simp: send_to_provider_def m py_bind_def py_lift_def raise_invalid_def py_try_def
      handle_message_rejection_def py_raise_def py_return_def)
qed

end

text \<open>
  The two failures. With the simulated provider a refused message is consumed: the
  handler returns normally, so the broker does not deliver it again, and neither the ticket
  nor anything else records the refusal. Every other failure of the send is raised to the
  broker. Neither changes any table or counter.
\<close>

theorem gateway_failed_send:
  assumes m: "message_validate c fresh arrival body = Some m"
    and fails: "fst (mock_send st roll code m p) = Inl e"
  shows "send_to_provider c (\<lambda>m. fst (mock_send st roll code m p)) w fresh arrival body s =
      (if roll < provider_mock_transport_error_rate st
       then Inl (ConnectionError ''mock provider: simulated transport failure'') else Inr (), s) \<and>
    snd (mock_send st roll code m p) = p"
  using mock.gateway_failed(1,2) [OF m fails] fails
  by (auto simp: mock_send_def split: if_splits)

theorem gateway_failed_send_witness:
  "send_to_provider ref_codec (\<lambda>m. fst (mock_send (default_settings ''k'') (7 / 100) PROVIDER_BUSY m mock_provider_new))
      (sample_ambient 0 id) 0 0 (message_dump ref_codec sample_ticket_message) (session_on (sample_db NEW)) =
    (Inr (), session_on (sample_db NEW))"
  using gateway_failed_send [OF ref.message_roundtrip [of 0 0 sample_ticket_message], of "default_settings ''k''"
      "7 / 100" PROVIDER_BUSY mock_provider_new]
  by (simp add: mock_send_def)

section \<open>Frames from the provider\<close>

lemma receive_accepted:
  assumes "\<forall>m \<in> set ms. publish (inbound_frame c m) = Inr ()"
  shows "receive_from_provider c publish ack (map Some ms @ items) s =
    (case receive_from_provider c publish ack items
        (s\<lparr>published := published s @ map (inbound_frame c) ms\<rparr>) of
       (Inl e, s') \<Rightarrow> (Inl e, s')
     | (Inr (ids, how, unread), s') \<Rightarrow>
         (Inr (map m_message_id (filter (\<lambda>m. ack (m_message_id m) = Inr ()) ms) @ ids, how, unread), s'))"
  using assms
proof (induction ms arbitrary: s)
  case Nil
  then show ?case by (simp split: prod.splits sum.splits)
next
  case (Cons m ms)
  then show ?case
    by (cases "ack (m_message_id m)")
      (auto simp: py_try_def py_bind_def py_lift_def py_return_def broker_publish_def split: prod.splits sum.splits)
qed

text \<open>
  C27: what the receiving loop does with the messages the provider's queue yields. As long
  as the broker takes them, each is published to the inbound queue in the order of arrival
  and then acknowledged (an acknowledgement that fails is skipped). The first one the broker
  refuses is not acknowledged and ends the loop: nothing after it is ever read.
\<close>

theorem receive_acks_published:
  assumes taken: "\<forall>m \<in> set ms. publish (inbound_frame c m) = Inr ()"
    and refused: "publish (inbound_frame c m) = Inl err"
  shows "receive_from_provider c publish ack (map Some ms @ Some m # items) s =
    (Inr (map m_message_id (filter (\<lambda>m. ack (m_message_id m) = Inr ()) ms), Returned, items),
     s\<lparr>published := published s @ map (inbound_frame c) ms\<rparr>)"
  by (subst receive_accepted [OF taken]) (simp add: py_try_def broker_publish_def refused py_return_def)

theorem receive_acks_published_witness:
  "receive_from_provider ref_codec
      (\<lambda>f. if f_body f = message_dump ref_codec sample_ticket_message then Inr () else Inl ''down'')
      (\<lambda>_. Inr ())
      [Some sample_ticket_message, Some (sample_ticket_message\<lparr>m_type := ACK\<rparr>), Some sample_ticket_message]
      (session_on empty_db) =
    (Inr ([31], Returned, [Some sample_ticket_message]),
     (session_on empty_db)\<lparr>published := [inbound_frame ref_codec sample_ticket_message]\<rparr>)"
proof -
  have ne: "message_dump ref_codec (sample_ticket_message\<lparr>m_type := ACK\<rparr>) \<noteq> message_dump ref_codec sample_ticket_message"
    by (simp add: message_dump_def sample_ticket_message_def)
  show ?thesis
    using receive_acks_published [of "[sample_ticket_message]"
        "\<lambda>f. if f_body f = message_dump ref_codec sample_ticket_message then Inr () else Inl ''down''"
        ref_codec "sample_ticket_message\<lparr>m_type := ACK\<rparr>" "''down''" "\<lambda>_. Inr ()" "[Some sample_ticket_message]"
        "session_on empty_db"] ne
    by (simp add: inbound_frame_def) (simp add: sample_ticket_message_def)
qed

end
