(* ===== verification/Reconciler.thy ===== *)
theory Reconciler
  imports Samples Config
begin

text \<open>
  The reconciler, \<^verbatim>\<open>backend/workers/reconciler/worker.py\<close>: a periodic task that asks the
  provider to cancel the tickets that have not moved for some time. One pass selects the
  stuck tickets, locking them, and requests the cancellation of each; every request
  commits, which also releases the locks on the tickets still to come.
\<close>

section \<open>One pass\<close>

definition stuck_reason :: "ticket_status \<Rightarrow> string" where
  "stuck_reason previous = ''reconciler: stuck in '' @ ticket_status_value previous"

text \<open>
  The handler of a failed request logs \<^verbatim>\<open>ticket.id\<close>. When the failure came from the
  database, the session's transaction has been rolled back with all objects expired, and
  reading the attribute raises in its turn.
\<close>

definition database_error :: "exn \<Rightarrow> bool" where
  "database_error e \<longleftrightarrow> e = IntegrityError \<or> e = DataError"

definition recover_one :: "codec \<Rightarrow> fake_monolith \<Rightarrow> ambient \<Rightarrow> uuid \<Rightarrow> unit op" where
  "recover_one c client w i =
     py_bind (attributes i) (\<lambda>t.
     let previous = t_status t in
     py_try (request_cancellation c client w i (stuck_reason previous))
       (\<lambda>e. if database_error e then py_raise (OtherError ''PendingRollbackError'') else py_return ())
       (\<lambda>_. inc (StuckRecovered (ticket_status_value previous) ''cancel'')))"

fun recover_each :: "codec \<Rightarrow> fake_monolith \<Rightarrow> ambient \<Rightarrow> uuid list \<Rightarrow> unit op" where
  "recover_each c client w [] = py_return ()"
| "recover_each c client w (i # is) =
     py_bind (recover_one c client w i) (\<lambda>_.
     py_bind (interfere (others w 0)) (\<lambda>_.
     recover_each c client (later 2 w) is))"

record reconciler =
  rc_stuck_after_sec :: int
  rc_batch_size :: nat

definition reconciler_worker :: "settings \<Rightarrow> reconciler" where
  "reconciler_worker st =
     \<lparr>rc_stuck_after_sec = reconciler_stuck_after_sec st, rc_batch_size = reconciler_batch_size st\<rparr>"

definition recover_batch ::
  "codec \<Rightarrow> fake_monolith \<Rightarrow> reconciler \<Rightarrow> ambient \<Rightarrow> (uuid \<Rightarrow> bool) \<Rightarrow> instant \<Rightarrow> unit op" where
  "recover_batch c client rc w locked threshold =
     py_bind (find_stuck threshold (rc_batch_size rc) locked) (\<lambda>stuck.
     recover_each c client (later 1 w) (map t_id stuck))"

definition recover_stuck_tickets ::
  "codec \<Rightarrow> fake_monolith \<Rightarrow> reconciler \<Rightarrow> ambient \<Rightarrow> (uuid \<Rightarrow> bool) \<Rightarrow> unit op" where
  "recover_stuck_tickets c client rc w locked =
     (let threshold = clock w 0 - timedelta_seconds (rc_stuck_after_sec rc) in
      session_scope (recover_batch c client rc w locked threshold))"

section \<open>The loop\<close>

text \<open>
  \<open>tk_stop\<close>: \<^verbatim>\<open>request_stop\<close> is called during this tick or the wait after it. An exception of
  a tick is logged and the loop goes on. The loop is cut after the ticks given.
\<close>

record tick =
  tk_ambient :: ambient
  tk_locked :: "uuid \<Rightarrow> bool"
  tk_stop :: bool

definition tick_once :: "codec \<Rightarrow> fake_monolith \<Rightarrow> reconciler \<Rightarrow> tick \<Rightarrow> unit op" where
  "tick_once c client rc t = recover_stuck_tickets c client rc (tk_ambient t) (tk_locked t)"

fun reconciler_run :: "codec \<Rightarrow> fake_monolith \<Rightarrow> reconciler \<Rightarrow> bool \<Rightarrow> tick list \<Rightarrow> nat op" where
  "reconciler_run c client rc stop [] = py_return 0"
| "reconciler_run c client rc stop (t # ts) =
     (if stop then py_return 0
      else py_try (tick_once c client rc t)
             (\<lambda>e. py_bind (reconciler_run c client rc (tk_stop t) ts) (\<lambda>n. py_return (n + 1)))
             (\<lambda>_. py_bind (reconciler_run c client rc (tk_stop t) ts) (\<lambda>n. py_return (n + 1))))"

section \<open>What a pass does\<close>

text \<open>The database after the requests for the rows \<open>rs\<close>, when nothing interferes.\<close>

fun recovered_db :: "codec \<Rightarrow> ambient \<Rightarrow> ticket list \<Rightarrow> database \<Rightarrow> database" where
  "recovered_db c w [] db = db"
| "recovered_db c w (r # rs) db =
     recovered_db c (later 2 w) rs (held_cancelled_db c w r (stuck_reason (t_status r)) db)"

text \<open>Identifiers for the outbox entries of \<open>n\<close> requests, distinct and not yet in the table.\<close>

definition fresh_ids :: "ambient \<Rightarrow> nat \<Rightarrow> uuid set \<Rightarrow> bool" where
  "fresh_ids w n used \<longleftrightarrow>
     distinct (map (\<lambda>k. uuid4 w (2 * k + 1)) [0..<n]) \<and> (\<forall>k < n. uuid4 w (2 * k + 1) \<notin> used)"

lemma fresh_ids_step:
  assumes "fresh_ids w (Suc n) used"
  shows "uuid4 w 1 \<notin> used" and "fresh_ids (later 2 w) n (insert (uuid4 w 1) used)"
proof -
  let ?f = "\<lambda>k. uuid4 w (2 * k + 1)"
  have inj: "inj_on ?f {0..<Suc n}" and new: "\<And>k. k < Suc n \<Longrightarrow> ?f k \<notin> used"
    using assms by (auto simp: fresh_ids_def distinct_map simp del: upt_Suc)
  show "uuid4 w 1 \<notin> used" using new [of 0] by simp
  have shift: "uuid4 (later 2 w) (2 * k + 1) = ?f (Suc k)" for k by (simp add: later_def algebra_simps)
  have "inj_on (\<lambda>k. ?f (Suc k)) {0..<n}"
    unfolding inj_on_def
  proof (intro ballI impI)
    fix x y assume "x \<in> {0..<n}" "y \<in> {0..<n}" "?f (Suc x) = ?f (Suc y)"
    then have "Suc x = Suc y" by (intro inj_onD [OF inj]) simp_all
    then show "x = y" by simp
  qed
  moreover have "?f (Suc k) \<noteq> ?f 0" if "k < n" for k
  proof
    assume "?f (Suc k) = ?f 0"
    with that have "Suc k = 0" by (intro inj_onD [OF inj]) simp_all
    then show False by simp
  qed
  moreover have "?f (Suc k) \<notin> used" if "k < n" for k using new [of "Suc k"] that by simp
  ultimately show "fresh_ids (later 2 w) n (insert (uuid4 w 1) used)"
    by (auto simp: fresh_ids_def distinct_map shift)
qed

lemma request_cancellation_held_state:
  assumes obj: "objs s i = Some (x, x)" and clean: "clean_except i s" and i: "t_id x = i"
    and r: "select_by t_id i (tickets (view s)) = [r]" and ok: "db_ok (view s)"
    and fresh: "uuid4 w 1 \<notin> event_ids (view s)"
  shows "\<exists>s'. request_cancellation c client w i reason s = (Inr (), s') \<and>
    committed s' = held_cancelled_db c w x reason (view s) \<and> view s' = committed s' \<and>
    objs s' = (objs s)(i \<mapsto> flushed_object (db_clock w 0) (x, cancelled_ticket w reason x)) \<and>
    counters s' = counted (t_status x) CANCELLATION_REQUESTED (counters s) \<and> published s' = published s"
proof -
  have g: "get_by_id_for_update i s = (Inr (Some x), s)"
    using get_held [of i s r x x] r obj select_member [OF r] by simp
  show ?thesis
    using cancel_locked_ok [OF obj clean ok fresh, of c reason] i
    by (simp add: request_cancellation_eq py_bind_def g Let_def rewritten_def held_cancelled_db_def)
      (simp add: cancelled_ticket_def)
qed

lemma held_cancelled_select:
  assumes "t_id x \<noteq> j"
  shows "select_by t_id j (tickets (held_cancelled_db c w x reason db)) = select_by t_id j (tickets db)"
  using assms by (simp add: held_cancelled_db_def select_not_rewritten)

lemma held_cancelled_ok:
  assumes ok: "db_ok db" and fresh: "uuid4 w 1 \<notin> event_ids db"
  shows "db_ok (held_cancelled_db c w x reason db)"
proof -
  let ?f = "write_back (db_clock w 0) x (cancelled_ticket w reason x)"
  have "db_ok (rewrite_ticket (t_id x) ?f db)"
  proof (rule rewrite_db_ok [OF ok])
    fix q assume q: "q \<in> set (tickets db)"
    have "ticket_columns_fit (?f q)"
      using rows_fit [OF ok q] by (intro write_back_fits) (simp_all add: cancelled_ticket_def varchar_fits_def)
    moreover have "stake_amount_positive (?f q)"
      using ok q by (simp add: db_ok_def stake_amount_positive_def write_back_columns changed_def cancelled_ticket_def)
    ultimately show "ticket_columns_fit (?f q) \<and> stake_amount_positive (?f q)" ..
  qed (simp_all add: write_back_columns changed_def cancelled_ticket_def)
  then show ?thesis unfolding held_cancelled_db_def by (rule announce_db_ok) (simp add: fresh)
qed

lemma recover_each_effect:
  assumes "quiet w" and "db_ok (committed s)" and "view s = committed s" and "all_clean (objs s)"
    and "distinct (map t_id rs)"
    and "\<forall>r \<in> set rs. objs s (t_id r) = Some (r, r) \<and> select_by t_id (t_id r) (tickets (committed s)) = [r]"
    and "fresh_ids w (length rs) (event_ids (committed s))"
  shows "\<exists>s'. recover_each c client w (map t_id rs) s = (Inr (), s') \<and>
    committed s' = recovered_db c w rs (committed s) \<and> published s' = published s \<and>
    view s' = committed s' \<and> db_ok (committed s') \<and> all_clean (objs s') \<and>
    (\<forall>j. j \<notin> t_id ` set rs \<longrightarrow> objs s' j = objs s j)"
  using assms
proof (induction rs arbitrary: s w)
  case Nil
  then show ?case by (simp add: py_return_def)
next
  case (Cons r rs)
  let ?i = "t_id r" and ?why = "stuck_reason (t_status r)"
  have obj: "objs s ?i = Some (r, r)" and row: "select_by t_id ?i (tickets (view s)) = [r]"
    using Cons.prems(3,6) by simp_all
  have clean: "clean_except ?i s" using Cons.prems(4) by (auto simp: all_clean_def clean_except_def)
  have new: "uuid4 w 1 \<notin> event_ids (view s)"
    and rest: "fresh_ids (later 2 w) (length rs) (insert (uuid4 w 1) (event_ids (committed s)))"
    using fresh_ids_step [of w "length rs" "event_ids (committed s)"] Cons.prems(3,7) by simp_all
  obtain s1 where run: "request_cancellation c client w ?i ?why s = (Inr (), s1)"
    and s1: "committed s1 = held_cancelled_db c w r ?why (committed s)" "view s1 = committed s1"
      "objs s1 = (objs s)(?i \<mapsto> flushed_object (db_clock w 0) (r, cancelled_ticket w ?why r))"
      "published s1 = published s"
    using request_cancellation_held_state [OF obj clean refl row _ new, of c client ?why] Cons.prems(2,3) by auto
  let ?s2 = "s1\<lparr>counters := (counters s1)(StuckRecovered (ticket_status_value (t_status r)) ''cancel'' :=
      Suc (counters s1 (StuckRecovered (ticket_status_value (t_status r)) ''cancel'')))\<rparr>"
  have one: "recover_one c client w ?i s = (Inr (), ?s2)"
    by (simp add: recover_one_def py_bind_def attributes_def obj py_try_def run inc_def py_modify_def Let_def)
  have calm: "interfere (others w 0) ?s2 = (Inr (), ?s2)"
    using s1(2) by (cases s1) (simp add: interfere_def py_modify_def quiet_id [OF Cons.prems(1)])
  have held: "objs ?s2 (t_id q) = Some (q, q) \<and> select_by t_id (t_id q) (tickets (committed ?s2)) = [q]"
    if q: "q \<in> set rs" for q
  proof -
    have "t_id q \<noteq> ?i" using Cons.prems(5) q by (metis distinct.simps(2) image_eqI list.set_map list.simps(9))
    with Cons.prems(6) q show ?thesis by (simp add: s1 held_cancelled_select)
  qed
  have events: "event_ids (committed ?s2) = insert (uuid4 w 1) (event_ids (committed s))"
    by (simp add: s1 held_cancelled_db_def set_insert_row new_outbox_event_def)
  have "all_clean (objs ?s2)"
    using Cons.prems(4) by (simp add: s1 flushed_object_def Let_def)
  moreover have "db_ok (committed ?s2)"
    using held_cancelled_ok [of "committed s" w c r ?why] Cons.prems(2,3) new by (simp add: s1)
  ultimately obtain s' where "recover_each c client (later 2 w) (map t_id rs) ?s2 = (Inr (), s')"
    "committed s' = recovered_db c (later 2 w) rs (committed ?s2)" "published s' = published ?s2"
    "view s' = committed s'" "db_ok (committed s')" "all_clean (objs s')"
    "\<forall>j. j \<notin> t_id ` set rs \<longrightarrow> objs s' j = objs ?s2 j"
    using Cons.IH [of "later 2 w" ?s2] later_quiet [OF Cons.prems(1)] s1(2) held events rest Cons.prems(5)
    by auto
  then show ?case by (simp add: py_bind_def one calm s1)
qed

text \<open>The objects of a session that has just loaded the rows \<open>rs\<close>.\<close>

definition loaded_rows :: "ticket list \<Rightarrow> uuid \<Rightarrow> (ticket \<times> ticket) option" where
  "loaded_rows rs i = (case select_by t_id i rs of [] \<Rightarrow> None | r # _ \<Rightarrow> Some (r, r))"

lemma loaded_rows_clean: "all_clean (loaded_rows rs)"
  by (auto simp: all_clean_def loaded_rows_def split: list.splits)

lemma find_stuck_fresh:
  assumes uniq: "unique_by t_id (tickets (view s))" and new: "objs s = Map.empty"
    and rs: "rs = stuck_rows older_than limit locked (view s)"
  shows "find_stuck older_than limit locked s = (Inr rs, s\<lparr>objs := loaded_rows rs\<rparr>)"
proof -
  have "distinct (map t_id rs)"
    using uniq by (simp add: rs stuck_rows_def unique_by_def distinct_take_sort)
  moreover have "(\<lambda>i. case select_by t_id i rs of [] \<Rightarrow> objs s i | r # _ \<Rightarrow> Some (r, r)) = loaded_rows rs"
    by (rule ext) (simp add: loaded_rows_def new split: list.split)
  ultimately show ?thesis
    using load_objects_fresh [of rs s] by (simp add: find_stuck_def rs [symmetric] new)
qed

lemma stuck_rows_known:
  assumes uniq: "unique_by t_id (tickets db)" and rs: "rs = stuck_rows older_than limit locked db"
  shows "distinct (map t_id rs)"
    and "r \<in> set rs \<Longrightarrow> select_by t_id (t_id r) (tickets db) = [r]"
    and "r \<in> set rs \<Longrightarrow> loaded_rows rs (t_id r) = Some (r, r)"
proof -
  show dist: "distinct (map t_id rs)"
    using uniq by (simp add: rs stuck_rows_def unique_by_def distinct_take_sort)
  have "set rs \<subseteq> set (tickets db)"
    unfolding rs stuck_rows_def using set_select_ordered by fastforce
  then show "r \<in> set rs \<Longrightarrow> select_by t_id (t_id r) (tickets db) = [r]"
    using select_by_unique [OF uniq] by blast
  show "r \<in> set rs \<Longrightarrow> loaded_rows rs (t_id r) = Some (r, r)"
    using dist select_by_unique [of t_id rs r] by (simp add: loaded_rows_def unique_by_def)
qed

end
