(* ===== verification/Reconciler_Properties.thy ===== *)
theory Reconciler_Properties
  imports Reconciler
begin

text \<open>
  The promises of the reconciler: which tickets a pass selects, that every one of them ends
  in \<open>CANCELLATION_REQUESTED\<close> with a message for the provider, what a database error does to
  the pass, and that the loop stops when asked to.
\<close>

section \<open>Which tickets are stuck\<close>

text \<open>
  The selection. The tickets are not final, have not been updated since the threshold,
  are locked by nobody else; there are at most \<open>limit\<close> of them and as many as there are up
  to that, the one untouched for longest first, and none is left out for one that moved
  later. In a session that has loaded nothing, the objects are the rows.
\<close>

theorem find_stuck_oldest:
  assumes ok: "db_ok (view s)" and new: "objs s = Map.empty"
  shows "\<exists>ts os. find_stuck older_than limit locked s = (Inr ts, s\<lparr>objs := os\<rparr>) \<and>
    set ts \<subseteq> {t \<in> set (tickets (view s)). \<not> terminal (t_status t) \<and>
      t_updated_at t < older_than \<and> \<not> locked (t_id t)} \<and>
    length ts = min limit (length (filter (stuck older_than locked) (tickets (view s)))) \<and>
    sorted (map t_updated_at ts) \<and> distinct (map t_id ts) \<and>
    (\<forall>t \<in> set (tickets (view s)). \<forall>q \<in> set ts.
       stuck older_than locked t \<longrightarrow> t \<notin> set ts \<longrightarrow> t_updated_at q \<le> t_updated_at t)"
proof -
  let ?ts = "stuck_rows older_than limit locked (view s)"
  have uniq: "unique_by t_id (tickets (view s))" using ok by (simp add: db_ok_def)
  note dist = stuck_rows_known(1) [OF uniq refl, of older_than limit locked]
  have "\<exists>os. find_stuck older_than limit locked s = (Inr ?ts, s\<lparr>objs := os\<rparr>)"
    using find_stuck_fresh [OF uniq new refl] by blast
  then show ?thesis
    using dist set_select_ordered [of "stuck older_than locked" t_updated_at limit "tickets (view s)"]
      length_select_ordered [of "stuck older_than locked" t_updated_at limit "tickets (view s)"]
      sorted_select_ordered [of t_updated_at "stuck older_than locked" limit "tickets (view s)"]
      select_ordered_oldest [of _ "tickets (view s)" "stuck older_than locked" t_updated_at limit]
    by (auto simp: stuck_rows_def stuck_def)
qed

theorem find_stuck_oldest_witness:
  "\<exists>ts os. find_stuck 500 10 (\<lambda>_. False) (session_on (sample_db SETTLED)) =
      (Inr ts, (session_on (sample_db SETTLED))\<lparr>objs := os\<rparr>) \<and> length ts = 1"
proof -
  have "stuck 500 (\<lambda>_. False) (sample_ticket SETTLED)" by (simp add: stuck_def) (simp add: sample_ticket_def)
  then show ?thesis
    using find_stuck_oldest [of "session_on (sample_db SETTLED)" 500 10 "\<lambda>_. False"] by auto
qed

section \<open>A pass\<close>

lemma recovered_select_other:
  "j \<notin> t_id ` set rs \<Longrightarrow>
   select_by t_id j (tickets (recovered_db c w rs db)) = select_by t_id j (tickets db)"
  by (induction rs arbitrary: w db) (auto simp: held_cancelled_select)

lemma recovered_select:
  assumes "distinct (map t_id rs)" and "\<forall>r \<in> set rs. select_by t_id (t_id r) (tickets db) = [r]"
    and "r \<in> set rs"
  shows "\<exists>r'. select_by t_id (t_id r) (tickets (recovered_db c w rs db)) = [r'] \<and>
    t_status r' = CANCELLATION_REQUESTED \<and> t_failure_reason r' = Some (stuck_reason (t_status r))"
  using assms
proof (induction rs arbitrary: w db)
  case (Cons q rs)
  let ?db = "held_cancelled_db c w q (stuck_reason (t_status q)) db"
  show ?case
  proof (cases "r = q")
    case True
    have why: "length (stuck_reason (t_status q)) \<le> 1024"
      by (cases "t_status q") (simp_all add: stuck_reason_def)
    let ?f = "write_back (db_clock w 0) q (cancelled_ticket w (stuck_reason (t_status q)) q)"
    have "select_by t_id (t_id q) (tickets ?db) = [?f q]"
      using select_rewritten [of "t_id q" db q ?f] Cons.prems(2) by (simp add: held_cancelled_db_def)
    moreover have "t_id q \<notin> t_id ` set rs" using Cons.prems(1) by simp
    ultimately show ?thesis
      using True why by (simp add: recovered_select_other write_back_columns cancelled_ticket_def)
  next
    case False
    have "\<forall>r \<in> set rs. select_by t_id (t_id r) (tickets ?db) = [r]"
    proof
      fix p assume p: "p \<in> set rs"
      then have "t_id q \<noteq> t_id p" using Cons.prems(1) by auto
      then show "select_by t_id (t_id p) (tickets ?db) = [p]"
        using Cons.prems(2) p by (simp add: held_cancelled_select)
    qed
    with Cons False show ?thesis by auto
  qed
qed simp

text \<open>An outbox entry that asks the provider to cancel its ticket.\<close>

definition cancel_request :: "codec \<Rightarrow> outbox_event \<Rightarrow> bool" where
  "cancel_request c e \<longleftrightarrow>
     e_status e = PENDING \<and> e_routing_key e = top_provider_out_routing_key TOPOLOGY \<and>
     (\<exists>m. e_payload e = message_dump c m \<and> m_type m = REQUEST_CANCELLATION \<and> m_ticket_id m = Some (e_entity_id e))"

lemma new_cancel_request:
  "cancel_request c (outbound_event c n now i (build_cancellation_message c f t i reason))"
  by (auto simp: cancel_request_def new_outbox_event_def build_cancellation_message_def message_build_def)

lemma recovered_events:
  "\<exists>es. outbox_events (recovered_db c w rs db) = outbox_events db @ es \<and> map e_entity_id es = map t_id rs \<and>
    (\<forall>e \<in> set es. cancel_request c e) \<and>
    processed (recovered_db c w rs db) = processed db"
proof (induction rs arbitrary: w db)
  case (Cons r rs)
  let ?db = "held_cancelled_db c w r (stuck_reason (t_status r)) db"
  obtain es where "outbox_events (recovered_db c (later 2 w) rs ?db) = outbox_events ?db @ es"
    "map e_entity_id es = map t_id rs"
    "\<forall>e \<in> set es. cancel_request c e"
    "processed (recovered_db c (later 2 w) rs ?db) = processed ?db"
    using Cons.IH [of "later 2 w" ?db] by blast
  then show ?case
    using new_cancel_request by (auto simp: held_cancelled_db_def insert_row_def) (simp add: new_outbox_event_def)
qed simp

lemma find_loads:
  assumes ok: "db_ok (committed s)" and rs: "rs = stuck_rows older_than limit locked (committed s)"
  shows "find_stuck older_than limit locked (open_session s) = (Inr rs, (open_session s)\<lparr>objs := loaded_rows rs\<rparr>)"
  using ok by (intro find_stuck_fresh) (simp_all add: rs db_ok_def)

lemma pass_state:
  assumes ok: "db_ok (committed s)" and q: "quiet w"
    and rs: "rs = stuck_rows (clock w 0 - timedelta_seconds (rc_stuck_after_sec rc)) (rc_batch_size rc)
                    locked (committed s)"
    and fresh: "fresh_ids (later 1 w) (length rs) (event_ids (committed s))"
  shows "\<exists>s'. recover_stuck_tickets c client rc w locked s = (Inr (), s') \<and>
    committed s' = recovered_db c (later 1 w) rs (committed s)"
proof -
  let ?s0 = "(open_session s)\<lparr>objs := loaded_rows rs\<rparr>"
  have uniq: "unique_by t_id (tickets (committed s))" using ok by (simp add: db_ok_def)
  note known = stuck_rows_known [OF uniq rs]
  obtain s1 where run: "recover_each c client (later 1 w) (map t_id rs) ?s0 = (Inr (), s1)"
    and s1: "committed s1 = recovered_db c (later 1 w) rs (committed s)"
    using recover_each_effect [of "later 1 w" ?s0 rs c client] later_quiet [OF q] ok known fresh
    by (auto simp: loaded_rows_clean)
  then show ?thesis
    using session_scope_commits [of "recover_batch c client rc w locked
        (clock w 0 - timedelta_seconds (rc_stuck_after_sec rc))" s s1]
    by (auto simp: recover_stuck_tickets_def recover_batch_def Let_def py_bind_def find_loads [OF ok rs])
qed

lemma pass_effect:
  assumes ok: "db_ok (committed s)" and q: "quiet w"
    and rs: "rs = stuck_rows (clock w 0 - timedelta_seconds (rc_stuck_after_sec rc)) (rc_batch_size rc)
                    locked (committed s)"
    and fresh: "fresh_ids (later 1 w) (length rs) (event_ids (committed s))"
  shows "\<exists>s' es. recover_stuck_tickets c client rc w locked s = (Inr (), s') \<and>
    (\<forall>r \<in> set rs. \<exists>r'. select_by t_id (t_id r) (tickets (committed s')) = [r'] \<and>
       t_status r' = CANCELLATION_REQUESTED \<and> t_failure_reason r' = Some (stuck_reason (t_status r))) \<and>
    (\<forall>j. j \<notin> t_id ` set rs \<longrightarrow>
       select_by t_id j (tickets (committed s')) = select_by t_id j (tickets (committed s))) \<and>
    outbox_events (committed s') = outbox_events (committed s) @ es \<and> map e_entity_id es = map t_id rs \<and>
    (\<forall>e \<in> set es. cancel_request c e) \<and>
    processed (committed s') = processed (committed s)"
proof -
  have uniq: "unique_by t_id (tickets (committed s))" using ok by (simp add: db_ok_def)
  note known = stuck_rows_known [OF uniq rs]
  obtain s' where s': "recover_stuck_tickets c client rc w locked s = (Inr (), s')"
    "committed s' = recovered_db c (later 1 w) rs (committed s)"
    using pass_state [OF assms] by blast
  obtain es where "outbox_events (recovered_db c (later 1 w) rs (committed s)) = outbox_events (committed s) @ es"
    "map e_entity_id es = map t_id rs"
    "\<forall>e \<in> set es. cancel_request c e"
    "processed (recovered_db c (later 1 w) rs (committed s)) = processed (committed s)"
    using recovered_events by blast
  with s' recovered_select [OF known(1), of "committed s" _ c "later 1 w"] known(2) recovered_select_other [of _ rs]
  show ?thesis by (intro exI [of _ s'] exI [of _ es]) simp
qed

text \<open>
  A pass with no interference and unused identifiers. Every ticket it selected, in
  whatever status that is not final (\<open>SETTLED\<close> and \<open>CANCELLATION_REQUESTED\<close> included), is
  in \<open>CANCELLATION_REQUESTED\<close> with its former status in the failure reason; the outbox has
  gained one pending entry for each of them, in their order, with a \<open>REQUEST_CANCELLATION\<close>
  for it addressed to the provider; no other ticket and nothing of the inbox changed.
\<close>

theorem reconciler_requests_cancellation:
  assumes ok: "db_ok (committed s)" and q: "quiet w"
    and rs: "rs = stuck_rows (clock w 0 - timedelta_seconds (rc_stuck_after_sec rc)) (rc_batch_size rc)
                    locked (committed s)"
    and fresh: "fresh_ids (later 1 w) (length rs) (event_ids (committed s))"
  shows "\<exists>s' es. recover_stuck_tickets c client rc w locked s = (Inr (), s') \<and>
    (\<forall>r \<in> set rs. \<exists>r'. select_by t_id (t_id r) (tickets (committed s')) = [r'] \<and>
       t_status r' = CANCELLATION_REQUESTED \<and> t_failure_reason r' = Some (stuck_reason (t_status r))) \<and>
    (\<forall>j. j \<notin> t_id ` set rs \<longrightarrow>
       select_by t_id j (tickets (committed s')) = select_by t_id j (tickets (committed s))) \<and>
    outbox_events (committed s') = outbox_events (committed s) @ es \<and> map e_entity_id es = map t_id rs \<and>
    (\<forall>e \<in> set es. cancel_request c e) \<and>
    processed (committed s') = processed (committed s)"
  using assms by (rule pass_effect)

theorem reconciler_requests_cancellation_witness:
  "\<exists>s' r'. recover_stuck_tickets ref_codec sample_client (reconciler_worker (default_settings ''k''))
      ((sample_ambient 0 id)\<lparr>clock := \<lambda>n. 100000000\<rparr>) (\<lambda>_. False) (session_on (sample_db SETTLED)) = (Inr (), s') \<and>
    select_by t_id 7 (tickets (committed s')) = [r'] \<and> t_status r' = CANCELLATION_REQUESTED \<and>
    length (outbox_events (committed s')) = 1"
proof -
  let ?w = "(sample_ambient 0 id)\<lparr>clock := \<lambda>n. 100000000\<rparr>"
  let ?rc = "reconciler_worker (default_settings ''k'')"
  have rc: "rc_stuck_after_sec ?rc = 60" "rc_batch_size ?rc = 100" by (simp_all add: reconciler_worker_def)
  have "stuck 40000000 (\<lambda>_. False) (sample_ticket SETTLED)"
    by (simp add: stuck_def) (simp add: sample_ticket_def)
  then have rs: "[sample_ticket SETTLED] =
      stuck_rows (clock ?w 0 - timedelta_seconds (rc_stuck_after_sec ?rc)) (rc_batch_size ?rc) (\<lambda>_. False)
        (committed (session_on (sample_db SETTLED)))"
    by (simp add: rc stuck_rows_def select_ordered_def timedelta_seconds_def)
  have "quiet ?w" by (simp add: quiet_def)
  then show ?thesis
    using reconciler_requests_cancellation [OF _ _ rs, of ref_codec sample_client]
    by (auto simp: fresh_ids_def)
qed

section \<open>A database error\<close>

lemma request_cancellation_fails:
  assumes obj: "objs s i = Some (x, x)" and clean: "clean_except i s" and i: "t_id x = i"
    and r: "select_by t_id i (tickets (view s)) = [r]" and ok: "db_ok (view s)"
    and taken: "uuid4 w 1 \<in> event_ids (view s)"
  shows "\<exists>s'. request_cancellation c client w i reason s = (Inl IntegrityError, s') \<and> committed s' = committed s"
proof -
  have g: "get_by_id_for_update i s = (Inr (Some x), s)"
    using get_held [of i s r x x] r obj select_member [OF r] by simp
  let ?c = "x\<lparr>t_failure_reason := Some (take 1024 reason), t_cancelled_at := Some (clock w 0),
      t_status := CANCELLATION_REQUESTED\<rparr>"
  have fits: "ticket_columns_fit (write_back now x ?c q)" if "q \<in> set (tickets (view s))" for q now
    using rows_fit [OF ok that] by (intro write_back_fits) (simp_all add: varchar_fits_def)
  have ob: "outbox_events (view (rewritten i n l c' c'' s)) = outbox_events (view s)" for n l c' c''
    by (simp add: rewritten_def)
  have "cancel_locked c w i reason s = (Inl IntegrityError, rewritten i (db_clock w 0) x x ?c s)"
    unfolding cancel_locked_def outbox_message_def outbox_add_def py_bind_assoc
    by (subst update_status [of s i x x])
      (use obj clean fits taken in \<open>simp_all add: ob py_bind_def insert_outbound_event\<close>)
  with i show ?thesis
    by (simp add: request_cancellation_eq py_bind_def g rewritten_def)
qed

lemma later_zero [simp]: "later 0 w = w"
  by (simp add: later_def)

lemma later_later: "later n (later m w) = later (n + m) w"
  by (simp add: later_def add.assoc)

lemma recover_each_append:
  "recover_each c client w (js @ is) =
     py_bind (recover_each c client w js) (\<lambda>_. recover_each c client (later (2 * length js) w) is)"
proof (induction js arbitrary: w)
  case (Cons j js)
  have "later (2 * length js) (later 2 w) = later (2 * length (j # js)) w" by (simp add: later_later)
  with Cons show ?case by (simp add: py_bind_assoc)
qed (simp add: py_bind_return_left)

lemma recover_one_fails:
  assumes "objs s i = Some (x, x)" and "clean_except i s" and "t_id x = i"
    and "select_by t_id i (tickets (view s)) = [r]" and "db_ok (view s)" and "uuid4 w 1 \<in> event_ids (view s)"
  shows "\<exists>s'. recover_one c client w i s = (Inl (OtherError ''PendingRollbackError''), s') \<and> committed s' = committed s"
  using request_cancellation_fails [OF assms, of c client "stuck_reason (t_status x)"] assms(1)
  by (auto simp: recover_one_def py_bind_def attributes_def Let_def py_try_def database_error_def py_raise_def)

text \<open>
  C31: the handler around one request does not isolate it from the others. When the database
  refuses the request for a stuck ticket, whichever it is in the order of the pass (here
  because the identifier drawn for its outbox entry is taken), the handler itself raises, and
  the pass ends with an exception. The tickets before it have been asked to be cancelled and
  that stays committed; it and all the tickets after it are left as they were, with nothing in
  the outbox for them.
\<close>

theorem reconciler_error_ends_pass:
  assumes ok: "db_ok (committed s)" and q: "quiet w"
    and rs: "earlier @ r # rest =
      stuck_rows (clock w 0 - timedelta_seconds (rc_stuck_after_sec rc)) (rc_batch_size rc) locked (committed s)"
    and fresh: "fresh_ids (later 1 w) (length earlier) (event_ids (committed s))"
    and taken: "uuid4 w (2 * length earlier + 2) \<in> event_ids (committed s)"
  shows "\<exists>s' es. recover_stuck_tickets c client rc w locked s =
      (Inl (OtherError ''PendingRollbackError''), s') \<and>
    (\<forall>p \<in> set earlier. \<exists>p'. select_by t_id (t_id p) (tickets (committed s')) = [p'] \<and>
       t_status p' = CANCELLATION_REQUESTED) \<and>
    (\<forall>j. j \<notin> t_id ` set earlier \<longrightarrow>
       select_by t_id j (tickets (committed s')) = select_by t_id j (tickets (committed s))) \<and>
    outbox_events (committed s') = outbox_events (committed s) @ es \<and> map e_entity_id es = map t_id earlier \<and>
    processed (committed s') = processed (committed s)"
proof -
  let ?threshold = "clock w 0 - timedelta_seconds (rc_stuck_after_sec rc)" and ?rs = "earlier @ r # rest"
  let ?s0 = "(open_session s)\<lparr>objs := loaded_rows ?rs\<rparr>" and ?n = "2 * length earlier"
  let ?db = "recovered_db c (later 1 w) earlier (committed s)"
  have uniq: "unique_by t_id (tickets (committed s))" using ok by (simp add: db_ok_def)
  note known = stuck_rows_known [OF uniq rs]
  have dist: "distinct (map t_id earlier)" "t_id r \<notin> t_id ` set earlier" using known(1) by auto
  obtain s1 where s1: "recover_each c client (later 1 w) (map t_id earlier) ?s0 = (Inr (), s1)"
    "committed s1 = ?db" "view s1 = ?db" "db_ok ?db" "all_clean (objs s1)" "objs s1 (t_id r) = Some (r, r)"
    using recover_each_effect [of "later 1 w" ?s0 earlier c client] later_quiet [OF q] ok known fresh dist
    by (auto simp: loaded_rows_clean)
  obtain es where es: "outbox_events ?db = outbox_events (committed s) @ es" "map e_entity_id es = map t_id earlier"
    "processed ?db = processed (committed s)"
    using recovered_events by blast
  have clean: "clean_except (t_id r) s1" using s1(5) by (auto simp: clean_except_def all_clean_def)
  have row: "select_by t_id (t_id r) (tickets (view s1)) = [r]"
    using known(2) [of r] dist(2) by (simp add: s1(3) recovered_select_other)
  have "uuid4 (later ?n (later 1 w)) 1 \<in> event_ids (view s1)"
  proof -
    have "uuid4 (later ?n (later 1 w)) 1 = uuid4 w (?n + 2)" by (simp add: later_def add.commute)
    moreover have "event_ids (committed s) \<subseteq> event_ids ?db" using es(1) by auto
    ultimately show ?thesis using taken by (auto simp: s1(3))
  qed
  from recover_one_fails [OF s1(6) clean refl row _ this, of c client] obtain s2
    where s2: "recover_one c client (later ?n (later 1 w)) (t_id r) s1 = (Inl (OtherError ''PendingRollbackError''), s2)"
      "committed s2 = ?db"
    using s1 by auto
  have "recover_batch c client rc w locked ?threshold (open_session s) = (Inl (OtherError ''PendingRollbackError''), s2)"
    by (simp add: recover_batch_def py_bind_def find_loads [OF ok rs] recover_each_append s1(1) s2(1))
  then have "recover_stuck_tickets c client rc w locked s = (Inl (OtherError ''PendingRollbackError''), open_session s2)"
    unfolding recover_stuck_tickets_def Let_def by (rule session_scope_raises)
  moreover have "\<forall>p \<in> set earlier. \<exists>p'. select_by t_id (t_id p) (tickets ?db) = [p'] \<and> t_status p' = CANCELLATION_REQUESTED"
    using recovered_select [OF dist(1), of "committed s" _ c "later 1 w"] known(2) by fastforce
  ultimately show ?thesis
    using es recovered_select_other [of _ earlier c "later 1 w" "committed s"]
    by (intro exI [of _ "open_session s2"] exI [of _ es]) (simp add: s2(2))
qed

text \<open>Two stuck tickets: the request for the first is committed, the second ends the pass.\<close>

definition sample_two_stuck :: database where
  "sample_two_stuck = (sample_db SETTLED)\<lparr>
     tickets := [sample_ticket SETTLED,
       (sample_ticket SETTLED)\<lparr>t_id := 8, t_idempotency_key := ''k2'', t_updated_at := 20\<rparr>],
     outbox_events := [new_outbox_event 103 5 7 ''e'' ''k'' []]\<rparr>"

theorem reconciler_error_ends_pass_witness:
  "\<exists>s'. recover_stuck_tickets ref_codec sample_client \<lparr>rc_stuck_after_sec = 0, rc_batch_size = 10\<rparr>
      (sample_ambient 0 id) (\<lambda>_. False) (session_on sample_two_stuck) = (Inl (OtherError ''PendingRollbackError''), s') \<and>
    select_by t_id 8 (tickets (committed s')) = select_by t_id 8 (tickets sample_two_stuck) \<and>
    length (outbox_events (committed s')) = 2"
proof -
  let ?rc = "\<lparr>rc_stuck_after_sec = 0, rc_batch_size = 10\<rparr>" and ?w = "sample_ambient 0 id"
  let ?b = "(sample_ticket SETTLED)\<lparr>t_id := 8, t_idempotency_key := ''k2'', t_updated_at := 20\<rparr>"
  have "db_ok sample_two_stuck"
    using sample_db_ok [of SETTLED]
    by (simp add: db_ok_def unique_by_def sample_two_stuck_def ticket_columns_fit_def stake_amount_positive_def
        varchar_fits_def numeric_fits_def) (simp add: sample_ticket_def)
  moreover have "stuck 1000 (\<lambda>_. False) (sample_ticket SETTLED)" "stuck 1000 (\<lambda>_. False) ?b"
    by (simp_all add: stuck_def) (simp add: sample_ticket_def)
  then have "[sample_ticket SETTLED] @ ?b # [] = stuck_rows (clock ?w 0 - timedelta_seconds (rc_stuck_after_sec ?rc))
      (rc_batch_size ?rc) (\<lambda>_. False) (committed (session_on sample_two_stuck))"
    by (simp add: stuck_rows_def select_ordered_def timedelta_seconds_def sample_two_stuck_def)
      (simp add: sample_ticket_def)
  moreover have "fresh_ids (later 1 ?w) (length [sample_ticket SETTLED]) (event_ids (committed (session_on sample_two_stuck)))"
    by (simp add: fresh_ids_def later_def sample_two_stuck_def new_outbox_event_def)
  moreover have "uuid4 ?w (2 * length [sample_ticket SETTLED] + 2) \<in> event_ids (committed (session_on sample_two_stuck))"
    by (simp add: sample_ambient_def sample_two_stuck_def new_outbox_event_def)
  ultimately obtain s' es where s': "recover_stuck_tickets ref_codec sample_client ?rc ?w (\<lambda>_. False) (session_on sample_two_stuck) =
      (Inl (OtherError ''PendingRollbackError''), s')"
    "select_by t_id 8 (tickets (committed s')) = select_by t_id 8 (tickets sample_two_stuck)"
    "outbox_events (committed s') = outbox_events sample_two_stuck @ es" "map e_entity_id es = [7]"
    using reconciler_error_ends_pass [of "session_on sample_two_stuck" ?w "[sample_ticket SETTLED]" ?b "[]" ?rc
        "\<lambda>_. False" ref_codec sample_client]
    by auto
  moreover have "length es = 1" using s'(4) by (cases es) auto
  ultimately show ?thesis by (auto simp: sample_two_stuck_def)
qed

section \<open>Stopping\<close>

lemma reconciler_run_returns: "\<exists>n. fst (reconciler_run c client rc stop ts s) = Inr n"
proof (induction ts arbitrary: s stop)
  case (Cons t ts)
  obtain x s1 where t: "tick_once c client rc t s = (x, s1)" by fastforce
  obtain n s' where "reconciler_run c client rc (tk_stop t) ts s1 = (Inr n, s')"
    using Cons [of "tk_stop t" s1] by (cases "reconciler_run c client rc (tk_stop t) ts s1") auto
  with t show ?case by (cases x) (auto simp: py_try_def py_bind_def py_return_def)
qed (simp add: py_return_def)

text \<open>
  C32: the loop ends when it is asked to, whatever its ticks do: it runs the ticks up to and
  including the one during which \<^verbatim>\<open>request_stop\<close> was called and starts none after it; an
  exception of a tick never leaves the loop.
\<close>

theorem reconciler_stops:
  assumes before: "\<forall>t \<in> set ts. \<not> tk_stop t" and t: "tk_stop t"
  shows "\<exists>s'. reconciler_run c client rc False (ts @ t # rest) s = (Inr (length ts + 1), s') \<and>
    s' = snd (reconciler_run c client rc False (ts @ [t]) s)"
  using before
proof (induction ts arbitrary: s)
  case Nil
  obtain x s1 where "tick_once c client rc t s = (x, s1)" by fastforce
  moreover have "reconciler_run c client rc True rest q = (Inr 0, q)" for q
    by (cases rest) (simp_all add: py_return_def)
  ultimately show ?case by (cases x) (simp_all add: py_try_def py_bind_def py_return_def t)
next
  case (Cons u ts)
  obtain x s1 where u: "tick_once c client rc u s = (x, s1)" by fastforce
  obtain s' where "reconciler_run c client rc False (ts @ t # rest) s1 = (Inr (length ts + 1), s')"
    "s' = snd (reconciler_run c client rc False (ts @ [t]) s1)"
    using Cons by auto
  moreover have "\<exists>n. fst (reconciler_run c client rc False (ts @ [t]) s1) = Inr n"
    by (rule reconciler_run_returns)
  ultimately show ?case using Cons.prems
    by (cases x; cases "reconciler_run c client rc False (ts @ [t]) s1")
      (auto simp: py_try_def py_bind_def py_return_def u)
qed

theorem reconciler_stops_witness:
  "fst (reconciler_run ref_codec sample_client \<lparr>rc_stuck_after_sec = 60, rc_batch_size = 10\<rparr> False
      ([\<lparr>tk_ambient = sample_ambient 0 id, tk_locked = (\<lambda>_. False), tk_stop = False\<rparr>] @
       \<lparr>tk_ambient = sample_ambient 0 id, tk_locked = (\<lambda>_. False), tk_stop = True\<rparr> #
       replicate 5 \<lparr>tk_ambient = sample_ambient 0 id, tk_locked = (\<lambda>_. False), tk_stop = False\<rparr>)
      (session_on (sample_db NEW))) = Inr 2"
  using reconciler_stops [of "[\<lparr>tk_ambient = sample_ambient 0 id, tk_locked = (\<lambda>_. False), tk_stop = False\<rparr>]"
      "\<lparr>tk_ambient = sample_ambient 0 id, tk_locked = (\<lambda>_. False), tk_stop = True\<rparr>" ref_codec sample_client
      "\<lparr>rc_stuck_after_sec = 60, rc_batch_size = 10\<rparr>"
      "replicate 5 \<lparr>tk_ambient = sample_ambient 0 id, tk_locked = (\<lambda>_. False), tk_stop = False\<rparr>"
      "session_on (sample_db NEW)"]
  by (auto simp del: reconciler_run.simps)

end
