(* ===== verification/Broker.thy ===== *)
theory Broker
  imports Config Domain
begin

text \<open>
  The topology of \<^verbatim>\<open>backend/transport/broker.py\<close>: exchanges, queues with their arguments,
  and the bindings \<^verbatim>\<open>setup_topology\<close> makes; and what RabbitMQ documents of them that the
  workers rely on: a direct exchange routes a message to the queues bound with exactly its
  routing key, and a quorum queue with a delivery limit hands a message that was returned
  out again until it has been returned more often than the limit, and then dead-letters it
  to the exchange and key of its arguments.
\<close>

section \<open>Exchanges and queues\<close>

record rabbit_exchange =
  x_name :: string
  x_durable :: bool

datatype queue_argument = ArgStr string | ArgNat nat

record rabbit_queue =
  q_name :: string
  q_durable :: bool
  q_routing_key :: string
  q_arguments :: "(string \<times> queue_argument) list"

definition tickets_exchange :: rabbit_exchange where
  "tickets_exchange = \<lparr>x_name = top_tickets_exchange TOPOLOGY, x_durable = True\<rparr>"

definition tickets_dlx_exchange :: rabbit_exchange where
  "tickets_dlx_exchange = \<lparr>x_name = top_tickets_dlx_exchange TOPOLOGY, x_durable = True\<rparr>"

definition provider_queue_args :: "settings \<Rightarrow> (string \<times> queue_argument) list" where
  "provider_queue_args st =
     [(''x-queue-type'', ArgStr ''quorum''),
      (''x-delivery-limit'', ArgNat (rmq_max_attempts st)),
      (''x-dead-letter-exchange'', ArgStr (top_tickets_dlx_exchange TOPOLOGY)),
      (''x-dead-letter-routing-key'', ArgStr (top_tickets_dlq_routing_key TOPOLOGY))]"

definition provider_out_queue :: "settings \<Rightarrow> rabbit_queue" where
  "provider_out_queue st =
     \<lparr>q_name = top_provider_out_queue TOPOLOGY, q_durable = True,
      q_routing_key = top_provider_out_routing_key TOPOLOGY, q_arguments = provider_queue_args st\<rparr>"

definition provider_in_queue :: "settings \<Rightarrow> rabbit_queue" where
  "provider_in_queue st =
     \<lparr>q_name = top_provider_in_queue TOPOLOGY, q_durable = True,
      q_routing_key = top_provider_in_routing_key TOPOLOGY, q_arguments = provider_queue_args st\<rparr>"

definition tickets_dlq_queue :: rabbit_queue where
  "tickets_dlq_queue =
     \<lparr>q_name = top_tickets_dlq_queue TOPOLOGY, q_durable = True,
      q_routing_key = top_tickets_dlq_routing_key TOPOLOGY, q_arguments = []\<rparr>"

datatype ack_policy = NACK_ON_ERROR

definition CONSUMER_ACK_POLICY :: ack_policy where
  "CONSUMER_ACK_POLICY = NACK_ON_ERROR"

section \<open>Declarations and bindings\<close>

record binding =
  b_exchange :: string
  b_key :: string
  b_queue :: string

record broker_state =
  bs_exchanges :: "rabbit_exchange list"
  bs_queues :: "rabbit_queue list"
  bs_bindings :: "binding list"

definition declare_exchange :: "rabbit_exchange \<Rightarrow> broker_state \<Rightarrow> broker_state" where
  "declare_exchange x b = b\<lparr>bs_exchanges := List.insert x (bs_exchanges b)\<rparr>"

definition declare_queue :: "rabbit_queue \<Rightarrow> broker_state \<Rightarrow> broker_state" where
  "declare_queue q b = b\<lparr>bs_queues := List.insert q (bs_queues b)\<rparr>"

definition bind_queue :: "rabbit_queue \<Rightarrow> rabbit_exchange \<Rightarrow> string \<Rightarrow> broker_state \<Rightarrow> broker_state" where
  "bind_queue q x key b =
     b\<lparr>bs_bindings := List.insert \<lparr>b_exchange = x_name x, b_key = key, b_queue = q_name q\<rparr> (bs_bindings b)\<rparr>"

definition setup_topology :: "settings \<Rightarrow> broker_state \<Rightarrow> broker_state" where
  "setup_topology st =
     bind_queue tickets_dlq_queue tickets_dlx_exchange (top_tickets_dlq_routing_key TOPOLOGY) \<circ>
     bind_queue (provider_in_queue st) tickets_exchange (top_provider_in_routing_key TOPOLOGY) \<circ>
     bind_queue (provider_out_queue st) tickets_exchange (top_provider_out_routing_key TOPOLOGY) \<circ>
     declare_queue tickets_dlq_queue \<circ>
     declare_queue (provider_in_queue st) \<circ>
     declare_queue (provider_out_queue st) \<circ>
     declare_exchange tickets_dlx_exchange \<circ>
     declare_exchange tickets_exchange"

definition empty_broker :: broker_state where
  "empty_broker = \<lparr>bs_exchanges = [], bs_queues = [], bs_bindings = []\<rparr>"

text \<open>\<^verbatim>\<open>get_broker\<close>: the module's one connection, created and set up at the first call.\<close>

definition get_broker :: "settings \<Rightarrow> broker_state option \<times> broker_state \<Rightarrow> broker_state option \<times> broker_state" where
  "get_broker st b =
     (case fst b of
        Some _ \<Rightarrow> b
      | None \<Rightarrow> (let server = setup_topology st (snd b) in (Some server, server)))"

section \<open>Routing\<close>

definition route :: "broker_state \<Rightarrow> string \<Rightarrow> string \<Rightarrow> string list" where
  "route b exchange key =
     map b_queue (filter (\<lambda>x. b_exchange x = exchange \<and> b_key x = key) (bs_bindings b))"

definition queue_of :: "broker_state \<Rightarrow> string \<Rightarrow> rabbit_queue option" where
  "queue_of b name = find (\<lambda>q. q_name q = name) (bs_queues b)"

text \<open>Where a message ends that the queue gives up on.\<close>

definition dead_letter_to :: "broker_state \<Rightarrow> rabbit_queue \<Rightarrow> string list" where
  "dead_letter_to b q =
     (case (map_of (q_arguments q) ''x-dead-letter-exchange'', map_of (q_arguments q) ''x-dead-letter-routing-key'') of
        (Some (ArgStr x), Some (ArgStr k)) \<Rightarrow> route b x k
      | _ \<Rightarrow> [])"

definition delivery_limit :: "rabbit_queue \<Rightarrow> nat option" where
  "delivery_limit q =
     (case map_of (q_arguments q) ''x-delivery-limit'' of Some (ArgNat n) \<Rightarrow> Some n | _ \<Rightarrow> None)"

lemmas topology_defs =
  setup_topology_def empty_broker_def bind_queue_def declare_queue_def declare_exchange_def
  provider_in_queue_def provider_out_queue_def tickets_dlq_queue_def tickets_exchange_def
  tickets_dlx_exchange_def TOPOLOGY_def

lemma setup_twice: "setup_topology st (setup_topology st empty_broker) = setup_topology st empty_broker"
  by (simp add: topology_defs List.insert_def)

text \<open>
  What the topology guarantees. A frame published to the tickets exchange under the
  outbound key reaches the gateway's queue and no other, one under the inbound key the
  consumer's; a message either queue gives up on reaches the dead-letter queue and no
  other, which itself gives nothing up; and declaring the topology again changes nothing.
\<close>

theorem topology_routes:
  fixes st :: settings
  defines "b \<equiv> setup_topology st empty_broker"
  shows "route b (top_tickets_exchange TOPOLOGY) (top_provider_out_routing_key TOPOLOGY) = [q_name (provider_out_queue st)] \<and>
    route b (top_tickets_exchange TOPOLOGY) (top_provider_in_routing_key TOPOLOGY) = [q_name (provider_in_queue st)] \<and>
    dead_letter_to b (provider_out_queue st) = [q_name tickets_dlq_queue] \<and>
    dead_letter_to b (provider_in_queue st) = [q_name tickets_dlq_queue] \<and>
    dead_letter_to b tickets_dlq_queue = [] \<and>
    queue_of b (q_name (provider_out_queue st)) = Some (provider_out_queue st) \<and>
    queue_of b (q_name (provider_in_queue st)) = Some (provider_in_queue st) \<and>
    delivery_limit (provider_out_queue st) = Some (rmq_max_attempts st) \<and>
    delivery_limit (provider_in_queue st) = Some (rmq_max_attempts st) \<and>
    setup_topology st b = b"
  by (simp add: b_def setup_twice)
    (simp add: topology_defs route_def dead_letter_to_def queue_of_def delivery_limit_def
      provider_queue_args_def List.insert_def)

section \<open>Deliveries\<close>

text \<open>
  A subscriber under \<^verbatim>\<open>AckPolicy.NACK_ON_ERROR\<close>: the message is acknowledged when the handler
  returns and returned to the queue when it raises. \<open>limit\<close> redeliveries follow the first
  delivery; the \<open>n\<close>-th attempt runs \<open>handler n\<close>.
\<close>

datatype delivery = Acknowledged nat | Dead_lettered

fun deliver_from :: "(nat \<Rightarrow> unit op) \<Rightarrow> nat \<Rightarrow> nat \<Rightarrow> sess \<Rightarrow> delivery \<times> sess" where
  "deliver_from handler n 0 s =
     (case handler n s of (Inr _, s') \<Rightarrow> (Acknowledged n, s') | (Inl _, s') \<Rightarrow> (Dead_lettered, s'))"
| "deliver_from handler n (Suc k) s =
     (case handler n s of (Inr _, s') \<Rightarrow> (Acknowledged n, s') | (Inl _, s') \<Rightarrow> deliver_from handler (n + 1) k s')"

definition deliver_message :: "settings \<Rightarrow> (nat \<Rightarrow> unit op) \<Rightarrow> sess \<Rightarrow> delivery \<times> sess" where
  "deliver_message st handler = deliver_from handler 0 (rmq_max_attempts st)"

lemma deliver_acknowledged:
  assumes "handler n s = (Inr (), s')"
  shows "deliver_from handler n k s = (Acknowledged n, s')"
  using assms by (cases k) simp_all

text \<open>A handler that fails at every attempt without changing the database is given up on.\<close>

lemma deliver_fails:
  assumes "\<And>n s. I s \<Longrightarrow> \<exists>e s'. handler n s = (Inl e, s') \<and> I s'" and "I s"
  shows "\<exists>s'. deliver_from handler n k s = (Dead_lettered, s') \<and> I s'"
  using assms(2)
proof (induction k arbitrary: n s)
  case 0
  with assms(1) [of s n] show ?case by auto
next
  case (Suc k)
  then obtain e s1 where "handler n s = (Inl e, s1)" "I s1" using assms(1) [of s n] by blast
  with Suc.IH [of s1 "n + 1"] show ?case by auto
qed

text \<open>What every attempt keeps, the delivery keeps.\<close>

lemma deliver_keeps:
  assumes "\<And>n. keeps I (handler n)" and "I s"
  shows "I (snd (deliver_from handler n k s))"
  using assms(2)
proof (induction k arbitrary: n s)
  case 0
  then show ?case using keepsD [OF assms(1) [of n], of s] by (auto split: prod.splits sum.splits)
next
  case (Suc k)
  then show ?case using keepsD [OF assms(1) [of n], of s] by (auto split: prod.splits sum.splits)
qed

end
