(* ===== verification/Api.thy ===== *)
theory Api
  imports Samples Config
begin

text \<open>
  The HTTP interface, \<^verbatim>\<open>backend/api\<close>: the schemas a request is validated against, the
  check of the API key, the two endpoints, and how an exception becomes a response. Each
  request runs in a session scope of its own. The body of a request is its parsed JSON: one
  that is no JSON is answered with 422 before any of this runs, and is left out.
\<close>

section \<open>Request schemas\<close>

text \<open>
  \<^verbatim>\<open>StakeAmount\<close>: positive, at most 999999999999.99, at most two places (trailing zeros do
  not count). The amount in hundredths is exact under these constraints.
\<close>

definition hundredths :: "decimal \<Rightarrow> int option" where
  "hundredths d =
     (let c = coefficient d; e = exponent d in
      if - 2 \<le> e then Some (c * 10 ^ nat (e + 2))
      else let q = 10 ^ nat (- 2 - e) in if c mod q = 0 then Some (c div q) else None)"

definition stake_amount_valid :: "decimal \<Rightarrow> bool" where
  "stake_amount_valid d \<longleftrightarrow> (case hundredths d of None \<Rightarrow> False | Some h \<Rightarrow> 0 < h \<and> h \<le> 99999999999999)"

record selection_in =
  si_event_id :: string
  si_market :: string
  si_odds :: decimal

record ticket_create_request =
  tcr_user_id :: uuid
  tcr_stake_amount :: decimal
  tcr_currency :: currency
  tcr_selections :: "selection_in list"

definition constrained_str :: "nat \<Rightarrow> nat \<Rightarrow> json \<Rightarrow> string option" where
  "constrained_str least most j = do {
     s \<leftarrow> load_str j;
     if least \<le> length s \<and> length s \<le> most then Some s else None }"

definition selection_in_validate :: "codec \<Rightarrow> dict \<Rightarrow> selection_in option" where
  "selection_in_validate c d = do {
     e \<leftarrow> required (constrained_str 1 128) ''event_id'' d;
     m \<leftarrow> required (constrained_str 1 128) ''market'' d;
     x \<leftarrow> required (decimal_load c) ''odds'' d;
     Some \<lparr>si_event_id = e, si_market = m, si_odds = x\<rparr> }"

definition stake_amount_load :: "codec \<Rightarrow> json \<Rightarrow> decimal option" where
  "stake_amount_load c j = do {
     a \<leftarrow> decimal_load c j;
     if stake_amount_valid a then Some a else None }"

definition selections_load :: "codec \<Rightarrow> json \<Rightarrow> selection_in list option" where
  "selections_load c j = do {
     js \<leftarrow> load_list j;
     sels \<leftarrow> map_options (\<lambda>j. Option.bind (load_dict j) (selection_in_validate c)) js;
     if 1 \<le> length sels \<and> length sels \<le> 20 then Some sels else None }"

definition ticket_create_request_validate :: "codec \<Rightarrow> dict \<Rightarrow> ticket_create_request option" where
  "ticket_create_request_validate c d = do {
     u \<leftarrow> required (uuid_load c) ''user_id'' d;
     a \<leftarrow> required (stake_amount_load c) ''stake_amount'' d;
     cur \<leftarrow> required (load_enum currency_value) ''currency'' d;
     sels \<leftarrow> required (selections_load c) ''selections'' d;
     Some \<lparr>tcr_user_id = u, tcr_stake_amount = a, tcr_currency = cur, tcr_selections = sels\<rparr> }"

definition selection_in_dump :: "codec \<Rightarrow> selection_in \<Rightarrow> dict" where
  "selection_in_dump c s =
     [(''event_id'', JStr (si_event_id s)),
      (''market'', JStr (si_market s)),
      (''odds'', decimal_dump c (si_odds s))]"

section \<open>Responses\<close>

record ticket_accepted_response =
  ta_ticket_id :: uuid
  ta_status :: ticket_status
  ta_created_at :: instant

record ticket_response =
  tr_id :: uuid
  tr_idempotency_key :: string
  tr_user_id :: uuid
  tr_stake_amount :: decimal
  tr_currency :: currency
  tr_selections :: "dict list"
  tr_status :: ticket_status
  tr_provider_recommendation :: "recommendation_action option"
  tr_provider_reason :: "string option"
  tr_failure_reason :: "string option"
  tr_created_at :: instant
  tr_updated_at :: instant
  tr_provider_recommendation_at :: "instant option"
  tr_settled_at :: "instant option"
  tr_confirmed_at :: "instant option"
  tr_cancelled_at :: "instant option"

definition ticket_response_of :: "ticket \<Rightarrow> ticket_response" where
  "ticket_response_of t =
     \<lparr>tr_id = t_id t, tr_idempotency_key = t_idempotency_key t, tr_user_id = t_user_id t,
      tr_stake_amount = t_stake_amount t, tr_currency = t_currency t,
      tr_selections = t_selections t, tr_status = t_status t,
      tr_provider_recommendation = t_provider_recommendation t,
      tr_provider_reason = t_provider_reason t, tr_failure_reason = t_failure_reason t,
      tr_created_at = t_created_at t, tr_updated_at = t_updated_at t,
      tr_provider_recommendation_at = t_provider_recommendation_at t,
      tr_settled_at = t_settled_at t, tr_confirmed_at = t_confirmed_at t,
      tr_cancelled_at = t_cancelled_at t\<rparr>"

datatype body =
    Accepted ticket_accepted_response
  | Ticket_body ticket_response
  | Detail string

record response =
  r_status :: nat
  r_body :: body

section \<open>The API key\<close>

text \<open>
  \<^verbatim>\<open>hmac.compare_digest\<close> compares two ASCII strings and raises \<^verbatim>\<open>TypeError\<close> on any other.
\<close>

definition ascii :: "string \<Rightarrow> bool" where
  "ascii s \<longleftrightarrow> (\<forall>ch \<in> set s. of_char ch < (128::nat))"

definition compare_digest :: "string \<Rightarrow> string \<Rightarrow> exn + bool" where
  "compare_digest a b = (if ascii a \<and> ascii b then Inr (a = b) else Inl (OtherError ''TypeError''))"

definition require_api_key :: "settings \<Rightarrow> string option \<Rightarrow> exn + unit" where
  "require_api_key st key =
     (case key of
        None \<Rightarrow> Inl (HTTPException 401 ''Invalid or missing API key'')
      | Some k \<Rightarrow>
          if k = '''' then Inl (HTTPException 401 ''Invalid or missing API key'')
          else (case compare_digest k (api_key st) of
                  Inl e \<Rightarrow> Inl e
                | Inr same \<Rightarrow>
                    if same then Inr () else Inl (HTTPException 401 ''Invalid or missing API key'')))"

section \<open>Endpoints\<close>

text \<open>
  FastAPI checks the router's dependencies before the parameters; a missing header or a body
  that does not validate is a \<^verbatim>\<open>RequestValidationError\<close>.
\<close>

definition request_validation_error :: exn where
  "request_validation_error = HTTPException 422 ''validation_error''"

definition service_request :: "codec \<Rightarrow> ticket_create_request \<Rightarrow> create_ticket_request" where
  "service_request c r =
     \<lparr>cr_user_id = tcr_user_id r, cr_stake_amount = tcr_stake_amount r,
      cr_currency = currency_value (tcr_currency r),
      cr_selections = map (selection_in_dump c) (tcr_selections r)\<rparr>"

definition create_endpoint ::
  "codec \<Rightarrow> settings \<Rightarrow> ambient \<Rightarrow> string option \<Rightarrow> string option \<Rightarrow> dict \<Rightarrow> response op" where
  "create_endpoint c st w key idempotency_key payload =
     py_bind (py_lift (require_api_key st key)) (\<lambda>_.
     case (idempotency_key, ticket_create_request_validate c payload) of
       (Some k, Some r) \<Rightarrow>
         session_scope (
           py_bind (create_ticket c w k (service_request c r)) (\<lambda>result.
           let ticket = ctr_ticket result in
           py_return \<lparr>r_status = 202, r_body = Accepted
             \<lparr>ta_ticket_id = t_id ticket, ta_status = t_status ticket, ta_created_at = t_created_at ticket\<rparr>\<rparr>))
     | _ \<Rightarrow> py_raise request_validation_error)"

definition get_endpoint :: "settings \<Rightarrow> string option \<Rightarrow> uuid option \<Rightarrow> response op" where
  "get_endpoint st key ticket_id =
     py_bind (py_lift (require_api_key st key)) (\<lambda>_.
     case ticket_id of
       None \<Rightarrow> py_raise request_validation_error
     | Some i \<Rightarrow>
         session_scope (
           py_bind (get_ticket i) (\<lambda>ticket.
           case ticket of
             None \<Rightarrow> py_raise (HTTPException 404 ''ticket_not_found'')
           | Some t \<Rightarrow> py_return \<lparr>r_status = 200, r_body = Ticket_body (ticket_response_of t)\<rparr>)))"

text \<open>\<^verbatim>\<open>register_error_handlers\<close>: what each exception is answered with.\<close>

fun error_response :: "exn \<Rightarrow> response" where
  "error_response (HTTPException code detail) = \<lparr>r_status = code, r_body = Detail detail\<rparr>"
| "error_response _ = \<lparr>r_status = 500, r_body = Detail ''internal_server_error''\<rparr>"

definition respond :: "response op \<Rightarrow> sess \<Rightarrow> response \<times> sess" where
  "respond m s = (case m s of (Inl e, s') \<Rightarrow> (error_response e, s') | (Inr r, s') \<Rightarrow> (r, s'))"

definition post_tickets ::
  "codec \<Rightarrow> settings \<Rightarrow> ambient \<Rightarrow> string option \<Rightarrow> string option \<Rightarrow> dict \<Rightarrow> sess \<Rightarrow> response \<times> sess" where
  "post_tickets c st w key idempotency_key payload = respond (create_endpoint c st w key idempotency_key payload)"

definition get_tickets :: "settings \<Rightarrow> string option \<Rightarrow> uuid option \<Rightarrow> sess \<Rightarrow> response \<times> sess" where
  "get_tickets st key ticket_id = respond (get_endpoint st key ticket_id)"

section \<open>What the schema promises the service\<close>

lemma required_Some: "required load k d = Some x \<longleftrightarrow> (\<exists>j. map_of d k = Some j \<and> load j = Some x)"
  by (simp add: required_def Option.bind_eq_Some_conv)

lemma request_validated:
  assumes "ticket_create_request_validate c d = Some r"
  shows "stake_amount_valid (tcr_stake_amount r)" and "1 \<le> length (tcr_selections r)"
    and "length (tcr_selections r) \<le> 20"
proof -
  obtain a sels where "stake_amount_load c a = Some (tcr_stake_amount r)"
    and "selections_load c sels = Some (tcr_selections r)"
    using assms by (auto simp: ticket_create_request_validate_def Option.bind_eq_Some_conv required_Some)
  then show "stake_amount_valid (tcr_stake_amount r)" and "1 \<le> length (tcr_selections r)"
    and "length (tcr_selections r) \<le> 20"
    by (auto simp: stake_amount_load_def selections_load_def Option.bind_eq_Some_conv split: if_splits)
qed

lemma half_up:
  fixes h q :: int
  assumes "0 < q"
  shows "(2 * \<bar>h * q\<bar> + q) div (2 * q) = \<bar>h\<bar>"
proof -
  have "2 * \<bar>h * q\<bar> + q = \<bar>h\<bar> * (2 * q) + q" using assms by (simp add: abs_mult)
  moreover have "(\<bar>h\<bar> * (2 * q) + q) div (2 * q) = \<bar>h\<bar> + q div (2 * q)"
    using assms by (intro div_mult_self3) simp
  moreover have "q div (2 * q) = 0" using assms by (intro div_pos_pos_trivial) simp_all
  ultimately show ?thesis by (simp only: add_0_right)
qed

text \<open>A stake the schema accepts is stored exactly, fits its column and is positive.\<close>

lemma hundredths_round:
  assumes "hundredths d = Some h"
  shows "numeric_round 2 d = Decimal h (- 2)"
proof (cases "- 2 \<le> exponent d")
  case True
  with assms show ?thesis by (simp add: hundredths_def numeric_round_def Let_def add.commute)
next
  case False
  let ?c = "coefficient d" and ?q = "(10::int) ^ nat (- 2 - exponent d)"
  have q: "0 < ?q" by simp
  from False assms have h: "?c mod ?q = 0" "h = ?c div ?q"
    by (simp_all add: hundredths_def Let_def split: if_splits)
  then have c: "?c = h * ?q" by (simp add: dvd_div_mult_self mod_eq_0_iff_dvd)
  have "sgn ?c * \<bar>h\<bar> = h" using q by (simp add: c sgn_mult mult_sgn_abs)
  with half_up [OF q, of h] False show ?thesis
    by (simp add: numeric_round_def Let_def c [symmetric])
qed

lemma valid_stake_stored:
  assumes "stake_amount_valid d"
  shows "0 < coefficient (numeric_round 2 d)" and "numeric_fits 18 (numeric_round 2 d)"
  using assms hundredths_round [of d]
  by (auto simp: stake_amount_valid_def numeric_fits_def split: option.splits)

lemma selection_in_stored:
  assumes "codec_ok c"
  shows "selection_validate c (selection_in_dump c x) =
     Some \<lparr>sel_event_id = si_event_id x, sel_market = si_market x, sel_odds = si_odds x\<rparr>"
  using codec_reads(3) [OF assms,
      of "\<lparr>sel_event_id = si_event_id x, sel_market = si_market x, sel_odds = si_odds x\<rparr>"]
  by (simp add: selection_dump_def selection_in_dump_def)

end
