(* ===== verification/Api_Properties.thy ===== *)
theory Api_Properties
  imports Api
begin

text \<open>
  The promises of the interface: a request the schema accepts is stored and answered with
  202, repeating it gives the same answer, a wrong key changes nothing, and which requests
  still end in an internal error.
\<close>

section \<open>Requests of the samples\<close>

definition sample_settings :: settings where
  "sample_settings = default_settings ''secret-key''"

definition sample_payload :: dict where
  "sample_payload =
     [(''user_id'', uuid_dump ref_codec 3), (''stake_amount'', decimal_dump ref_codec (Decimal 2500 (- 2))),
      (''currency'', JStr ''RUB''),
      (''selections'', JList [JObj [(''event_id'', JStr ''match:1''), (''market'', JStr ''1x2''),
                                    (''odds'', decimal_dump ref_codec (Decimal 185 (- 2)))]])]"

definition sample_create_request :: ticket_create_request where
  "sample_create_request =
     \<lparr>tcr_user_id = 3, tcr_stake_amount = Decimal 2500 (- 2), tcr_currency = RUB,
      tcr_selections = [\<lparr>si_event_id = ''match:1'', si_market = ''1x2'', si_odds = Decimal 185 (- 2)\<rparr>]\<rparr>"

lemma sample_payload_valid [simp]:
  "ticket_create_request_validate ref_codec sample_payload = Some sample_create_request"
  using load_enum_value [OF cur.str_enum_axioms, of RUB]
  by (simp add: ticket_create_request_validate_def sample_payload_def sample_create_request_def field_defs
      stake_amount_load_def selections_load_def selection_in_validate_def constrained_str_def
      stake_amount_valid_def hundredths_def)

lemma sample_key [simp]: "api_key sample_settings = ''secret-key''" "ascii ''secret-key''"
  by (simp_all add: sample_settings_def default_settings_def ascii_def)

section \<open>Reading\<close>

lemma get_ticket_committed: "get_ticket i s = (r, s') \<Longrightarrow> committed s' = committed s"
  using scalar_committed [of "\<lambda>db. select_by t_id i (tickets db)" s] by (simp add: get_ticket_def get_by_id_def)

lemma get_tickets_committed: "committed (snd (get_tickets st key i s)) = committed s"
proof -
  have "committed (snd (respond m s)) = committed (snd (m s))" for m s
    by (simp add: respond_def split: prod.split sum.split)
  then show ?thesis
    by (cases "require_api_key st key"; cases i)
      (auto simp: get_tickets_def get_endpoint_def py_bind_def py_lift_def py_raise_def py_return_def
        session_scope_committed dest: get_ticket_committed split: prod.splits sum.splits option.splits)
qed

section \<open>The key\<close>

lemma right_key: "ascii (api_key st) \<Longrightarrow> api_key st \<noteq> '''' \<Longrightarrow> require_api_key st (Some (api_key st)) = Inr ()"
  by (simp add: require_api_key_def compare_digest_def)

lemma wrong_key:
  assumes "key \<noteq> Some (api_key st)" and "ascii (api_key st)"
  shows "\<exists>e. require_api_key st key = Inl e \<and>
    r_status (error_response e) = (if \<forall>k. key = Some k \<longrightarrow> ascii k then 401 else 500)"
  using assms by (cases key) (auto simp: require_api_key_def compare_digest_def ascii_def)

text \<open>
  C30: nothing gets past the API key. Without the right key both endpoints answer 401
  whatever else the request holds (its body is parsed JSON), and neither the database nor a counter changes; but a
  key with a character outside ASCII is answered with an internal error, because the
  comparison raises.
\<close>

theorem api_requires_key:
  assumes "key \<noteq> Some (api_key st)" and "ascii (api_key st)"
  shows "r_status (fst (post_tickets c st w key idem payload s)) =
      (if \<forall>k. key = Some k \<longrightarrow> ascii k then 401 else 500) \<and>
    snd (post_tickets c st w key idem payload s) = s \<and>
    r_status (fst (get_tickets st key i s)) = (if \<forall>k. key = Some k \<longrightarrow> ascii k then 401 else 500) \<and>
    snd (get_tickets st key i s) = s"
proof -
  obtain e where e: "require_api_key st key = Inl e"
    "r_status (error_response e) = (if \<forall>k. key = Some k \<longrightarrow> ascii k then 401 else 500)"
    using wrong_key [OF assms] by blast
  then show ?thesis
    by (simp add: post_tickets_def get_tickets_def respond_def create_endpoint_def get_endpoint_def
        py_bind_def py_lift_def)
qed

theorem api_requires_key_witness:
  "r_status (fst (post_tickets ref_codec sample_settings (sample_ambient 0 id) (Some ''wrong'') (Some ''k2'')
      sample_payload (session_on empty_db))) = 401 \<and>
   r_status (fst (post_tickets ref_codec sample_settings (sample_ambient 0 id) (Some [CHR 0xE9]) (Some ''k2'')
      sample_payload (session_on empty_db))) = 500"
proof -
  have k: "''wrong'' \<noteq> api_key sample_settings" "[CHR 0xE9] \<noteq> api_key sample_settings"
    "ascii ''wrong''" "\<not> ascii [CHR 0xE9]"
    by (simp_all add: ascii_def)
  show ?thesis
    using api_requires_key [of "Some ''wrong''" sample_settings ref_codec "sample_ambient 0 id" "Some ''k2''"
        sample_payload "session_on empty_db" None]
      api_requires_key [of "Some [CHR 0xE9]" sample_settings ref_codec "sample_ambient 0 id" "Some ''k2''"
        sample_payload "session_on empty_db" None] k
    by (auto simp del: sample_key(1) simp: sample_key(2)) (simp_all add: sample_settings_def default_settings_def ascii_def)
qed

section \<open>Creation\<close>

lemma post_valid:
  assumes k: "require_api_key st key = Inr ()" and r: "ticket_create_request_validate c payload = Some r"
  shows "post_tickets c st w key (Some idem) payload s = respond (session_scope (
           py_bind (create_ticket c w idem (service_request c r)) (\<lambda>result.
           let ticket = ctr_ticket result in
           py_return \<lparr>r_status = 202, r_body = Accepted
             \<lparr>ta_ticket_id = t_id ticket, ta_status = t_status ticket, ta_created_at = t_created_at ticket\<rparr>\<rparr>))) s"
  by (simp add: post_tickets_def create_endpoint_def py_bind_def py_lift_def k r respond_def)

lemma valid_request_storable:
  assumes c: "codec_ok c" and r: "ticket_create_request_validate c payload = Some r"
    and len: "length idem \<le> 128"
  shows "storable c w (new_ticket i idem (service_request c r) (tcr_currency r))"
proof -
  note stake = valid_stake_stored [OF request_validated(1) [OF r]]
  have "map_options (selection_validate c) (map (selection_in_dump c) xs) =
      Some (map (\<lambda>x. \<lparr>sel_event_id = si_event_id x, sel_market = si_market x, sel_odds = si_odds x\<rparr>) xs)" for xs
    by (induction xs) (simp_all add: selection_in_stored [OF c])
  then show ?thesis using stake len
    by (simp add: storable_def stored_ticket_def new_ticket_def service_request_def ticket_columns_fit_def
        stake_amount_positive_def varchar_fits_def)
qed

lemma post_stores:
  assumes c: "codec_ok c" and k: "require_api_key st key = Inr ()"
    and r: "ticket_create_request_validate c payload = Some r"
    and len: "length idem \<le> 128" and q: "quiet w"
    and unused: "idem \<notin> t_idempotency_key ` set (tickets (committed s))"
    and ids: "uuid4 w 0 \<notin> t_id ` set (tickets (committed s))" "uuid4 w 2 \<notin> event_ids (committed s)"
    and t: "t = new_ticket (uuid4 w 0) idem (service_request c r) (tcr_currency r)"
  shows "\<exists>s' m. post_tickets c st w key (Some idem) payload s =
      (\<lparr>r_status = 202, r_body = Accepted \<lparr>ta_ticket_id = uuid4 w 0, ta_status = NEW,
          ta_created_at = db_clock w 0\<rparr>\<rparr>, s') \<and>
    committed s' = with_ticket c w t m (committed s) \<and> published s' = published s \<and>
    build_ticket_message c (clock w 0) (uuid4 w 1) (clock w 1) t = Inr m"
proof -
  let ?req = "service_request c r"
  have cur: "enum_by_value currency_value (cr_currency ?req) = Some (tcr_currency r)"
    by (simp add: service_request_def cur.by_value_value)
  have st: "storable c w t" unfolding t by (rule valid_request_storable [OF c r len])
  then obtain m where m: "build_ticket_message c (clock w 0) (uuid4 w 1) (clock w 1) t = Inr m"
    using build_ticket_message_ok [of c t "clock w 0" "uuid4 w 1" "clock w 1"] by (auto simp: storable_def)
  have fresh: "fresh_session (open_session s)" by (simp add: fresh_session_def)
  obtain s1 where run: "create_ticket c w idem ?req (open_session s) =
      (Inr \<lparr>ctr_ticket = timed (db_clock w 0) t, ctr_created = True\<rparr>, s1)"
    and s1: "committed s1 = with_ticket c w t m (committed s)" "published s1 = published s"
    using create_ticket_stores [OF fresh refl cur t _ _ _ _ st m] unused ids by (simp add: quiet_id [OF q])
  have "post_tickets c st w key (Some idem) payload s =
      (\<lparr>r_status = 202, r_body = Accepted \<lparr>ta_ticket_id = uuid4 w 0, ta_status = NEW,
          ta_created_at = db_clock w 0\<rparr>\<rparr>, open_session s1)"
    unfolding post_valid [OF k r]
    by (simp add: respond_def session_scope_def py_try_def py_bind_def run py_modify_def py_return_def)
      (simp add: t timed_def new_ticket_def)
  with m s1 show ?thesis by (intro exI [of _ "open_session s1"] exI [of _ m]) simp
qed

text \<open>
  Whatever the schema accepts is stored. With the right key, a header of at most 128
  characters not used before and no interference, the answer is 202 with the new ticket's
  identifier and status \<open>NEW\<close>; exactly one ticket and one outbox entry for it are added, and
  the stake is stored without rounding.
\<close>

theorem api_create_accepted:
  assumes c: "codec_ok c" and k: "require_api_key st key = Inr ()"
    and r: "ticket_create_request_validate c payload = Some r"
    and len: "length idem \<le> 128" and q: "quiet w"
    and unused: "idem \<notin> t_idempotency_key ` set (tickets (committed s))"
    and ids: "uuid4 w 0 \<notin> t_id ` set (tickets (committed s))" "uuid4 w 2 \<notin> event_ids (committed s)"
  shows "\<exists>s' row e. post_tickets c st w key (Some idem) payload s =
      (\<lparr>r_status = 202, r_body = Accepted \<lparr>ta_ticket_id = uuid4 w 0, ta_status = NEW,
          ta_created_at = db_clock w 0\<rparr>\<rparr>, s') \<and>
    tickets (committed s') = tickets (committed s) @ [row] \<and>
    outbox_events (committed s') = outbox_events (committed s) @ [e] \<and>
    t_id row = uuid4 w 0 \<and> t_idempotency_key row = idem \<and> t_status row = NEW \<and>
    hundredths (tcr_stake_amount r) = Some (coefficient (t_stake_amount row)) \<and>
    exponent (t_stake_amount row) = - 2 \<and>
    e_entity_id e = uuid4 w 0 \<and> e_status e = PENDING"
proof -
  let ?t = "new_ticket (uuid4 w 0) idem (service_request c r) (tcr_currency r)"
  obtain s' m where s': "post_tickets c st w key (Some idem) payload s =
      (\<lparr>r_status = 202, r_body = Accepted \<lparr>ta_ticket_id = uuid4 w 0, ta_status = NEW,
          ta_created_at = db_clock w 0\<rparr>\<rparr>, s')" "committed s' = with_ticket c w ?t m (committed s)"
    using post_stores [OF c k r len q unused ids refl] by blast
  obtain h where h: "hundredths (tcr_stake_amount r) = Some h"
    using request_validated(1) [OF r] by (auto simp: stake_amount_valid_def split: option.splits)
  show ?thesis
    using hundredths_round [OF h] h
    by (intro exI [of _ s'] exI [of _ "stored_ticket (db_clock w 0) ?t"]
        exI [of _ "outbound_event c (uuid4 w 2) (db_clock w 0) (uuid4 w 0) m"])
      (simp add: s' with_ticket_def insert_row_def, simp add: stored_ticket_def new_ticket_def
        service_request_def new_outbox_event_def)
qed

theorem api_create_accepted_witness:
  "\<exists>s'. post_tickets ref_codec sample_settings (sample_ambient 0 id) (Some ''secret-key'') (Some ''k2'')
      sample_payload (session_on (sample_db SETTLED)) =
      (\<lparr>r_status = 202, r_body = Accepted \<lparr>ta_ticket_id = 100, ta_status = NEW, ta_created_at = 2000\<rparr>\<rparr>, s') \<and>
    length (tickets (committed s')) = 2"
proof -
  have "require_api_key sample_settings (Some ''secret-key'') = Inr ()"
    using right_key [of sample_settings] by simp
  then show ?thesis
    using api_create_accepted [OF ref_codec_ok, of sample_settings "Some ''secret-key''" sample_payload
        sample_create_request "''k2''" "sample_ambient 0 id" "session_on (sample_db SETTLED)"]
    by auto
qed

lemma post_existing:
  assumes k: "require_api_key st key = Inr ()"
    and r: "ticket_create_request_validate c payload = Some r"
    and ok: "db_ok (committed s)" and t: "t \<in> set (tickets (committed s))" and idem: "t_idempotency_key t = idem"
  shows "\<exists>s'. post_tickets c st w key (Some idem) payload s =
      (\<lparr>r_status = 202, r_body = Accepted \<lparr>ta_ticket_id = t_id t, ta_status = t_status t,
          ta_created_at = t_created_at t\<rparr>\<rparr>, s') \<and>
    committed s' = committed s \<and> counters s' = counters s"
proof -
  have fresh: "fresh_session (open_session s)" by (simp add: fresh_session_def)
  from create_ticket_existing [OF fresh _ _ idem, of c w "service_request c r"] ok t
  show ?thesis
    unfolding post_valid [OF k r]
    by (simp add: respond_def session_scope_def py_try_def py_bind_def py_modify_def py_return_def)
qed

text \<open>
  Repeating a creation is safe. Once a ticket is stored under the header's key, every
  valid request with this key, with whatever content, is answered with 202 and that
  ticket's identifier and current status, and changes neither the database nor a counter.
\<close>

theorem api_create_repeated:
  assumes k: "require_api_key st key = Inr ()"
    and r: "ticket_create_request_validate c payload = Some r"
    and ok: "db_ok (committed s)" and t: "t \<in> set (tickets (committed s))" and idem: "t_idempotency_key t = idem"
  shows "\<exists>s'. post_tickets c st w key (Some idem) payload s =
      (\<lparr>r_status = 202, r_body = Accepted \<lparr>ta_ticket_id = t_id t, ta_status = t_status t,
          ta_created_at = t_created_at t\<rparr>\<rparr>, s') \<and>
    committed s' = committed s \<and> counters s' = counters s"
  by (rule post_existing [OF assms])

theorem api_create_repeated_witness:
  "\<exists>s'. post_tickets ref_codec sample_settings (sample_ambient 0 id) (Some ''secret-key'') (Some ''k1'')
      sample_payload (session_on (sample_db SETTLED)) =
      (\<lparr>r_status = 202, r_body = Accepted \<lparr>ta_ticket_id = 7, ta_status = SETTLED, ta_created_at = 10\<rparr>\<rparr>, s') \<and>
    committed s' = sample_db SETTLED"
proof -
  have "require_api_key sample_settings (Some ''secret-key'') = Inr ()"
    using right_key [of sample_settings] by simp
  moreover have "t_created_at (sample_ticket SETTLED) = 10" by (simp add: sample_ticket_def)
  ultimately show ?thesis
    using api_create_repeated [of sample_settings "Some ''secret-key''" ref_codec sample_payload
        sample_create_request "session_on (sample_db SETTLED)" "sample_ticket SETTLED" "''k1''" "sample_ambient 0 id"]
    by auto
qed

text \<open>
  The header is not validated against its column. A request the schema accepts, with the
  right key and an unused idempotency key of more than 128 characters, is answered with an
  internal error and stores nothing.
\<close>

theorem api_long_idempotency_key:
  assumes k: "require_api_key st key = Inr ()"
    and r: "ticket_create_request_validate c payload = Some r" and q: "quiet w"
    and unused: "idem \<notin> t_idempotency_key ` set (tickets (committed s))" and long: "128 < length idem"
  shows "\<exists>s'. post_tickets c st w key (Some idem) payload s =
      (\<lparr>r_status = 500, r_body = Detail ''internal_server_error''\<rparr>, s') \<and> committed s' = committed s"
proof -
  let ?cur = "tcr_currency r" and ?req = "service_request c r"
  let ?t = "new_ticket (uuid4 w 0) idem ?req ?cur"
  let ?s = "open_session s"
  have cur: "enum_by_value currency_value (cr_currency ?req) = Some ?cur"
    by (simp add: service_request_def cur.by_value_value)
  have same: "?s\<lparr>view := committed s\<rparr> = ?s" "?s\<lparr>committed := committed s, view := committed s\<rparr> = ?s"
    by (cases s, simp add: open_session_def)+
  have "insert_ticket (db_clock w 0) ?t (view ?s) = Inl DataError"
    using long by (simp add: insert_ticket_def Let_def ticket_columns_fit_def stored_ticket_def new_ticket_def)
  then have "store_ticket c w ?t ?s = (Inl DataError, ?s)"
    by (intro store_ticket_rejected) simp_all
  then have "create_ticket c w idem ?req ?s = (Inl DataError, ?s)"
    using unused get_key_missing [of idem ?s]
    by (simp add: create_ticket_def py_bind_def cur interfere_def py_modify_def quiet_id [OF q] same
        py_try_def py_raise_def)
  then show ?thesis
    unfolding post_valid [OF k r]
    by (simp add: respond_def session_scope_def py_try_def py_bind_def rollback_def py_modify_def py_raise_def)
qed

theorem api_long_idempotency_key_witness:
  "\<exists>s'. post_tickets ref_codec sample_settings (sample_ambient 0 id) (Some ''secret-key'')
      (Some (replicate 129 (CHR ''x''))) sample_payload (session_on empty_db) =
      (\<lparr>r_status = 500, r_body = Detail ''internal_server_error''\<rparr>, s') \<and> committed s' = empty_db"
proof -
  have "require_api_key sample_settings (Some ''secret-key'') = Inr ()"
    using right_key [of sample_settings] by simp
  then show ?thesis
    using api_long_idempotency_key [of sample_settings "Some ''secret-key''" ref_codec sample_payload
        sample_create_request "sample_ambient 0 id" "replicate 129 (CHR ''x'')" "session_on empty_db"]
    by simp
qed

section \<open>Reading\<close>

text \<open>
  Reading answers 404 exactly when there is no such ticket and otherwise 200 with the
  columns of its row, and changes nothing.
\<close>

theorem api_get_reads_row:
  assumes k: "require_api_key st key = Inr ()" and ok: "db_ok (committed s)"
  shows "get_tickets st key (Some i) s =
    ((case select_by t_id i (tickets (committed s)) of
        r # _ \<Rightarrow> \<lparr>r_status = 200, r_body = Ticket_body (ticket_response_of r)\<rparr>
      | [] \<Rightarrow> \<lparr>r_status = 404, r_body = Detail ''ticket_not_found''\<rparr>), open_session s)"
proof -
  have uniq: "unique_by t_id (tickets (committed s))" using ok by (simp add: db_ok_def)
  then show ?thesis
  proof (cases rule: select_by_cases [where k = i])
    case none
    then show ?thesis
      by (simp add: get_tickets_def respond_def get_endpoint_def py_bind_def py_lift_def k session_scope_def
          py_try_def get_ticket_def get_by_id_def scalar_none py_raise_def rollback_def py_modify_def)
  next
    case (one r)
    then have "get_by_id i (open_session s) = (Inr (Some r), (open_session s)\<lparr>objs := [i \<mapsto> (r, r)]\<rparr>)"
      unfolding get_by_id_def by (subst scalar_fresh [of _ _ r]) (auto simp: open_session_def)
    then show ?thesis using one(1)
      by (simp add: get_tickets_def respond_def get_endpoint_def py_bind_def py_lift_def k session_scope_def
          py_try_def get_ticket_def py_return_def py_modify_def open_session_def)
  qed
qed

theorem api_get_reads_row_witness:
  "fst (get_tickets sample_settings (Some ''secret-key'') (Some 7) (session_on (sample_db SETTLED))) =
     \<lparr>r_status = 200, r_body = Ticket_body (ticket_response_of (sample_ticket SETTLED))\<rparr>"
proof -
  have "require_api_key sample_settings (Some ''secret-key'') = Inr ()"
    using right_key [of sample_settings] by simp
  then show ?thesis
    using api_get_reads_row [of sample_settings "Some ''secret-key''" "session_on (sample_db SETTLED)" 7] by simp
qed

end
