(* ===== verification/Schema.thy ===== *)
theory Schema
  imports Database
begin

text \<open>
  The two descriptions of the database schema: the declarative models of
  \<^verbatim>\<open>backend/db/models\<close> (with the naming convention and the timestamps of
  \<^verbatim>\<open>backend/db/base.py\<close>), and the migrations of \<^verbatim>\<open>alembic/versions\<close> as the operations they run
  on a schema. The theory compares them and the values the enumerated columns store.
\<close>

section \<open>Schemas\<close>

datatype sql_type = Sql_uuid | Varchar nat | Numeric nat nat | Jsonb | Timestamptz | Sql_integer

datatype server_default = No_default | Literal string | Now

record column =
  col_name :: string
  col_type :: sql_type
  col_nullable :: bool
  col_default :: server_default

record index =
  ix_name :: string
  ix_columns :: "string list"
  ix_where :: "string option"

record table =
  tab_name :: string
  tab_columns :: "column list"
  tab_primary :: "string list"
  tab_unique :: "(string \<times> string list) list"
  tab_check :: "(string \<times> string) list"
  tab_indexes :: "index list"

type_synonym schema = "table list"

definition plain :: "string \<Rightarrow> sql_type \<Rightarrow> column" where
  "plain n ty = \<lparr>col_name = n, col_type = ty, col_nullable = False, col_default = No_default\<rparr>"

definition nullable_column :: "string \<Rightarrow> sql_type \<Rightarrow> column" where
  "nullable_column n ty = \<lparr>col_name = n, col_type = ty, col_nullable = True, col_default = No_default\<rparr>"

definition defaulted :: "string \<Rightarrow> sql_type \<Rightarrow> server_default \<Rightarrow> column" where
  "defaulted n ty d = \<lparr>col_name = n, col_type = ty, col_nullable = False, col_default = d\<rparr>"

text \<open>A string literal of SQL.\<close>

definition quoted :: "string \<Rightarrow> string" where
  "quoted s = CHR 0x27 # s @ [CHR 0x27]"

section \<open>The models\<close>

text \<open>
  \<^verbatim>\<open>NAMING_CONVENTION\<close>: the name a check constraint gets from the one it was given. SQLAlchemy
  applies a convention that contains \<^verbatim>\<open>constraint_name\<close> to every name that is not marked as final
  by \<^verbatim>\<open>conv\<close> (\<^verbatim>\<open>op.f\<close> in a migration); the other conventions are for constraints without a
  name, of which only the primary keys are.
\<close>

definition check_name :: "string \<Rightarrow> string \<Rightarrow> string" where
  "check_name tab constraint_name = ''ck_'' @ tab @ ''_'' @ constraint_name"

definition named :: "table \<Rightarrow> table" where
  "named t = t\<lparr>tab_check := map (\<lambda>(n, sql). (check_name (tab_name t) n, sql)) (tab_check t)\<rparr>"

definition timestamp_mixin :: "column list" where
  "timestamp_mixin = [defaulted ''created_at'' Timestamptz Now, defaulted ''updated_at'' Timestamptz Now]"

definition ticket_model :: table where
  "ticket_model =
     \<lparr>tab_name = ''tickets'',
      tab_columns =
        [plain ''id'' Sql_uuid,
         plain ''idempotency_key'' (Varchar 128),
         plain ''user_id'' Sql_uuid,
         plain ''stake_amount'' (Numeric 18 2),
         plain ''currency'' (Varchar 3),
         plain ''selections'' Jsonb,
         plain ''status'' (Varchar 32),
         nullable_column ''provider_recommendation'' (Varchar 16),
         nullable_column ''provider_reason'' (Varchar 512),
         nullable_column ''provider_recommendation_at'' Timestamptz,
         nullable_column ''settled_at'' Timestamptz,
         nullable_column ''confirmed_at'' Timestamptz,
         nullable_column ''cancelled_at'' Timestamptz,
         nullable_column ''failure_reason'' (Varchar 1024)] @ timestamp_mixin,
      tab_primary = [''id''],
      tab_unique = [(''uq_tickets_idempotency_key'', [''idempotency_key''])],
      tab_check = [(''stake_amount_positive'', ''stake_amount > 0'')],
      tab_indexes =
        [\<lparr>ix_name = ''ix_tickets_status'', ix_columns = [''status''], ix_where = None\<rparr>,
         \<lparr>ix_name = ''ix_tickets_status_updated_at'', ix_columns = [''status'', ''updated_at''], ix_where = None\<rparr>]\<rparr>"

definition outbox_event_model :: table where
  "outbox_event_model =
     \<lparr>tab_name = ''outbox_events'',
      tab_columns =
        [plain ''id'' Sql_uuid,
         plain ''entity_id'' Sql_uuid,
         plain ''event_type'' (Varchar 128),
         plain ''routing_key'' (Varchar 255),
         plain ''payload'' Jsonb,
         plain ''status'' (Varchar 16),
         plain ''attempts'' Sql_integer,
         nullable_column ''last_error'' (Varchar 2048),
         nullable_column ''published_at'' Timestamptz] @ timestamp_mixin,
      tab_primary = [''id''], tab_unique = [], tab_check = [],
      tab_indexes =
        [\<lparr>ix_name = ''ix_outbox_pending'', ix_columns = [''status'', ''created_at''],
          ix_where = Some (''status = '' @ quoted ''pending'')\<rparr>]\<rparr>"

definition processed_provider_message_model :: table where
  "processed_provider_message_model =
     \<lparr>tab_name = ''processed_provider_messages'',
      tab_columns =
        [plain ''message_id'' Sql_uuid,
         nullable_column ''ticket_id'' Sql_uuid,
         plain ''message_type'' (Varchar 64),
         defaulted ''processed_at'' Timestamptz Now],
      tab_primary = [''message_id''], tab_unique = [], tab_check = [],
      tab_indexes =
        [\<lparr>ix_name = ''ix_processed_provider_messages_processed_at'', ix_columns = [''processed_at''],
          ix_where = None\<rparr>]\<rparr>"

text \<open>\<^verbatim>\<open>Base.metadata\<close> with the names its tables have in the database.\<close>

definition target_metadata :: schema where
  "target_metadata = map named [outbox_event_model, ticket_model, processed_provider_message_model]"

section \<open>The migrations\<close>

datatype operation =
    Create_table table
  | Create_index string index
  | Drop_index string string
  | Drop_table string

text \<open>
  The environment passes \<^verbatim>\<open>target_metadata\<close>, so that alembic builds the table of
  \<^verbatim>\<open>op.create_table\<close> with the same naming convention.
\<close>

fun run_operation :: "operation \<Rightarrow> schema \<Rightarrow> schema" where
  "run_operation (Create_table t) sc = sc @ [named t]"
| "run_operation (Create_index tab ix) sc =
     map (\<lambda>t. if tab_name t = tab then t\<lparr>tab_indexes := tab_indexes t @ [ix]\<rparr> else t) sc"
| "run_operation (Drop_index ix tab) sc =
     map (\<lambda>t. if tab_name t = tab
              then t\<lparr>tab_indexes := filter (\<lambda>x. ix_name x \<noteq> ix) (tab_indexes t)\<rparr> else t) sc"
| "run_operation (Drop_table tab) sc = filter (\<lambda>t. tab_name t \<noteq> tab) sc"

definition run_operations :: "operation list \<Rightarrow> schema \<Rightarrow> schema" where
  "run_operations ops sc = fold run_operation ops sc"

definition upgrade_0001 :: "operation list" where
  "upgrade_0001 =
     [Create_table
       \<lparr>tab_name = ''outbox_events'',
        tab_columns =
          [plain ''id'' Sql_uuid,
           plain ''entity_id'' Sql_uuid,
           plain ''event_type'' (Varchar 128),
           plain ''routing_key'' (Varchar 255),
           plain ''payload'' Jsonb,
           defaulted ''status'' (Varchar 16) (Literal ''pending''),
           defaulted ''attempts'' Sql_integer (Literal ''0''),
           nullable_column ''last_error'' (Varchar 2048),
           nullable_column ''published_at'' Timestamptz,
           defaulted ''created_at'' Timestamptz Now,
           defaulted ''updated_at'' Timestamptz Now],
        tab_primary = [''id''], tab_unique = [], tab_check = [], tab_indexes = []\<rparr>,
      Create_index ''outbox_events''
        \<lparr>ix_name = ''ix_outbox_pending'', ix_columns = [''status'', ''created_at''],
         ix_where = Some (''status = '' @ quoted ''pending'')\<rparr>,
      Create_table
       \<lparr>tab_name = ''tickets'',
        tab_columns =
          [plain ''id'' Sql_uuid,
           plain ''idempotency_key'' (Varchar 128),
           plain ''user_id'' Sql_uuid,
           plain ''stake_amount'' (Numeric 18 2),
           plain ''currency'' (Varchar 3),
           plain ''selections'' Jsonb,
           defaulted ''status'' (Varchar 32) (Literal ''new''),
           nullable_column ''provider_recommendation'' (Varchar 16),
           nullable_column ''provider_reason'' (Varchar 512),
           nullable_column ''provider_recommendation_at'' Timestamptz,
           nullable_column ''settled_at'' Timestamptz,
           nullable_column ''confirmed_at'' Timestamptz,
           nullable_column ''cancelled_at'' Timestamptz,
           nullable_column ''failure_reason'' (Varchar 1024),
           defaulted ''created_at'' Timestamptz Now,
           defaulted ''updated_at'' Timestamptz Now],
        tab_primary = [''id''],
        tab_unique = [(''uq_tickets_idempotency_key'', [''idempotency_key''])],
        tab_check = [(''ck_tickets_stake_amount_positive'', ''stake_amount > 0'')],
        tab_indexes = []\<rparr>,
      Create_index ''tickets''
        \<lparr>ix_name = ''ix_tickets_status'', ix_columns = [''status''], ix_where = None\<rparr>,
      Create_index ''tickets''
        \<lparr>ix_name = ''ix_tickets_status_updated_at'', ix_columns = [''status'', ''updated_at''], ix_where = None\<rparr>]"

definition downgrade_0001 :: "operation list" where
  "downgrade_0001 =
     [Drop_index ''ix_tickets_status_updated_at'' ''tickets'',
      Drop_index ''ix_tickets_status'' ''tickets'',
      Drop_table ''tickets'',
      Drop_index ''ix_outbox_pending'' ''outbox_events'',
      Drop_table ''outbox_events'']"

definition upgrade_0002 :: "operation list" where
  "upgrade_0002 =
     [Create_table
       \<lparr>tab_name = ''processed_provider_messages'',
        tab_columns =
          [plain ''message_id'' Sql_uuid,
           nullable_column ''ticket_id'' Sql_uuid,
           plain ''message_type'' (Varchar 64),
           defaulted ''processed_at'' Timestamptz Now],
        tab_primary = [''message_id''], tab_unique = [], tab_check = [], tab_indexes = []\<rparr>,
      Create_index ''processed_provider_messages''
        \<lparr>ix_name = ''ix_processed_provider_messages_processed_at'', ix_columns = [''processed_at''],
         ix_where = None\<rparr>]"

definition downgrade_0002 :: "operation list" where
  "downgrade_0002 =
     [Drop_index ''ix_processed_provider_messages_processed_at'' ''processed_provider_messages'',
      Drop_table ''processed_provider_messages'']"

definition migrated :: schema where
  "migrated = run_operations upgrade_0002 (run_operations upgrade_0001 [])"

section \<open>Stored values\<close>









section \<open>Comparison\<close>

text \<open>
  What the migrations make of a declared table: three columns have a server default of their
  own, and a check constraint goes through the naming convention a second time.
\<close>

definition own_default :: "string \<Rightarrow> string \<Rightarrow> server_default option" where
  "own_default tab col =
     map_of [((''outbox_events'', ''status''), Literal ''pending''), ((''outbox_events'', ''attempts''), Literal ''0''),
             ((''tickets'', ''status''), Literal ''new'')] (tab, col)"

definition as_migrated :: "table \<Rightarrow> table" where
  "as_migrated t = named (t\<lparr>tab_columns := map (\<lambda>c.
     case own_default (tab_name t) (col_name c) of None \<Rightarrow> c | Some d \<Rightarrow> c\<lparr>col_default := d\<rparr>) (tab_columns t)\<rparr>)"

lemmas schema_defs =
  upgrade_0001_def upgrade_0002_def downgrade_0001_def downgrade_0002_def run_operations_def
  plain_def nullable_column_def defaulted_def timestamp_mixin_def check_name_def named_def

lemmas model_defs =
  target_metadata_def ticket_model_def outbox_event_model_def processed_provider_message_model_def

lemma migrated_declared: "migrated = map as_migrated target_metadata"
  by (simp add: migrated_def as_migrated_def own_default_def schema_defs model_defs)

lemma downgraded:
  "run_operations downgrade_0002 migrated = run_operations upgrade_0001 []"
  "run_operations downgrade_0001 (run_operations upgrade_0001 []) = []"
  by (simp_all add: migrated_def schema_defs)

text \<open>Operations leave the tables they do not name as they are.\<close>

fun operation_table :: "operation \<Rightarrow> string" where
  "operation_table (Create_table t) = tab_name t"
| "operation_table (Create_index tab ix) = tab"
| "operation_table (Drop_index ix tab) = tab"
| "operation_table (Drop_table tab) = tab"

lemma run_operation_beside:
  assumes "operation_table oper \<notin> tab_name ` set rest"
  shows "run_operation oper (rest @ sc) = rest @ run_operation oper sc"
proof -
  have "map (\<lambda>t. if tab_name t = tab then f t else t) rest = rest" if "tab \<notin> tab_name ` set rest" for tab and f :: "table \<Rightarrow> table"
    using that by (intro map_idI) auto
  with assms show ?thesis by (cases oper) (auto intro: filter_True)
qed

lemma run_operations_beside:
  assumes "\<forall>oper \<in> set ops. operation_table oper \<notin> tab_name ` set rest"
  shows "run_operations ops (rest @ sc) = rest @ run_operations ops sc"
  using assms unfolding run_operations_def
  by (induction ops arbitrary: sc) (simp_all add: run_operation_beside)

lemma run_operations_append: "run_operations (xs @ ys) sc = run_operations ys (run_operations xs sc)"
  by (simp add: run_operations_def)

definition backend_tables :: "string set" where
  "backend_tables = {''outbox_events'', ''tickets'', ''processed_provider_messages''}"

lemma operations_of_backend:
  assumes "oper \<in> set (upgrade_0001 @ upgrade_0002 @ downgrade_0002 @ downgrade_0001)"
  shows "operation_table oper \<in> backend_tables"
  using assms
  by (auto simp: upgrade_0001_def upgrade_0002_def downgrade_0001_def downgrade_0002_def backend_tables_def)

text \<open>
  C35: the migrations, run in a database with whatever other tables, add exactly the tables the
  models declare, with the same columns, types, nullability, keys, indexes and conditions, but
  for two differences: the server defaults of \<open>status\<close> and \<open>attempts\<close>, and the name of the
  check on the stake. That one carries the prefix of the convention twice, because the
  migration gives the name the convention makes and the convention is applied to it again. The
  downgrades, in the opposite order, take away what the upgrades added and nothing else.
\<close>

theorem migrations_match_models:
  assumes "tab_name ` set rest \<inter> backend_tables = {}"
  shows "run_operations (upgrade_0001 @ upgrade_0002) rest = rest @ map as_migrated target_metadata \<and>
    map tab_check target_metadata = [[], [(''ck_tickets_stake_amount_positive'', ''stake_amount > 0'')], []] \<and>
    map tab_check (map as_migrated target_metadata) =
      [[], [(''ck_tickets_ck_tickets_stake_amount_positive'', ''stake_amount > 0'')], []] \<and>
    run_operations downgrade_0002 (rest @ map as_migrated target_metadata) = run_operations upgrade_0001 rest \<and>
    run_operations (downgrade_0002 @ downgrade_0001) (rest @ map as_migrated target_metadata) = rest"
proof -
  have beside: "run_operations ops (rest @ sc) = rest @ run_operations ops sc"
    if "set ops \<subseteq> set (upgrade_0001 @ upgrade_0002 @ downgrade_0002 @ downgrade_0001)" for ops sc
    using that operations_of_backend assms by (intro run_operations_beside) blast
  have down: "run_operations ops (rest @ sc) = rest @ run_operations ops sc"
    if "set ops \<subseteq> set (downgrade_0002 @ downgrade_0001)" for ops sc
    using beside [of ops sc] that by auto
  have up: "run_operations ops rest = rest @ run_operations ops []"
    if "set ops \<subseteq> set (upgrade_0001 @ upgrade_0002)" for ops
    using beside [of ops "[]"] that by auto
  have checks: "map tab_check target_metadata = [[], [(''ck_tickets_stake_amount_positive'', ''stake_amount > 0'')], []]"
    "map tab_check (map as_migrated target_metadata) =
      [[], [(''ck_tickets_ck_tickets_stake_amount_positive'', ''stake_amount > 0'')], []]"
    by (simp_all add: model_defs as_migrated_def named_def check_name_def)
  have "run_operations (upgrade_0001 @ upgrade_0002) [] = migrated"
    by (simp only: migrated_def run_operations_append)
  with checks show ?thesis
    using up [of "upgrade_0001 @ upgrade_0002"] up [of upgrade_0001] down [of downgrade_0002 migrated]
      down [of downgrade_0001 "run_operations upgrade_0001 []"] downgraded
    by (simp add: run_operations_append flip: migrated_declared)
qed

theorem migrations_match_models_witness:
  "run_operations (downgrade_0002 @ downgrade_0001)
     ([\<lparr>tab_name = ''audit'', tab_columns = [plain ''id'' Sql_uuid], tab_primary = [''id''], tab_unique = [],
        tab_check = [], tab_indexes = []\<rparr>] @ map as_migrated target_metadata) =
   [\<lparr>tab_name = ''audit'', tab_columns = [plain ''id'' Sql_uuid], tab_primary = [''id''], tab_unique = [],
      tab_check = [], tab_indexes = []\<rparr>]"
  using migrations_match_models [of "[\<lparr>tab_name = ''audit'', tab_columns = [plain ''id'' Sql_uuid],
      tab_primary = [''id''], tab_unique = [], tab_check = [], tab_indexes = []\<rparr>]"]
  by (simp add: backend_tables_def)


end
