(* ===== verification/Probes.thy ===== *)
theory Probes
  imports Wire
begin

text \<open>
  Health: the registry of probes of \<^verbatim>\<open>backend/observability/probes.py\<close>, the database check,
  the two gauges, and the endpoints that answer them (\<^verbatim>\<open>http_server.py\<close> for the workers; the
  API serves the same three in \<^verbatim>\<open>api/app.py\<close>). A check reads the world \<open>'w\<close> and returns a
  boolean or raises.
\<close>

section \<open>The registry\<close>

record 'w probe =
  pb_name :: string
  pb_check :: "'w \<Rightarrow> exn + bool"
  pb_critical_for_readiness :: bool
  pb_succeeded_once :: bool
  pb_last_ok :: bool
  pb_last_checked_at :: instant

record 'w probe_registry =
  pr_liveness_flag :: bool
  pr_probes :: "'w probe list"

definition new_registry :: "'w probe_registry" where
  "new_registry = \<lparr>pr_liveness_flag = True, pr_probes = []\<rparr>"

definition add_probe :: "string \<Rightarrow> ('w \<Rightarrow> exn + bool) \<Rightarrow> bool \<Rightarrow> 'w probe_registry \<Rightarrow> 'w probe_registry" where
  "add_probe n check critical reg =
     reg\<lparr>pr_probes := pr_probes reg @
       [\<lparr>pb_name = n, pb_check = check, pb_critical_for_readiness = critical,
         pb_succeeded_once = False, pb_last_ok = False, pb_last_checked_at = 0\<rparr>]\<rparr>"

definition mark_dead :: "'w probe_registry \<Rightarrow> 'w probe_registry" where
  "mark_dead reg = reg\<lparr>pr_liveness_flag := False\<rparr>"

definition run_check :: "'w \<Rightarrow> 'w probe \<Rightarrow> bool" where
  "run_check w p = (case pb_check p w of Inl _ \<Rightarrow> False | Inr ok \<Rightarrow> ok)"

definition checked :: "'w \<Rightarrow> instant \<Rightarrow> 'w probe \<Rightarrow> 'w probe" where
  "checked w now p =
     (let ok = run_check w p
      in p\<lparr>pb_last_ok := ok, pb_last_checked_at := now,
           pb_succeeded_once := (if ok then True else pb_succeeded_once p)\<rparr>)"

text \<open>The loop of \<^verbatim>\<open>check_all\<close>; the results are a dict, so a later probe of a name overwrites.\<close>

fun check_probes :: "'w \<Rightarrow> instant \<Rightarrow> 'w probe list \<Rightarrow> (string \<Rightarrow> bool option) \<Rightarrow>
    'w probe list \<times> (string \<Rightarrow> bool option)" where
  "check_probes w now [] results = ([], results)"
| "check_probes w now (p # ps) results =
     (let (qs, final) = check_probes w now ps (results(pb_name p \<mapsto> run_check w p))
      in (checked w now p # qs, final))"

definition check_all :: "'w \<Rightarrow> instant \<Rightarrow> 'w probe_registry \<Rightarrow> (string \<Rightarrow> bool option) \<times> 'w probe_registry" where
  "check_all w now reg =
     (let (ps, results) = check_probes w now (pr_probes reg) Map.empty
      in (results, reg\<lparr>pr_probes := ps\<rparr>))"

definition is_ready :: "'w \<Rightarrow> instant \<Rightarrow> 'w probe_registry \<Rightarrow> bool \<times> 'w probe_registry" where
  "is_ready w now reg =
     (let (results, reg') = check_all w now reg
      in (list_all (\<lambda>p. results (pb_name p) = Some True)
            (filter pb_critical_for_readiness (pr_probes reg')), reg'))"

definition has_started :: "'w \<Rightarrow> instant \<Rightarrow> 'w probe_registry \<Rightarrow> bool \<times> 'w probe_registry" where
  "has_started w now reg =
     (let (results, reg') = check_all w now reg
      in (list_all pb_succeeded_once (filter pb_critical_for_readiness (pr_probes reg')), reg'))"

definition is_alive :: "'w probe_registry \<Rightarrow> bool" where
  "is_alive reg = pr_liveness_flag reg"

text \<open>\<^verbatim>\<open>db_ping\<close>: \<open>ping\<close> is what connecting and \<^verbatim>\<open>SELECT 1\<close> do.\<close>

definition db_ping :: "('w \<Rightarrow> exn + unit) \<Rightarrow> 'w \<Rightarrow> exn + bool" where
  "db_ping ping w = (case ping w of Inl _ \<Rightarrow> Inr False | Inr _ \<Rightarrow> Inr True)"

section \<open>The endpoints\<close>

record gauges =
  process_up :: "string \<Rightarrow> nat"
  process_ready :: "string \<Rightarrow> nat"

record probe_response =
  ps_code :: nat
  ps_status :: string
  ps_checks :: "(string \<times> bool) list"

definition server_new :: "string \<Rightarrow> gauges \<Rightarrow> gauges" where
  "server_new component g =
     g\<lparr>process_up := (process_up g)(component := 0), process_ready := (process_ready g)(component := 0)\<rparr>"

definition server_start :: "string \<Rightarrow> gauges \<Rightarrow> gauges" where
  "server_start component g = g\<lparr>process_up := (process_up g)(component := 1)\<rparr>"

definition server_stop :: "string \<Rightarrow> gauges \<Rightarrow> gauges" where
  "server_stop component g =
     g\<lparr>process_up := (process_up g)(component := 0), process_ready := (process_ready g)(component := 0)\<rparr>"

definition live :: "'w probe_registry \<Rightarrow> probe_response" where
  "live reg =
     (if is_alive reg then \<lparr>ps_code = 200, ps_status = ''alive'', ps_checks = []\<rparr>
      else \<lparr>ps_code = 503, ps_status = ''dead'', ps_checks = []\<rparr>)"

definition ready ::
  "'w \<Rightarrow> instant \<Rightarrow> string \<Rightarrow> 'w probe_registry \<times> gauges \<Rightarrow> probe_response \<times> 'w probe_registry \<times> gauges" where
  "ready w now component rg =
     (let (ok, reg) = is_ready w now (fst rg);
          g = (snd rg)\<lparr>process_ready := (process_ready (snd rg))(component := (if ok then 1 else 0))\<rparr>
      in (if ok then \<lparr>ps_code = 200, ps_status = ''ready'', ps_checks = []\<rparr>
          else \<lparr>ps_code = 503, ps_status = ''not_ready'',
                ps_checks = map (\<lambda>p. (pb_name p, pb_last_ok p)) (pr_probes reg)\<rparr>, reg, g))"

definition startup :: "'w \<Rightarrow> instant \<Rightarrow> 'w probe_registry \<Rightarrow> probe_response \<times> 'w probe_registry" where
  "startup w now reg =
     (let (ok, reg') = has_started w now reg
      in (if ok then \<lparr>ps_code = 200, ps_status = ''started'', ps_checks = []\<rparr>
          else \<lparr>ps_code = 503, ps_status = ''starting'',
                ps_checks = map (\<lambda>p. (pb_name p, pb_succeeded_once p)) (pr_probes reg')\<rparr>, reg'))"

section \<open>What a check of all probes computes\<close>

lemma check_probes_eq:
  "check_probes w now ps results =
    (map (checked w now) ps,
     \<lambda>n. case map_of (rev (map (\<lambda>p. (pb_name p, run_check w p)) ps)) n of
            Some ok \<Rightarrow> Some ok | None \<Rightarrow> results n)"
proof (induction ps arbitrary: results)
  case (Cons p ps)
  show ?case
    by (auto simp: Cons map_add_def fun_eq_iff split: option.splits)
qed simp

lemma checked_simps [simp]:
  "pb_name (checked w now p) = pb_name p"
  "pb_critical_for_readiness (checked w now p) = pb_critical_for_readiness p"
  "pb_check (checked w now p) = pb_check p"
  "pb_last_ok (checked w now p) = run_check w p"
  "pb_succeeded_once (checked w now p) = (run_check w p \<or> pb_succeeded_once p)"
  by (simp_all add: checked_def Let_def)

lemma check_all_eq:
  "check_all w now reg =
    (map_of (rev (map (\<lambda>p. (pb_name p, run_check w p)) (pr_probes reg))),
     reg\<lparr>pr_probes := map (checked w now) (pr_probes reg)\<rparr>)"
  by (simp add: check_all_def check_probes_eq fun_eq_iff split: option.splits)

lemma result_of_probe:
  assumes "distinct (map pb_name ps)" and "p \<in> set ps"
  shows "map_of (rev (map (\<lambda>p. (pb_name p, run_check w p)) ps)) (pb_name p) = Some (run_check w p)"
proof (rule map_of_is_SomeI)
  show "distinct (map fst (rev (map (\<lambda>p. (pb_name p, run_check w p)) ps)))"
    using assms(1) by (simp add: rev_map [symmetric] comp_def)
qed (use assms(2) in auto)

text \<open>
  Readiness. With probes of distinct names, the endpoint answers 200 exactly when every
  critical probe's check returns true now (one that raises counts as false), sets the gauge
  to match, lists otherwise each probe's outcome, and neither it nor a failing check changes
  the liveness.
\<close>

theorem ready_iff_checks_pass:
  assumes "distinct (map pb_name (pr_probes reg))"
  shows "ps_code (fst (ready w now component (reg, g))) =
      (if \<forall>p \<in> set (pr_probes reg). pb_critical_for_readiness p \<longrightarrow> pb_check p w = Inr True then 200 else 503) \<and>
    process_ready (snd (snd (ready w now component (reg, g)))) component =
      (if ps_code (fst (ready w now component (reg, g))) = 200 then 1 else 0) \<and>
    (ps_code (fst (ready w now component (reg, g))) = 503 \<longrightarrow>
      ps_checks (fst (ready w now component (reg, g))) =
        map (\<lambda>p. (pb_name p, pb_check p w = Inr True)) (pr_probes reg)) \<and>
    live (fst (snd (ready w now component (reg, g)))) = live reg"
proof -
  have ok: "run_check w p \<longleftrightarrow> pb_check p w = Inr True" for p
    by (simp add: run_check_def split: sum.splits)
  show ?thesis
    using result_of_probe [OF assms, of _ w]
    by (auto simp: ready_def is_ready_def check_all_eq live_def is_alive_def ok Let_def list_all_iff)
qed

definition sample_registry :: "bool probe_registry" where
  "sample_registry =
     add_probe ''provider_gateway'' (\<lambda>up. Inr up) True
       (add_probe ''db'' (db_ping (\<lambda>up. Inr ())) True new_registry)"

definition sample_gauges :: gauges where
  "sample_gauges = \<lparr>process_up = (\<lambda>_. 0), process_ready = (\<lambda>_. 0)\<rparr>"

theorem ready_iff_checks_pass_witness:
  "ps_code (fst (ready True 5 ''provider_gateway'' (sample_registry, sample_gauges))) = 200 \<and>
   ps_code (fst (ready False 6 ''provider_gateway'' (sample_registry, sample_gauges))) = 503"
  using ready_iff_checks_pass [of sample_registry True 5 "''provider_gateway''" sample_gauges]
    ready_iff_checks_pass [of sample_registry False 6 "''provider_gateway''" sample_gauges]
  by (simp add: sample_registry_def add_probe_def new_registry_def db_ping_def)

text \<open>
  Startup latches. Once the startup endpoint has answered 200 it answers 200 for ever,
  whatever the checks return afterwards; probes are neither lost nor added.
\<close>

theorem startup_latches:
  assumes "ps_code (fst (startup w now reg)) = 200"
  shows "ps_code (fst (startup w' now' (snd (startup w now reg)))) = 200 \<and>
    map pb_name (pr_probes (snd (startup w' now' (snd (startup w now reg))))) = map pb_name (pr_probes reg)"
proof -
  have snd: "snd (startup w now reg) = reg\<lparr>pr_probes := map (checked w now) (pr_probes reg)\<rparr>"
    for w now and reg :: "'a probe_registry"
    by (simp add: startup_def has_started_def check_all_eq Let_def)
  have code: "ps_code (fst (startup w now reg)) = 200 \<longleftrightarrow>
      (\<forall>p \<in> set (pr_probes reg). pb_critical_for_readiness p \<longrightarrow> run_check w p \<or> pb_succeeded_once p)"
    for w now and reg :: "'a probe_registry"
    by (simp add: startup_def has_started_def check_all_eq Let_def filter_map list.pred_map comp_def)
      (auto simp: list_all_iff)
  have after: "\<forall>p \<in> set (pr_probes reg). pb_critical_for_readiness p \<longrightarrow> run_check w p \<or> pb_succeeded_once p"
    using assms by (simp only: code)
  show ?thesis unfolding code snd using after by simp
qed

theorem startup_latches_witness:
  "ps_code (fst (startup False 6 (snd (startup True 5 sample_registry)))) = 200"
  using startup_latches [of True 5 sample_registry False 6]
  by (simp add: startup_def has_started_def check_all_eq sample_registry_def add_probe_def new_registry_def
      db_ping_def run_check_def Let_def)

text \<open>Two probes of one name share one result, the later one's.\<close>

lemma ready_hides_duplicate:
  "fst (is_ready w now (add_probe n (\<lambda>_. Inr True) True (add_probe n (\<lambda>_. Inr False) True new_registry)))"
  by (simp add: is_ready_def check_all_eq add_probe_def new_registry_def run_check_def Let_def)

end
