(* ===== verification/Processes.thy ===== *)
theory Processes
  imports Config
begin

text \<open>
  The processes around the components: the cached database handles of
  \<^verbatim>\<open>backend/db/session.py\<close>, and the shutdown sequences in the \<^verbatim>\<open>finally\<close> blocks of the four
  entry points (\<^verbatim>\<open>api/app.py\<close> and the three \<^verbatim>\<open>main.py\<close>), where an exception of one step
  leaves the steps after it undone.
\<close>

section \<open>Database handles\<close>

text \<open>
  Engines are numbered in the order of their creation; a session factory is the number of
  the engine it is bound to. \<open>dh_disposed\<close> lists the engines that were disposed of.
\<close>

record db_handles =
  dh_engine :: "nat option"
  dh_sessionmaker :: "nat option"
  dh_created :: nat
  dh_disposed :: "nat list"

definition no_handles :: db_handles where
  "no_handles = \<lparr>dh_engine = None, dh_sessionmaker = None, dh_created = 0, dh_disposed = []\<rparr>"

definition get_engine :: "db_handles \<Rightarrow> nat \<times> db_handles" where
  "get_engine h =
     (case dh_engine h of
        Some e \<Rightarrow> (e, h)
      | None \<Rightarrow> (dh_created h, h\<lparr>dh_engine := Some (dh_created h), dh_created := dh_created h + 1\<rparr>))"

definition get_sessionmaker :: "db_handles \<Rightarrow> nat \<times> db_handles" where
  "get_sessionmaker h =
     (case dh_sessionmaker h of
        Some m \<Rightarrow> (m, h)
      | None \<Rightarrow> (let (e, h') = get_engine h in (e, h'\<lparr>dh_sessionmaker := Some e\<rparr>)))"

definition dispose_engine :: "db_handles \<Rightarrow> db_handles" where
  "dispose_engine h =
     (let h' = (case dh_engine h of None \<Rightarrow> h | Some e \<Rightarrow> h\<lparr>dh_disposed := e # dh_disposed h\<rparr>)
      in h'\<lparr>dh_engine := None, dh_sessionmaker := None\<rparr>)"

datatype handle_call = Get_engine | Get_sessionmaker | Dispose_engine

fun handle_step :: "handle_call \<Rightarrow> db_handles \<Rightarrow> db_handles" where
  "handle_step Get_engine h = snd (get_engine h)"
| "handle_step Get_sessionmaker h = snd (get_sessionmaker h)"
| "handle_step Dispose_engine h = dispose_engine h"

definition handles_ok :: "db_handles \<Rightarrow> bool" where
  "handles_ok h \<longleftrightarrow>
     (\<forall>m. dh_sessionmaker h = Some m \<longrightarrow> dh_engine h = Some m) \<and>
     (\<forall>e. dh_engine h = Some e \<longrightarrow> e < dh_created h \<and> e \<notin> set (dh_disposed h)) \<and>
     (\<forall>e \<in> set (dh_disposed h). e < dh_created h)"

lemma handle_step_ok: "handles_ok h \<Longrightarrow> handles_ok (handle_step call h)"
  by (cases call; cases "dh_engine h"; cases "dh_sessionmaker h")
    (auto simp: handles_ok_def get_engine_def get_sessionmaker_def dispose_engine_def Let_def)

lemma handles_ok_run: "handles_ok h \<Longrightarrow> handles_ok (fold handle_step calls h)"
  by (induction calls arbitrary: h) (simp_all add: handle_step_ok)

text \<open>
  Whatever calls were made before, the factory a caller gets is bound to an engine that
  has not been disposed of, and asking again gives the same one.
\<close>

theorem sessionmaker_is_live:
  "let h = fold handle_step calls no_handles; (m, h') = get_sessionmaker h
   in m \<notin> set (dh_disposed h') \<and> dh_engine h' = Some m \<and> get_sessionmaker h' = (m, h')"
proof -
  have "handles_ok no_handles" by (simp add: handles_ok_def no_handles_def)
  then have ok: "handles_ok (fold handle_step calls no_handles)" by (rule handles_ok_run)
  show ?thesis
    using ok by (cases "dh_engine (fold handle_step calls no_handles)";
        cases "dh_sessionmaker (fold handle_step calls no_handles)")
      (auto simp: handles_ok_def get_engine_def get_sessionmaker_def Let_def)
qed

section \<open>Shutdown\<close>

datatype shutdown_step =
    Gauges_down | Provider_stop | Worker_stop | Monolith_close | Broker_close | Probes_stop | Engine_dispose

text \<open>\<^verbatim>\<open>FakeMonolithClient\<close> defines these methods; calling another raises \<^verbatim>\<open>AttributeError\<close>.\<close>

definition monolith_methods :: "string list" where
  "monolith_methods = [''process_ticket'', ''_maybe_fail'']"

definition call_method :: "string list \<Rightarrow> string \<Rightarrow> exn + unit" where
  "call_method methods name = (if name \<in> set methods then Inr () else Inl AttributeError)"

text \<open>\<open>outcome\<close> is what the third-party steps do.\<close>

definition step_outcome :: "(shutdown_step \<Rightarrow> exn + unit) \<Rightarrow> shutdown_step \<Rightarrow> exn + unit" where
  "step_outcome outcome step =
     (if step = Monolith_close then call_method monolith_methods ''close'' else outcome step)"

fun run_shutdown :: "(shutdown_step \<Rightarrow> exn + unit) \<Rightarrow> shutdown_step list \<Rightarrow> shutdown_step list \<times> exn option" where
  "run_shutdown outcome [] = ([], None)"
| "run_shutdown outcome (step # steps) =
     (case step_outcome outcome step of
        Inl e \<Rightarrow> ([], Some e)
      | Inr _ \<Rightarrow> (let (done, e) = run_shutdown outcome steps in (step # done, e)))"

definition api_shutdown :: "shutdown_step list" where
  "api_shutdown = [Gauges_down, Monolith_close, Broker_close, Engine_dispose]"

definition consumer_shutdown :: "shutdown_step list" where
  "consumer_shutdown = [Monolith_close, Broker_close, Probes_stop, Engine_dispose]"

definition reconciler_shutdown :: "shutdown_step list" where
  "reconciler_shutdown = [Monolith_close, Probes_stop, Engine_dispose]"

definition gateway_shutdown :: "shutdown_step list" where
  "gateway_shutdown = [Provider_stop, Worker_stop, Broker_close, Probes_stop, Engine_dispose]"

text \<open>
  Three of the four processes do not shut down cleanly. The client to the monolith has no
  \<^verbatim>\<open>close\<close>, so that even when every other step would succeed the API stops after its gauges
  and the consumer and the reconciler before anything, with \<^verbatim>\<open>AttributeError\<close>: the broker
  connection, the probes server and the engine are left open. The gateway, which has no
  such client, runs all its steps.
\<close>

theorem shutdown_stops_at_monolith:
  assumes "\<forall>step. outcome step = Inr ()"
  shows "run_shutdown outcome api_shutdown = ([Gauges_down], Some AttributeError) \<and>
    run_shutdown outcome consumer_shutdown = ([], Some AttributeError) \<and>
    run_shutdown outcome reconciler_shutdown = ([], Some AttributeError) \<and>
    run_shutdown outcome gateway_shutdown = (gateway_shutdown, None)"
  using assms
  by (simp add: api_shutdown_def consumer_shutdown_def reconciler_shutdown_def gateway_shutdown_def
      step_outcome_def call_method_def monolith_methods_def)

theorem shutdown_stops_at_monolith_witness:
  "run_shutdown (\<lambda>_. Inr ()) consumer_shutdown = ([], Some AttributeError)"
  using shutdown_stops_at_monolith [of "\<lambda>_. Inr ()"] by simp

end
