(* ===== verification/Entry_Points.thy ===== *)
theory Entry_Points
  imports Processes Probes Broker Gateway_Worker
begin

text \<open>
  The entry points: \<^verbatim>\<open>api/app.py\<close> and the \<^verbatim>\<open>main.py\<close> of the workers as sequences of steps on the
  resources of one process (broker connection, probes server, provider session, tasks, gauges,
  engine). The steps before the \<^verbatim>\<open>try\<close> are the start-up; an exception there ends the process
  without the \<^verbatim>\<open>finally\<close> block. Whether a step of a third party raises is an argument. In
  between a worker waits for the first of two tasks, its work and the stop event a signal
  sets; \<^verbatim>\<open>asyncio.wait\<close> does not raise what a task raised.
\<close>

section \<open>The resources of a process\<close>

text \<open>The task of \<^verbatim>\<open>_recieve_from_provider\<close>: not created, running, or over.\<close>

datatype receiver_task = No_task | Reading | Over

datatype main_task = Work_task | Stop_task

record world =
  wd_ping :: "exn + unit"
  wd_provider_connected :: bool

record process =
  pc_connected :: bool
  pc_topology :: broker_state
  pc_registry :: "world probe_registry"
  pc_gauges :: gauges
  pc_serving :: bool
  pc_provider :: mock_provider
  pc_receiver :: receiver_task
  pc_consumes :: "string list"
  pc_handles :: db_handles
  pc_cancelled :: "main_task list"

definition no_process :: process where
  "no_process =
     \<lparr>pc_connected = False, pc_topology = empty_broker, pc_registry = new_registry,
      pc_gauges = \<lparr>process_up = (\<lambda>_. 0), process_ready = (\<lambda>_. 0)\<rparr>, pc_serving = False,
      pc_provider = mock_provider_new, pc_receiver = No_task, pc_consumes = [], pc_handles = no_handles,
      pc_cancelled = []\<rparr>"

text \<open>\<^verbatim>\<open>ProviderGatewayWorker.start\<close> and \<^verbatim>\<open>stop\<close>; cancelling a task that is over changes nothing.\<close>

definition gateway_start :: "settings \<Rightarrow> process \<Rightarrow> process" where
  "gateway_start st p =
     p\<lparr>pc_receiver := Reading, pc_consumes := pc_consumes p @ [q_name (provider_out_queue st)]\<rparr>"

definition gateway_stop :: "process \<Rightarrow> process" where
  "gateway_stop p = (if pc_receiver p = No_task then p else p\<lparr>pc_receiver := Over\<rparr>)"

text \<open>The constructor of \<^verbatim>\<open>ProviderConsumerWorker\<close> subscribes its handler.\<close>

definition consumer_new :: "settings \<Rightarrow> process \<Rightarrow> process" where
  "consumer_new st p = p\<lparr>pc_consumes := pc_consumes p @ [q_name (provider_in_queue st)]\<rparr>"

section \<open>Start-up\<close>

datatype startup_step =
    Connect_broker | Declare_topology | Consumer_new | Add_db_probe | Add_provider_probe
  | Build_server | Start_server | Start_provider | Start_worker | Gauge_up

fun startup_effect :: "settings \<Rightarrow> string \<Rightarrow> startup_step \<Rightarrow> process \<Rightarrow> process" where
  "startup_effect st component Connect_broker p = p\<lparr>pc_connected := True\<rparr>"
| "startup_effect st component Declare_topology p = p\<lparr>pc_topology := setup_topology st (pc_topology p)\<rparr>"
| "startup_effect st component Consumer_new p = consumer_new st p"
| "startup_effect st component Add_db_probe p =
     p\<lparr>pc_registry := add_probe ''db'' (db_ping wd_ping) True (pc_registry p)\<rparr>"
| "startup_effect st component Add_provider_probe p =
     p\<lparr>pc_registry := add_probe ''provider_gateway'' (\<lambda>w. Inr (wd_provider_connected w)) True (pc_registry p)\<rparr>"
| "startup_effect st component Build_server p = p\<lparr>pc_gauges := server_new component (pc_gauges p)\<rparr>"
| "startup_effect st component Start_server p =
     p\<lparr>pc_serving := True, pc_gauges := server_start component (pc_gauges p)\<rparr>"
| "startup_effect st component Start_provider p = p\<lparr>pc_provider := mock_start (pc_provider p)\<rparr>"
| "startup_effect st component Start_worker p = gateway_start st p"
| "startup_effect st component Gauge_up p =
     p\<lparr>pc_gauges := (pc_gauges p)\<lparr>process_up := (process_up (pc_gauges p))(component := 1)\<rparr>\<rparr>"

fun run_startup ::
  "settings \<Rightarrow> string \<Rightarrow> (startup_step \<Rightarrow> exn + unit) \<Rightarrow> startup_step list \<Rightarrow> process \<Rightarrow> exn option \<times> process" where
  "run_startup st component outcome [] p = (None, p)"
| "run_startup st component outcome (step # steps) p =
     (case outcome step of
        Inl e \<Rightarrow> (Some e, p)
      | Inr _ \<Rightarrow> run_startup st component outcome steps (startup_effect st component step p))"

definition gateway_startup :: "startup_step list" where
  "gateway_startup =
     [Connect_broker, Declare_topology, Add_db_probe, Add_provider_probe, Build_server,
      Start_server, Start_provider, Start_worker]"

definition consumer_startup :: "startup_step list" where
  "consumer_startup =
     [Connect_broker, Declare_topology, Consumer_new, Add_db_probe, Build_server, Start_server]"

definition reconciler_startup :: "startup_step list" where
  "reconciler_startup = [Add_db_probe, Build_server, Start_server]"

text \<open>\<^verbatim>\<open>get_broker\<close> connects and declares the topology.\<close>

definition api_startup :: "startup_step list" where
  "api_startup = [Connect_broker, Declare_topology, Add_db_probe, Gauge_up]"

section \<open>Shutdown\<close>

fun shutdown_effect :: "string \<Rightarrow> shutdown_step \<Rightarrow> process \<Rightarrow> process" where
  "shutdown_effect component Gauges_down p =
     p\<lparr>pc_gauges := \<lparr>process_up = (process_up (pc_gauges p))(component := 0),
                     process_ready = (process_ready (pc_gauges p))(component := 0)\<rparr>\<rparr>"
| "shutdown_effect component Provider_stop p = p\<lparr>pc_provider := mock_stop (pc_provider p)\<rparr>"
| "shutdown_effect component Worker_stop p = gateway_stop p"
| "shutdown_effect component Monolith_close p = p"
| "shutdown_effect component Broker_close p = p\<lparr>pc_connected := False\<rparr>"
| "shutdown_effect component Probes_stop p =
     p\<lparr>pc_serving := False, pc_gauges := server_stop component (pc_gauges p)\<rparr>"
| "shutdown_effect component Engine_dispose p = p\<lparr>pc_handles := dispose_engine (pc_handles p)\<rparr>"

definition shut_down :: "string \<Rightarrow> (shutdown_step \<Rightarrow> exn + unit) \<Rightarrow> shutdown_step list \<Rightarrow> process \<Rightarrow> exn option \<times> process" where
  "shut_down component outcome steps p =
     (let (done, e) = run_shutdown outcome steps in (e, fold (shutdown_effect component) done p))"

text \<open>
  A whole process: start-up, then whatever happens while it runs (\<open>running\<close>), then the
  \<^verbatim>\<open>finally\<close> block. The exception is the one the process ends with.
\<close>

definition run_process ::
  "settings \<Rightarrow> string \<Rightarrow> startup_step list \<Rightarrow> shutdown_step list \<Rightarrow> (startup_step \<Rightarrow> exn + unit) \<Rightarrow>
   (shutdown_step \<Rightarrow> exn + unit) \<Rightarrow> (process \<Rightarrow> process) \<Rightarrow> process \<Rightarrow> exn option \<times> process" where
  "run_process st component ups downs starts stops running p =
     (case run_startup st component starts ups p of
        (Some e, p') \<Rightarrow> (Some e, p')
      | (None, p') \<Rightarrow> shut_down component stops downs (running p'))"

text \<open>
  \<^verbatim>\<open>asyncio.wait(..., FIRST_COMPLETED)\<close>: \<open>ended\<close> says of each task how it ended, if it has; the
  others are cancelled, and what the ended ones returned or raised is not looked at.
\<close>

definition await_first :: "(main_task \<Rightarrow> (exn + unit) option) \<Rightarrow> process \<Rightarrow> process" where
  "await_first ended p = p\<lparr>pc_cancelled := filter (\<lambda>t. ended t = None) [Work_task, Stop_task]\<rparr>"

lemma await_first_simps [simp]:
  "pc_connected (await_first ended p) = pc_connected p" "pc_serving (await_first ended p) = pc_serving p"
  "pc_provider (await_first ended p) = pc_provider p" "pc_receiver (await_first ended p) = pc_receiver p"
  "pc_gauges (await_first ended p) = pc_gauges p" "pc_handles (await_first ended p) = pc_handles p"
  by (simp_all add: await_first_def)

lemma await_first_cancels [simp]: "t \<in> set (pc_cancelled (await_first ended p)) \<longleftrightarrow> ended t = None"
  by (cases t) (simp_all add: await_first_def)

definition gateway_main where
  "gateway_main st starts stops ended running =
     run_process st ''provider_gateway'' gateway_startup gateway_shutdown starts stops (await_first ended \<circ> running)"

definition consumer_main where
  "consumer_main st starts stops ended running =
     run_process st ''provider_consumer'' consumer_startup consumer_shutdown starts stops (await_first ended \<circ> running)"

definition reconciler_main where
  "reconciler_main st starts stops ended running =
     run_process st ''reconciler'' reconciler_startup reconciler_shutdown starts stops (await_first ended \<circ> running)"

definition api_lifespan where
  "api_lifespan st = run_process st ''api'' api_startup api_shutdown"

text \<open>
  The outbox producer has neither probes nor a \<^verbatim>\<open>finally\<close> block: \<^verbatim>\<open>async with broker\<close> connects, and
  closes the connection however its body ends. \<open>running\<close> is the endless loop, which only ends
  with an exception (the cancellation of the process).
\<close>

definition producer_main ::
  "settings \<Rightarrow> (startup_step \<Rightarrow> exn + unit) \<Rightarrow> exn \<Rightarrow> (process \<Rightarrow> process) \<Rightarrow> process \<Rightarrow> exn option \<times> process" where
  "producer_main st starts cancelled running p =
     (case run_startup st ''outbox_producer'' starts [Connect_broker] p of
        (Some e, p') \<Rightarrow> (Some e, p')
      | (None, p') \<Rightarrow>
          (case run_startup st ''outbox_producer'' starts [Declare_topology] p' of
             (Some e, q) \<Rightarrow> (Some e, q\<lparr>pc_connected := False\<rparr>)
           | (None, q) \<Rightarrow> (Some cancelled, (running q)\<lparr>pc_connected := False\<rparr>)))"

lemma producer_main_closes:
  "\<not> pc_connected p \<Longrightarrow> \<not> pc_connected (snd (producer_main st starts cancelled running p))"
  by (simp add: producer_main_def split: sum.splits)

section \<open>The system endpoints of the API\<close>

definition health_live :: "'w probe_registry \<Rightarrow> probe_response" where
  "health_live probes =
     (if is_alive probes then \<lparr>ps_code = 200, ps_status = ''alive'', ps_checks = []\<rparr>
      else \<lparr>ps_code = 503, ps_status = ''dead'', ps_checks = []\<rparr>)"

definition health_ready :: "'w \<Rightarrow> instant \<Rightarrow> 'w probe_registry \<times> gauges \<Rightarrow> probe_response \<times> 'w probe_registry \<times> gauges" where
  "health_ready w now rg =
     (let (ok, probes) = is_ready w now (fst rg);
          g = (snd rg)\<lparr>process_ready := (process_ready (snd rg))(''api'' := (if ok then 1 else 0))\<rparr>
      in (if ok then \<lparr>ps_code = 200, ps_status = ''ready'', ps_checks = []\<rparr>
          else \<lparr>ps_code = 503, ps_status = ''not_ready'',
                ps_checks = map (\<lambda>p. (pb_name p, pb_last_ok p)) (pr_probes probes)\<rparr>, probes, g))"

definition health_startup :: "'w \<Rightarrow> instant \<Rightarrow> 'w probe_registry \<Rightarrow> probe_response \<times> 'w probe_registry" where
  "health_startup w now reg =
     (let (ok, probes) = has_started w now reg
      in (if ok then \<lparr>ps_code = 200, ps_status = ''started'', ps_checks = []\<rparr>
          else \<lparr>ps_code = 503, ps_status = ''starting'',
                ps_checks = map (\<lambda>p. (pb_name p, pb_succeeded_once p)) (pr_probes probes)\<rparr>, probes))"

definition health_legacy :: probe_response where
  "health_legacy = \<lparr>ps_code = 200, ps_status = ''ok'', ps_checks = []\<rparr>"

text \<open>The API answers what the probes server of a worker would.\<close>

lemma api_health_as_workers:
  "health_live reg = live reg" "health_ready w now (reg, g) = ready w now ''api'' (reg, g)"
  "health_startup w now reg = startup w now reg"
  by (simp_all add: health_live_def live_def health_ready_def ready_def health_startup_def startup_def)

section \<open>What start-up and shutdown achieve\<close>

lemma run_startup_ok:
  "(\<And>step. step \<in> set steps \<Longrightarrow> outcome step = Inr ()) \<Longrightarrow>
   run_startup st component outcome steps p = (None, fold (startup_effect st component) steps p)"
  by (induction steps arbitrary: p) simp_all

lemma run_shutdown_ok:
  "(\<And>step. step \<in> set steps \<Longrightarrow> outcome step = Inr () \<and> step \<noteq> Monolith_close) \<Longrightarrow>
   run_shutdown outcome steps = (steps, None)"
  by (induction steps) (simp_all add: step_outcome_def)

definition probe_world :: "(exn + unit) \<Rightarrow> process \<Rightarrow> world" where
  "probe_world ping p = \<lparr>wd_ping = ping, wd_provider_connected = mock_is_connected (pc_provider p)\<rparr>"

text \<open>The gateway after its start-up.\<close>

definition started_gateway :: "settings \<Rightarrow> process" where
  "started_gateway st = snd (run_startup st ''provider_gateway'' (\<lambda>_. Inr ()) gateway_startup no_process)"

lemma started_gateway_eq:
  "started_gateway st = fold (startup_effect st ''provider_gateway'') gateway_startup no_process"
  by (simp add: started_gateway_def run_startup_ok)

lemmas gateway_steps = gateway_startup_def no_process_def server_new_def server_start_def gateway_start_def
  mock_start_def

lemma is_ready_iff:
  assumes "distinct (map pb_name (pr_probes reg))"
  shows "ps_code (fst (ready w now component (reg, g))) = 200 \<longleftrightarrow>
    (\<forall>p \<in> set (pr_probes reg). pb_critical_for_readiness p \<longrightarrow> pb_check p w = Inr True)"
proof -
  have ok: "run_check w p \<longleftrightarrow> pb_check p w = Inr True" for p
    by (simp add: run_check_def split: sum.splits)
  show ?thesis
    using result_of_probe [OF assms, of _ w] by (auto simp: ready_def is_ready_def check_all_eq ok Let_def list_all_iff)
qed

lemma gateway_ready_code:
  assumes "pc_registry p = pc_registry (started_gateway st)"
  shows "ps_code (fst (ready (probe_world ping p) now component (pc_registry p, g))) = 200 \<longleftrightarrow>
    ping = Inr () \<and> mock_is_connected (pc_provider p)"
proof -
  have reg: "pr_probes (pc_registry p) =
      [\<lparr>pb_name = ''db'', pb_check = db_ping wd_ping, pb_critical_for_readiness = True,
        pb_succeeded_once = False, pb_last_ok = False, pb_last_checked_at = 0\<rparr>,
       \<lparr>pb_name = ''provider_gateway'', pb_check = (\<lambda>w. Inr (wd_provider_connected w)), pb_critical_for_readiness = True,
        pb_succeeded_once = False, pb_last_ok = False, pb_last_checked_at = 0\<rparr>]"
    by (simp add: assms started_gateway_eq gateway_steps add_probe_def new_registry_def)
  have "db_ping wd_ping (probe_world ping p) = Inr True \<longleftrightarrow> ping = Inr ()"
    by (cases ping) (simp_all add: db_ping_def probe_world_def)
  with reg show ?thesis by (subst is_ready_iff) (simp_all add: probe_world_def)
qed

text \<open>
  C38: the life of the gateway. When no step fails, start-up leaves it connected to the broker
  and the provider, consuming exactly the outbound queue, with its receiving task running and
  the gauges up and not yet ready; from then on the readiness endpoint answers 200 exactly
  when the database answers and the provider is connected, whatever has become of the
  receiving task. Whatever happened while it ran, the shutdown closes the connection, the
  probes server and the provider session with its pending answers, ends the receiving task,
  clears both gauges and disposes of the engine; and it ends without an exception even when
  the broker application has failed, because nobody looks at how its task ended.
\<close>

theorem gateway_life:
  assumes starts: "\<And>step. starts step = Inr ()" and stops: "\<And>step. stops step = Inr ()"
  shows "run_startup st ''provider_gateway'' starts gateway_startup no_process = (None, started_gateway st) \<and>
    pc_connected (started_gateway st) \<and> pc_consumes (started_gateway st) = [q_name (provider_out_queue st)] \<and>
    pc_topology (started_gateway st) = setup_topology st empty_broker \<and>
    pc_receiver (started_gateway st) = Reading \<and> mock_is_connected (pc_provider (started_gateway st)) \<and>
    process_up (pc_gauges (started_gateway st)) ''provider_gateway'' = 1 \<and>
    process_ready (pc_gauges (started_gateway st)) ''provider_gateway'' = 0 \<and>
    (let p = (started_gateway st)\<lparr>pc_receiver := task, pc_provider := provider\<rparr>
     in ps_code (fst (ready (probe_world ping p) now ''provider_gateway'' (pc_registry p, pc_gauges p))) =
       (if ping = Inr () \<and> mock_is_connected provider then 200 else 503)) \<and>
    (case gateway_main st starts stops ended running no_process of (e, p) \<Rightarrow>
       e = None \<and> (\<forall>t. t \<in> set (pc_cancelled p) \<longleftrightarrow> ended t = None) \<and> \<not> pc_connected p \<and> \<not> pc_serving p \<and> \<not> mock_is_connected (pc_provider p) \<and>
       mp_tasks (pc_provider p) = [] \<and> pc_receiver p \<noteq> Reading \<and>
       process_up (pc_gauges p) ''provider_gateway'' = 0 \<and> process_ready (pc_gauges p) ''provider_gateway'' = 0 \<and>
       dh_engine (pc_handles p) = None)"
proof -
  have start: "run_startup st ''provider_gateway'' starts gateway_startup no_process = (None, started_gateway st)"
    unfolding started_gateway_eq by (rule run_startup_ok) (rule starts)
  have "run_shutdown stops gateway_shutdown = (gateway_shutdown, None)"
    using stops by (intro run_shutdown_ok) (auto simp: gateway_shutdown_def)
  then have main: "gateway_main st starts stops ended running no_process =
      (None, fold (shutdown_effect ''provider_gateway'') gateway_shutdown (await_first ended (running (started_gateway st))))"
    by (simp add: gateway_main_def run_process_def start shut_down_def)
  have code: "ps_code (fst (ready w now component rg)) = 503" if "ps_code (fst (ready w now component rg)) \<noteq> 200"
    for w :: world and component rg
    using that by (simp add: ready_def Let_def split: prod.splits if_splits)
  have probes: "ps_code (fst (ready (probe_world ping p) now ''provider_gateway'' (pc_registry p, pc_gauges p))) =
      (if ping = Inr () \<and> mock_is_connected (pc_provider p) then 200 else 503)"
    if "pc_registry p = pc_registry (started_gateway st)" for p
    using gateway_ready_code [OF that, of ping now "''provider_gateway''" "pc_gauges p"] code by auto
  show ?thesis
    unfolding start main using probes [of "(started_gateway st)\<lparr>pc_receiver := task, pc_provider := provider\<rparr>"]
    by (simp add: Let_def gateway_shutdown_def gateway_stop_def server_stop_def mock_stop_def mock_is_connected_def
        dispose_engine_def)
      (simp add: started_gateway_eq gateway_steps)
qed

theorem gateway_life_witness:
  "ps_code (fst (ready (probe_world (Inr ()) (started_gateway (default_settings ''k''))) 5 ''provider_gateway''
      (pc_registry (started_gateway (default_settings ''k'')), pc_gauges (started_gateway (default_settings ''k''))))) = 200"
proof -
  let ?p = "started_gateway (default_settings ''k'')"
  have "?p\<lparr>pc_receiver := pc_receiver ?p, pc_provider := pc_provider ?p\<rparr> = ?p" by simp
  then show ?thesis
    using gateway_life [where starts = "\<lambda>_. Inr ()" and stops = "\<lambda>_. Inr ()" and st = "default_settings ''k''" and
        task = "pc_receiver ?p" and provider = "pc_provider ?p" and ping = "Inr ()" and now = 5]
    by (simp add: Let_def)
qed

text \<open>
  C40: the other processes do not let go. Even when no step fails, the \<^verbatim>\<open>finally\<close> blocks of the
  consumer and of the reconciler end at their first step with \<^verbatim>\<open>AttributeError\<close> and change
  nothing, and that of the API ends after clearing its gauges: connection, probes server and
  engine are left as they were.
\<close>

theorem other_processes_stay_open:
  assumes starts: "\<And>step. starts step = Inr ()" and stops: "\<And>step. stops step = Inr ()"
    and run: "\<And>p. pc_connected (running p) = pc_connected p \<and> pc_serving (running p) = pc_serving p"
  shows "(case consumer_main st starts stops ended running no_process of (e, p) \<Rightarrow>
      e = Some AttributeError \<and> pc_connected p \<and> pc_serving p \<and>
      pc_handles p = pc_handles (running (snd (run_startup st ''provider_consumer'' starts consumer_startup no_process)))) \<and>
    (case reconciler_main st starts stops ended running no_process of (e, p) \<Rightarrow>
      e = Some AttributeError \<and> pc_serving p \<and>
      pc_handles p = pc_handles (running (snd (run_startup st ''reconciler'' starts reconciler_startup no_process)))) \<and>
    (case api_lifespan st starts stops running no_process of (e, p) \<Rightarrow>
      e = Some AttributeError \<and> pc_connected p \<and> process_up (pc_gauges p) ''api'' = 0 \<and>
      pc_handles p = pc_handles (running (snd (run_startup st ''api'' starts api_startup no_process))))"
proof -
  have stop: "run_shutdown stops consumer_shutdown = ([], Some AttributeError)"
    "run_shutdown stops reconciler_shutdown = ([], Some AttributeError)"
    "run_shutdown stops api_shutdown = ([Gauges_down], Some AttributeError)"
    by (simp_all add: stops consumer_shutdown_def reconciler_shutdown_def api_shutdown_def step_outcome_def
        call_method_def monolith_methods_def)
  have main: "run_process st component ups downs starts stops run' no_process =
      (let p = run' (snd (run_startup st component starts ups no_process));
           (done, e) = run_shutdown stops downs in (e, fold (shutdown_effect component) done p))"
    for component ups downs run'
    by (simp add: run_process_def run_startup_ok [of ups starts] starts shut_down_def Let_def)
  have up: "pc_connected (snd (run_startup st ''provider_consumer'' starts consumer_startup no_process))"
    "pc_serving (snd (run_startup st ''provider_consumer'' starts consumer_startup no_process))"
    "pc_serving (snd (run_startup st ''reconciler'' starts reconciler_startup no_process))"
    "pc_connected (snd (run_startup st ''api'' starts api_startup no_process))"
    by (simp_all add: starts consumer_startup_def reconciler_startup_def api_startup_def consumer_new_def)
  show ?thesis
    by (simp add: consumer_main_def reconciler_main_def api_lifespan_def main stop Let_def run up)
qed

theorem other_processes_stay_open_witness:
  "\<exists>p. consumer_main (default_settings ''k'') (\<lambda>_. Inr ()) (\<lambda>_. Inr ()) (\<lambda>_. Some (Inr ())) id no_process = (Some AttributeError, p) \<and>
    pc_connected p \<and> pc_serving p"
  using other_processes_stay_open [of "\<lambda>_. Inr ()" "\<lambda>_. Inr ()" id "default_settings ''k''" "\<lambda>_. Some (Inr ())"]
  by (auto split: prod.splits)

end
