(* ===== verification/Delivery.thy ===== *)
theory Delivery
  imports Broker Consumer_Properties Gateway_Properties Ticket_Properties
begin

text \<open>
  The handlers under the broker's redelivery: an attempt that raises returns the message to
  its queue, and after \<^verbatim>\<open>rmq_max_attempts\<close> returns the queue gives it to the dead-letter
  exchange. What the handlers make of that: a provider that cannot be reached is tried
  again, and a message that can never be stored leaves the queue without a trace.
\<close>

section \<open>Retries\<close>

text \<open>Attempts that fail and leave the state as it was are as if they had not happened.\<close>

lemma deliver_retries:
  assumes "\<And>j. j < i \<Longrightarrow> \<exists>e. handler (n + j) s = (Inl e, s)" and "handler (n + i) s = (Inr (), s')" and "i \<le> k"
  shows "deliver_from handler n k s = (Acknowledged (n + i), s')"
  using assms
proof (induction i arbitrary: n k)
  case 0
  then show ?case by (simp add: deliver_acknowledged)
next
  case (Suc i)
  then obtain k' where k: "k = Suc k'" by (cases k) auto
  obtain e where "handler n s = (Inl e, s)" using Suc.prems(1) [of 0] by auto
  moreover have "deliver_from handler (n + 1) k' s = (Acknowledged (n + 1 + i), s')"
  proof (rule Suc.IH)
    show "\<exists>e. handler (n + 1 + j) s = (Inl e, s)" if "j < i" for j
      using Suc.prems(1) [of "Suc j"] that by (simp add: One_nat_def)
  qed (use Suc.prems k in \<open>simp_all add: One_nat_def\<close>)
  ultimately show ?case by (simp add: k)
qed

lemma send_fails:
  assumes "message_validate c fresh arrival body = Some m" and "send m = Inl (ConnectionError why)"
  shows "send_to_provider c send w fresh arrival body s = (Inl (ConnectionError why), s)"
  using assms by (simp add: send_to_provider_def py_bind_def py_lift_def raise_invalid_def
      py_try_def py_raise_def)

text \<open>
  C18: a provider that cannot be reached is tried again. If the first \<open>i\<close> attempts to send a
  message fail with an error other than a refusal and the next one is acknowledged, within
  the limit of the queue, the message is acknowledged to the broker at that attempt, and the
  ticket is in the state one successful send leaves it in.
\<close>

theorem gateway_retries:
  assumes m: "message_validate c fresh arrival body = Some m"
    and fails: "\<And>j. j < i \<Longrightarrow> send j m = Inl (ConnectionError (why j))"
    and sent: "send i m = Inr a" and limit: "i \<le> rmq_max_attempts st"
    and id: "m_ticket_id m = Some tid" and target: "success_target (m_type m) = Some target"
    and ok: "db_ok (committed s)" and r: "select_by t_id tid (tickets (committed s)) = [r]"
    and moves: "moves target (t_status r)"
  shows "\<exists>s'. deliver_message st (\<lambda>n. send_to_provider c (send n) (w n) fresh arrival body) s =
      (Acknowledged i, s') \<and>
    committed s' = rewrite_ticket tid (moved_ticket (w i) target) (committed s) \<and>
    published s' = published s"
proof -
  have "target = SENT_TO_PROVIDER \<or> target = CONFIRMED \<or> target = DECLINED"
    using target by (auto simp: success_target_def split: if_splits)
  then have ne: "target \<noteq> t_status r" using moves by (auto simp: moves_def)
  obtain s1 where "move_ticket (w i) tid target s = (Inr (Some (t_status r)), s1)"
    and s1: "committed s1 = rewrite_ticket tid (moved_ticket (w i) target) (committed s)" "published s1 = published s"
    using move_ticket_effect [OF ok r moves ne, of "w i"] by auto
  then obtain s' where run: "send_to_provider c (send i) (w i) fresh arrival body s = (Inr (), s')"
    and s': "committed s' = committed s1" "published s' = published s1"
    by (simp add: send_to_provider_ok [where send = "send i", OF m sent] handle_message_success_ack_def id target
        py_bind_def inc_def py_modify_def)
  have "deliver_message st (\<lambda>n. send_to_provider c (send n) (w n) fresh arrival body) s = (Acknowledged (0 + i), s')"
    unfolding deliver_message_def using run limit send_fails [OF m, of "send _"] fails
    by (intro deliver_retries) auto
  with s' s1 show ?thesis by simp
qed

theorem gateway_retries_witness:
  "\<exists>s' r'. deliver_message (default_settings ''k'')
      (\<lambda>n. send_to_provider ref_codec
        (\<lambda>m. if n = 0 then Inl (ConnectionError ''down'') else Inr \<lparr>ack_of = m_message_id m, ack_status = ACK_OK,
            ack_error_code = None, ack_error_detail = None\<rparr>)
        (sample_ambient 0 id) 0 0 (message_dump ref_codec sample_ticket_message)) (session_on (sample_db NEW)) =
      (Acknowledged 1, s') \<and>
    select_by t_id 7 (tickets (committed s')) = [r'] \<and> t_status r' = SENT_TO_PROVIDER"
proof -
  let ?send = "\<lambda>n m. if n = 0 then Inl (ConnectionError ''down'') else Inr \<lparr>ack_of = m_message_id m,
      ack_status = ACK_OK, ack_error_code = None, ack_error_detail = None\<rparr>"
  have limit: "1 \<le> rmq_max_attempts (default_settings ''k'')" by simp
  obtain s' where "deliver_message (default_settings ''k'') (\<lambda>n. send_to_provider ref_codec (?send n)
      (sample_ambient 0 id) 0 0 (message_dump ref_codec sample_ticket_message)) (session_on (sample_db NEW)) =
      (Acknowledged 1, s')"
    "committed s' = rewrite_ticket 7 (moved_ticket (sample_ambient 0 id) SENT_TO_PROVIDER) (sample_db NEW)"
    using gateway_retries [where send = ?send and i = 1 and w = "\<lambda>_. sample_ambient 0 id" and r = "sample_ticket NEW"
        and s = "session_on (sample_db NEW)" and tid = 7 and target = SENT_TO_PROVIDER and why = "\<lambda>_. ''down''",
        OF ref.message_roundtrip [of 0 0 sample_ticket_message] _ _ limit]
    by (auto simp: sample_ticket_message_def success_target_def moves_def)
  then show ?thesis by (auto simp: select_by_def moved_ticket_def)
qed

section \<open>Messages that are given up\<close>

text \<open>
  C36: a recommendation that can never be stored. If the provider's reason is longer than the
  512 characters of its column, every delivery raises \<^verbatim>\<open>DataError\<close>: the message ends in the
  dead-letter queue after all its attempts, nothing was committed by any of them, and its
  identifier is not claimed. The schema accepts the message all the same.
\<close>

theorem oversized_reason_is_dead_lettered:
  assumes m: "body_message c body m" and ty: "m_type m = RECOMMENDATION"
    and p: "recommendation_payload_validate c (m_payload m) = Some p"
    and new: "m_message_id m \<notin> claimed_ids (committed s)" and ok: "db_ok (committed s)"
    and r: "select_by t_id (rp_ticket_id p) (tickets (committed s)) = [r]" and st: "\<not> terminal (t_status r)"
    and long: "rp_reason p = Some reason" "512 < length reason"
  shows "\<exists>s'. deliver_message cfg (\<lambda>n. consumer_handle c client (w n) (fresh n) (arrival n) body) s =
      (Dead_lettered, s') \<and> committed s' = committed s \<and>
    dead_letter_to (setup_topology cfg empty_broker) (provider_in_queue cfg) = [q_name tickets_dlq_queue]"
proof -
  have once: "\<exists>e s'. consumer_handle c client w fresh arrival body x = (Inl e, s') \<and> committed s' = committed s"
    if x: "committed x = committed s" for x :: sess and w fresh arrival
  proof -
    let ?x = "(open_session x)\<lparr>view := with_claim w m (committed x)\<rparr>"
    obtain s1 where "apply_recommendation c client w p ?x = (Inl DataError, s1)"
      and s1: "committed s1 = committed x"
      using apply_recommendation_reason_too_long [of ?x p r reason c client w]
        with_claim_db_ok [OF ok new, of w] r st long by (auto simp: x)
    then have "dispatch c client w m ?x = (Inl DataError, s1)"
      by (simp add: dispatch_def ty p py_bind_def py_lift_def raise_invalid_def)
    then have "consumer_handle c client w fresh arrival body x = (Inl DataError, open_session s1)"
      using handle_new [OF m, of x client w fresh arrival] new ty
        session_scope_raises [of "\<lambda>x. dispatch c client w m (x\<lparr>view := with_claim w m (view x)\<rparr>)" x DataError s1]
      by (simp add: HANDLED_TYPES_def x)
    then show ?thesis using s1 x by simp
  qed
  have "\<exists>s'. deliver_from (\<lambda>n. consumer_handle c client (w n) (fresh n) (arrival n) body) 0 (rmq_max_attempts cfg) s =
      (Dead_lettered, s') \<and> committed s' = committed s"
    using once by (rule deliver_fails [where I = "\<lambda>x. committed x = committed s"]) blast+
  then show ?thesis
    by (auto simp: deliver_message_def)
      (simp add: topology_defs route_def dead_letter_to_def provider_queue_args_def List.insert_def)
qed

theorem oversized_reason_is_dead_lettered_witness:
  "\<exists>s'. deliver_message (default_settings ''k'') (\<lambda>n. consumer_handle ref_codec sample_client (sample_ambient 0 id) 0 0
      (sample_body (RecommendationPayload (sample_recommendation\<lparr>rp_reason := Some (replicate 513 (CHR ''x''))\<rparr>))))
      (session_on (sample_db SENT_TO_PROVIDER)) = (Dead_lettered, s') \<and> committed s' = sample_db SENT_TO_PROVIDER"
proof -
  let ?p = "sample_recommendation\<lparr>rp_reason := Some (replicate 513 (CHR ''x''))\<rparr>"
  have p: "recommendation_payload_validate ref_codec (m_payload (sample_message (RecommendationPayload ?p))) = Some ?p"
    using ref.recommendation_payload_roundtrip [of ?p] by simp
  show ?thesis
    using oversized_reason_is_dead_lettered [OF sample_body_message _ p, of "session_on (sample_db SENT_TO_PROVIDER)"
        "sample_ticket SENT_TO_PROVIDER" "replicate 513 (CHR ''x'')" "default_settings ''k''" sample_client
        "\<lambda>_. sample_ambient 0 id" "\<lambda>_. 0" "\<lambda>_. 0"]
    by (auto simp: claimed_ids_def)
qed

end
