(* ===== verification/History.thy ===== *)
theory History
  imports Consumer_Worker Gateway_Worker Reconciler Api
begin

text \<open>
  What every operation of every process keeps of the shared database, and how a database may
  evolve from one state to the next, whatever operation runs and whatever other processes
  commit while it holds no lock. The interference is constrained by the same two relations
  (\<open>relies\<close>): what each process guarantees is what the others rely on. The theory \<open>System\<close>
  ties the knot.
\<close>

section \<open>How rows evolve\<close>

text \<open>A ticket that has left \<open>NEW\<close>, or has been answered by the provider, does not go back.\<close>

fun stage :: "ticket_status \<Rightarrow> nat" where
  "stage NEW = 0"
| "stage SENT_TO_PROVIDER = 1"
| "stage _ = 2"

definition kept :: "'a option \<Rightarrow> 'a option \<Rightarrow> bool" where
  "kept before after \<longleftrightarrow> (before \<noteq> None \<longrightarrow> after \<noteq> None)"

definition same_order :: "ticket \<Rightarrow> ticket \<Rightarrow> bool" where
  "same_order r r' \<longleftrightarrow>
     t_id r' = t_id r \<and> t_idempotency_key r' = t_idempotency_key r \<and> t_user_id r' = t_user_id r \<and>
     t_stake_amount r' = t_stake_amount r \<and> t_currency r' = t_currency r \<and>
     t_selections r' = t_selections r \<and> t_created_at r' = t_created_at r"

definition ticket_evolves :: "ticket \<Rightarrow> ticket \<Rightarrow> bool" where
  "ticket_evolves r r' \<longleftrightarrow>
     same_order r r' \<and> stage (t_status r) \<le> stage (t_status r') \<and>
     kept (t_provider_recommendation r) (t_provider_recommendation r') \<and>
     kept (t_provider_recommendation_at r) (t_provider_recommendation_at r') \<and>
     kept (t_settled_at r) (t_settled_at r') \<and> kept (t_confirmed_at r) (t_confirmed_at r') \<and>
     kept (t_cancelled_at r) (t_cancelled_at r') \<and> kept (t_failure_reason r) (t_failure_reason r')"

definition event_evolves :: "outbox_event \<Rightarrow> outbox_event \<Rightarrow> bool" where
  "event_evolves e e' \<longleftrightarrow>
     e_id e' = e_id e \<and> e_entity_id e' = e_entity_id e \<and> e_event_type e' = e_event_type e \<and>
     e_routing_key e' = e_routing_key e \<and> e_payload e' = e_payload e \<and>
     e_created_at e' = e_created_at e \<and> e_attempts e \<le> e_attempts e' \<and>
     kept (e_published_at e) (e_published_at e')"

text \<open>No row of any table is ever lost, and each row only evolves.\<close>

definition db_evolves :: "database \<Rightarrow> database \<Rightarrow> bool" where
  "db_evolves d d' \<longleftrightarrow>
     (\<forall>r \<in> set (tickets d). \<exists>r' \<in> set (tickets d'). ticket_evolves r r') \<and>
     (\<forall>e \<in> set (outbox_events d). \<exists>e' \<in> set (outbox_events d'). event_evolves e e') \<and>
     set (processed d) \<subseteq> set (processed d')"

lemma kept_refl [simp]: "kept x x"
  by (simp add: kept_def)

lemma kept_trans [trans]: "kept x y \<Longrightarrow> kept y z \<Longrightarrow> kept x z"
  by (simp add: kept_def)

lemma ticket_evolves_refl [simp]: "ticket_evolves r r"
  by (simp add: ticket_evolves_def same_order_def)

lemma ticket_evolves_trans: "ticket_evolves r r' \<Longrightarrow> ticket_evolves r' r'' \<Longrightarrow> ticket_evolves r r''"
  by (auto simp: ticket_evolves_def same_order_def intro: kept_trans)

lemma event_evolves_refl [simp]: "event_evolves e e"
  by (simp add: event_evolves_def)

lemma event_evolves_trans: "event_evolves e e' \<Longrightarrow> event_evolves e' e'' \<Longrightarrow> event_evolves e e''"
  by (auto simp: event_evolves_def intro: kept_trans)

lemma db_evolves_refl [simp]: "db_evolves d d"
  unfolding db_evolves_def using ticket_evolves_refl event_evolves_refl by blast

lemma db_evolvesD:
  assumes "db_evolves d d'"
  shows "r \<in> set (tickets d) \<Longrightarrow> \<exists>r' \<in> set (tickets d'). ticket_evolves r r'"
    and "e \<in> set (outbox_events d) \<Longrightarrow> \<exists>e' \<in> set (outbox_events d'). event_evolves e e'"
    and "set (processed d) \<subseteq> set (processed d')"
  using assms by (simp_all add: db_evolves_def)

lemma events_stay: "\<forall>e \<in> A. \<exists>e' \<in> A. event_evolves e e'"
  using event_evolves_refl by blast

lemma tickets_stay: "\<forall>r \<in> A. \<exists>r' \<in> A. ticket_evolves r r'"
  using ticket_evolves_refl by blast

lemma db_evolves_trans:
  assumes "db_evolves d d'" and "db_evolves d' d''"
  shows "db_evolves d d''"
  unfolding db_evolves_def
proof (intro conjI ballI)
  fix r assume "r \<in> set (tickets d)"
  with assms show "\<exists>r'' \<in> set (tickets d''). ticket_evolves r r''"
    unfolding db_evolves_def by (meson ticket_evolves_trans)
next
  fix e assume "e \<in> set (outbox_events d)"
  with assms show "\<exists>e'' \<in> set (outbox_events d''). event_evolves e e''"
    unfolding db_evolves_def by (meson event_evolves_trans)
qed (use assms in \<open>auto simp: db_evolves_def\<close>)

lemma ticket_evolves_id: "ticket_evolves r r' \<Longrightarrow> t_id r' = t_id r"
  by (simp add: ticket_evolves_def same_order_def)

lemma db_evolves_ids: "db_evolves d d' \<Longrightarrow> t_id ` set (tickets d) \<subseteq> t_id ` set (tickets d')"
  unfolding db_evolves_def by (metis (no_types, lifting) image_subsetI image_eqI ticket_evolves_id)

section \<open>Sound tables\<close>

text \<open>
  A message for the provider about the ticket \<open>i\<close>: its envelope names the ticket, its payload
  is one of the class its type stands for, and the type is one of the four the service sends.
\<close>

definition outbound_types :: "provider_message_type set" where
  "outbound_types = {TICKET, CONFIRM_RECOMMENDATION, DECLINE_RECOMMENDATION, REQUEST_CANCELLATION}"

definition outbound_message :: "codec \<Rightarrow> uuid \<Rightarrow> message \<Rightarrow> bool" where
  "outbound_message c i m \<longleftrightarrow>
     m_ticket_id m = Some i \<and> m_type m \<in> outbound_types \<and>
     (\<exists>p. m_payload m = payload_dump c p \<and> payload_type p = m_type m)"

definition sound_event :: "codec \<Rightarrow> uuid set \<Rightarrow> outbox_event \<Rightarrow> bool" where
  "sound_event c ids e \<longleftrightarrow>
     e_entity_id e \<in> ids \<and> e_event_type e = EVENT_TYPE_TICKET_OUTBOUND \<and>
     e_routing_key e = top_provider_out_routing_key TOPOLOGY \<and> outbox_columns_fit e \<and>
     (\<exists>m. e_payload e = message_dump c m \<and> outbound_message c (e_entity_id e) m)"

definition announces :: "codec \<Rightarrow> uuid \<Rightarrow> outbox_event \<Rightarrow> bool" where
  "announces c i e \<longleftrightarrow>
     e_entity_id e = i \<and> (\<exists>m. e_payload e = message_dump c m \<and> m_type m = TICKET \<and> m_ticket_id m = Some i)"

definition sound :: "codec \<Rightarrow> database \<Rightarrow> bool" where
  "sound c d \<longleftrightarrow>
     db_ok d \<and>
     (\<forall>r \<in> set (tickets d). t_status r \<noteq> EXPIRED \<and> (\<exists>e \<in> set (outbox_events d). announces c (t_id r) e)) \<and>
     (\<forall>e \<in> set (outbox_events d). sound_event c (t_id ` set (tickets d)) e)"

text \<open>\<open>reaches c d0 d\<close>: \<open>d\<close> is sound and has evolved from \<open>d0\<close>.\<close>

definition reaches :: "codec \<Rightarrow> database \<Rightarrow> database \<Rightarrow> bool" where
  "reaches c d0 d \<longleftrightarrow> sound c d \<and> db_evolves d0 d"

definition relies :: "codec \<Rightarrow> ambient \<Rightarrow> bool" where
  "relies c w \<longleftrightarrow> (\<forall>n d. sound c d \<longrightarrow> reaches c d (others w n d))"

lemma reaches_step:
  assumes "reaches c d0 d" and "sound c d \<Longrightarrow> reaches c d d'"
  shows "reaches c d0 d'"
  using assms by (auto simp: reaches_def intro: db_evolves_trans)

lemma reliesD: "relies c w \<Longrightarrow> reaches c d0 d \<Longrightarrow> reaches c d0 (others w n d)"
  by (rule reaches_step) (auto simp: relies_def)

lemma relies_later [intro]: "relies c w \<Longrightarrow> relies c (later k w)"
  by (simp add: relies_def later_def)

lemma sound_empty: "sound c empty_db"
  by (simp add: sound_def db_ok_empty)

section \<open>Units of work\<close>

text \<open>
  An object in the session may differ from what was loaded only in these ways; writing it
  back is then a step of the row's evolution, whatever the row has become meanwhile.
\<close>

definition drafted :: "ticket \<Rightarrow> ticket \<Rightarrow> bool" where
  "drafted l x \<longleftrightarrow>
     same_order l x \<and> (t_status x = t_status l \<or> (stage (t_status x) = 2 \<and> t_status x \<noteq> EXPIRED)) \<and>
     (t_provider_recommendation x = t_provider_recommendation l \<or> t_provider_recommendation x \<noteq> None) \<and>
     (t_provider_recommendation_at x = t_provider_recommendation_at l \<or> t_provider_recommendation_at x \<noteq> None) \<and>
     (t_settled_at x = t_settled_at l \<or> t_settled_at x \<noteq> None) \<and>
     (t_confirmed_at x = t_confirmed_at l \<or> t_confirmed_at x \<noteq> None) \<and>
     (t_cancelled_at x = t_cancelled_at l \<or> t_cancelled_at x \<noteq> None) \<and>
     (t_failure_reason x = t_failure_reason l \<or> t_failure_reason x \<noteq> None)"

lemma drafted_refl [simp]: "drafted x x"
  by (simp add: drafted_def same_order_def)

lemma stage_le: "stage st \<le> 2"
  by (cases st) simp_all

lemma kept_changed:
  "col x = col l \<or> col x \<noteq> None \<Longrightarrow> kept (col r) (changed col l x r)"
  by (auto simp: kept_def changed_def)

lemma write_back_evolves:
  assumes "drafted l x"
  shows "ticket_evolves r (write_back now l x r)"
    and "t_status r \<noteq> EXPIRED \<Longrightarrow> t_status (write_back now l x r) \<noteq> EXPIRED"
proof -
  have "stage (t_status r) \<le> stage (changed t_status l x r)"
    using assms stage_le by (auto simp: drafted_def changed_def)
  then show "ticket_evolves r (write_back now l x r)"
    using assms unfolding ticket_evolves_def same_order_def drafted_def
    by (simp add: write_back_columns kept_changed) (simp add: changed_def)
  show "t_status r \<noteq> EXPIRED \<Longrightarrow> t_status (write_back now l x r) \<noteq> EXPIRED"
    using assms by (auto simp: drafted_def write_back_columns changed_def)
qed

definition unit_ok :: "codec \<Rightarrow> database \<Rightarrow> uuid set \<Rightarrow> sess \<Rightarrow> bool" where
  "unit_ok c d0 known s \<longleftrightarrow>
     reaches c d0 (view s) \<and> reaches c d0 (committed s) \<and>
     t_id ` set (tickets (view s)) = t_id ` set (tickets (committed s)) \<and>
     known \<subseteq> t_id ` set (tickets (committed s)) \<and>
     (\<forall>i l x. objs s i = Some (l, x) \<longrightarrow> t_id l = i \<and> drafted l x)"

lemma unit_ok_open: "reaches c d0 (committed s) \<Longrightarrow> unit_ok c d0 {} (open_session s)"
  by (simp add: unit_ok_def)

lemma unit_ok_more: "unit_ok c d0 known s \<Longrightarrow> ids \<subseteq> t_id ` set (tickets (committed s)) \<Longrightarrow> unit_ok c d0 (ids \<union> known) s"
  by (simp add: unit_ok_def)

lemma unit_ok_less: "unit_ok c d0 known s \<Longrightarrow> ids \<subseteq> known \<Longrightarrow> unit_ok c d0 ids s"
  by (auto simp: unit_ok_def)

lemma unit_ok_committed: "unit_ok c d0 known s \<Longrightarrow> reaches c d0 (committed s)"
  by (simp add: unit_ok_def)

text \<open>Rewriting rows in ways that only evolve them.\<close>

lemma rows_evolve:
  assumes d: "sound c d" and evolve: "\<And>r. r \<in> set (tickets d) \<Longrightarrow> ticket_evolves r (f r)"
    and st: "\<And>r. r \<in> set (tickets d) \<Longrightarrow> t_status r \<noteq> EXPIRED \<Longrightarrow> t_status (f r) \<noteq> EXPIRED"
    and fit: "\<And>r. r \<in> set (tickets d) \<Longrightarrow> ticket_columns_fit (f r)"
  shows "reaches c d (d\<lparr>tickets := map f (tickets d)\<rparr>)"
proof -
  have same: "t_id (f r) = t_id r" "t_idempotency_key (f r) = t_idempotency_key r"
      "t_stake_amount (f r) = t_stake_amount r" if "r \<in> set (tickets d)" for r
    using evolve [OF that] by (simp_all add: ticket_evolves_def same_order_def)
  have ids: "map (t_id \<circ> f) (tickets d) = map t_id (tickets d)"
    and keys: "map (t_idempotency_key \<circ> f) (tickets d) = map t_idempotency_key (tickets d)"
    by (simp_all add: same)
  have set_ids: "t_id ` f ` set (tickets d) = t_id ` set (tickets d)"
    using ids by (metis image_comp list.set_map)
  have "db_ok (d\<lparr>tickets := map f (tickets d)\<rparr>)"
    using d fit by (auto simp: sound_def db_ok_def unique_by_def ids keys stake_amount_positive_def same)
  then have "sound c (d\<lparr>tickets := map f (tickets d)\<rparr>)"
    using d st by (auto simp: sound_def same set_ids)
  moreover have "db_evolves d (d\<lparr>tickets := map f (tickets d)\<rparr>)"
    unfolding db_evolves_def using events_stay by (auto intro: evolve)
  ultimately show ?thesis by (simp add: reaches_def)
qed

section \<open>The statements\<close>

lemma inv_assign [keeps_intros]:
  assumes "\<And>l x. drafted l x \<Longrightarrow> drafted l (f x)"
  shows "keeps (unit_ok c d0 known) (assign i f)"
  using assms by (auto simp: keeps_def unit_ok_def assign_def split: option.splits)

lemma inv_attributes [keeps_intros]: "keeps (unit_ok c d0 known) (attributes i)"
  by (auto simp: keeps_def attributes_def split: option.splits)

lemma inv_inc [keeps_intros]: "keeps (unit_ok c d0 known) (inc m)"
  by (simp add: keeps_def unit_ok_def inc_def py_modify_def)

lemma inv_broker_publish [keeps_intros]: "keeps (unit_ok c d0 known) (broker_publish publish f)"
  by (simp add: keeps_def unit_ok_def broker_publish_def split: sum.split)

lemma inv_rollback [keeps_intros]: "keeps (unit_ok c d0 known) rollback"
  by (simp add: keeps_def unit_ok_def rollback_def py_modify_def)

lemma inv_interfere [keeps_intros]:
  assumes "relies c w"
  shows "keeps (unit_ok c d0 known) (interfere (others w n))"
proof (rule keepsI)
  fix s assume s: "unit_ok c d0 known s"
  then have r: "reaches c d0 (committed s)" by (rule unit_ok_committed)
  then have "reaches c d0 (others w n (committed s))" by (rule reliesD [OF assms])
  moreover have "t_id ` set (tickets (committed s)) \<subseteq> t_id ` set (tickets (others w n (committed s)))"
    using assms r by (intro db_evolves_ids) (simp add: relies_def reaches_def)
  ultimately show "unit_ok c d0 known (snd (interfere (others w n) s))"
    using s by (auto simp: unit_ok_def interfere_def py_modify_def)
qed

lemma inv_flush [keeps_intros]: "keeps (unit_ok c d0 known) (flush now)"
proof (rule keepsI)
  fix s assume s: "unit_ok c d0 known s"
  let ?f = "flush_row (objs s) now"
  have obj: "drafted l x" if "objs s i = Some (l, x)" for i l x using s that by (simp add: unit_ok_def)
  have row: "ticket_evolves r (?f r)" "t_status r \<noteq> EXPIRED \<Longrightarrow> t_status (?f r) \<noteq> EXPIRED" for r
    using obj write_back_evolves by (auto simp: flush_row_def split: option.split)
  show "unit_ok c d0 known (snd (flush now s))"
  proof (cases "\<forall>r \<in> set (tickets (view s)). ?f r = r \<or> ticket_columns_fit (?f r)")
    case False
    with s show ?thesis by (simp only: flush_def if_False snd_conv)
  next
    case True
    have "reaches c d0 (view s)" using s by (simp add: unit_ok_def)
    moreover have "reaches c (view s) ((view s)\<lparr>tickets := map ?f (tickets (view s))\<rparr>)"
      if v: "sound c (view s)"
      using True row v rows_fit [of "view s"] by (intro rows_evolve) (auto simp: sound_def)
    ultimately have "reaches c d0 ((view s)\<lparr>tickets := map ?f (tickets (view s))\<rparr>)"
      by (rule reaches_step)
    moreover have "t_id (?f r) = t_id r" for r by (rule ticket_evolves_id [OF row(1)])
    moreover have "t_id (fst (flushed_object now (l, x))) = i" if "objs s i = Some (l, x)" for i l x
      using s that by (simp add: unit_ok_def flushed_object_def Let_def drafted_def same_order_def)
    moreover have "snd (flushed_object now lc) = fst (flushed_object now lc)" for lc
      by (simp add: flushed_object_def Let_def)
    ultimately show ?thesis
      using s True by (auto simp: flush_def unit_ok_def image_image) (metis fst_conv snd_conv drafted_refl)+
  qed
qed

lemma inv_commit [keeps_intros]: "keeps (unit_ok c d0 known) (commit now)"
  unfolding commit_def
  by (intro keeps_intros) (simp add: keeps_def unit_ok_def py_modify_def session_options_def)

lemma inv_change_status [keeps_intros]:
  assumes "stage to = 2" and "to \<noteq> EXPIRED"
  shows "keeps (unit_ok c d0 known) (change_status i to do_commit now)"
  unfolding change_status_def Let_def
  using assms by (intro keeps_intros) (simp_all add: drafted_def same_order_def)

lemma outbox_grows:
  assumes d: "sound c d" and ins: "insert_outbox_event e d = Inr d'"
    and e: "sound_event c (t_id ` set (tickets d)) e"
  shows "reaches c d d'"
proof -
  have d': "d' = d\<lparr>outbox_events := insert_row e (outbox_events d)\<rparr>" by (rule insert_outbox_event_ok(1) [OF ins])
  have "db_ok d'" using insert_outbox_event_db_ok [OF ins] d by (simp add: sound_def)
  then have "sound c d'" using d e by (auto simp: sound_def d' set_insert_row)
  moreover have "db_evolves d d'"
    unfolding db_evolves_def d' using events_stay [of "set (outbox_events d)"] tickets_stay
    by (auto simp: set_insert_row)
  ultimately show ?thesis by (simp add: reaches_def)
qed

lemma new_event_sound:
  assumes "outbound_message c i m" and "i \<in> ids"
  shows "sound_event c ids (outbound_event c fresh now i m)"
  using assms by (auto simp: sound_event_def new_outbox_event_def outbox_columns_fit_def varchar_fits_def)

lemma inv_outbox_message [keeps_intros]:
  assumes m: "outbound_message c i m" and i: "i \<in> known"
  shows "keeps (unit_ok c d0 known) (outbox_message c fresh now i m)"
proof -
  let ?e = "outbound_event c fresh now i m"
  have "keeps (unit_ok c d0 known) (\<lambda>s. case insert_outbox_event ?e (view s) of
      Inl e \<Rightarrow> (Inl e, s) | Inr db \<Rightarrow> (Inr (), s\<lparr>view := db\<rparr>))"
  proof (rule keepsI)
    fix s assume s: "unit_ok c d0 known s"
    show "unit_ok c d0 known (snd (case insert_outbox_event ?e (view s) of
        Inl e \<Rightarrow> (Inl e, s) | Inr db \<Rightarrow> (Inr (), s\<lparr>view := db\<rparr>)))"
    proof (cases "insert_outbox_event ?e (view s)")
      case (Inl e)
      with s show ?thesis by simp
    next
      case (Inr d')
      have "i \<in> t_id ` set (tickets (view s))" using s i by (auto simp: unit_ok_def)
      then have "sound_event c (t_id ` set (tickets (view s))) ?e" by (rule new_event_sound [OF m])
      note grows = outbox_grows [OF _ Inr this]
      have "reaches c d0 (view s)" using s by (simp add: unit_ok_def)
      then have "reaches c d0 d'" by (rule reaches_step) (rule grows)
      with s Inr insert_outbox_event_ok(1) [OF Inr] show ?thesis by (simp add: unit_ok_def)
    qed
  qed
  then show ?thesis unfolding outbox_message_def outbox_add_def by (intro keeps_intros)
qed

text \<open>Reading a ticket makes its identifier known.\<close>

lemma unit_ok_load:
  "unit_ok c d0 known s \<Longrightarrow> unit_ok c d0 known (s\<lparr>objs := (objs s)(t_id r \<mapsto> (r, r))\<rparr>)"
  by (simp add: unit_ok_def)

lemma inv_load_object: "keeps (unit_ok c d0 known) (load_object r)"
  by (auto simp: keeps_def load_object_def unit_ok_load split: option.split)

lemma inv_scalar:
  assumes q: "\<And>d. set (query d) \<subseteq> set (tickets d)" and s: "unit_ok c d0 known s"
  shows "unit_ok c d0 known (snd (scalar_one_or_none query s))"
    and "fst (scalar_one_or_none query s) = Inr (Some t) \<Longrightarrow> t_id t \<in> t_id ` set (tickets (committed s))"
    and "committed (snd (scalar_one_or_none query s)) = committed s"
proof -
  have ids: "t_id r \<in> t_id ` set (tickets (committed s))" if "query (view s) = [r]" for r
    using that q [of "view s"] s by (auto simp: unit_ok_def)
  show "unit_ok c d0 known (snd (scalar_one_or_none query s))"
    using s keepsD [OF keeps_bind [OF inv_load_object keeps_return] s]
    by (auto simp: scalar_one_or_none_def split: list.split)
  show "committed (snd (scalar_one_or_none query s)) = committed s" by (rule scalar_committed)
  assume "fst (scalar_one_or_none query s) = Inr (Some t)"
  then obtain r where r: "query (view s) = [r]"
    and t: "t = r \<or> (\<exists>l. objs s (t_id r) = Some (l, t))"
    by (auto simp: scalar_one_or_none_def load_object_def py_bind_def py_return_def
        split: list.splits option.splits)
  have "t_id t = t_id r" using t s by (auto simp: unit_ok_def drafted_def same_order_def)
  with ids [OF r] show "t_id t \<in> t_id ` set (tickets (committed s))" by simp
qed

lemma inv_scalar_bind:
  assumes q: "\<And>d. set (query d) \<subseteq> set (tickets d)"
    and none: "keeps (unit_ok c d0 known) (f None)"
    and some: "\<And>t. keeps (unit_ok c d0 (insert (t_id t) known)) (f (Some t))"
  shows "keeps (unit_ok c d0 known) (py_bind (scalar_one_or_none query) f)"
proof (rule keepsI)
  fix s assume s: "unit_ok c d0 known s"
  obtain x s1 where run: "scalar_one_or_none query s = (x, s1)" by fastforce
  note rd = inv_scalar [OF q s, unfolded run fst_conv snd_conv]
  show "unit_ok c d0 known (snd (py_bind (scalar_one_or_none query) f s))"
  proof (cases x)
    case (Inl e)
    with rd(1) show ?thesis by (simp add: py_bind_def run)
  next
    case (Inr found)
    show ?thesis
    proof (cases found)
      case None
      with Inr keepsD [OF none rd(1)] show ?thesis by (simp add: py_bind_def run)
    next
      case (Some t)
      have "unit_ok c d0 (insert (t_id t) known) s1"
        using unit_ok_more [OF rd(1), of "{t_id t}"] rd(2) [of t] rd(3) Inr Some by simp
      then have "unit_ok c d0 (insert (t_id t) known) (snd (f (Some t) s1))" by (rule keepsD [OF some])
      with Inr Some show ?thesis by (auto simp: py_bind_def run intro: unit_ok_less)
    qed
  qed
qed

lemma inv_get [keeps_intros]:
  assumes "keeps (unit_ok c d0 known) (f None)" and "\<And>t. keeps (unit_ok c d0 (insert (t_id t) known)) (f (Some t))"
  shows "keeps (unit_ok c d0 known) (py_bind (get_by_id_for_update i) f)"
    and "keeps (unit_ok c d0 known) (py_bind (get_by_id i) f)"
  unfolding get_by_id_for_update_def get_by_id_def
  using assms by (auto intro!: inv_scalar_bind simp: select_by_def)

end
