(* ===== verification/Guarantees.thy ===== *)
theory Guarantees
  imports History
begin

text \<open>
  Every operation of every process, run on a sound database while the others commit only
  what they guarantee, leaves a sound database that has evolved from the first: one lemma
  \<open>..._reaches\<close> for each entry point of a process, resting on what the methods of the ticket
  service and the repositories keep of a unit of work.
\<close>

section \<open>The messages\<close>

lemma built_outbound:
  assumes "payload_type p = ty" and "ty \<in> outbound_types"
  shows "outbound_message c i (message_build c p ty None (Some i) fresh now)"
  using assms by (auto simp: outbound_message_def message_build_def simp del: payload_dump.simps)

lemma cancellation_outbound: "outbound_message c i (build_cancellation_message c fresh now i reason)"
  unfolding build_cancellation_message_def by (rule built_outbound) (simp_all add: outbound_types_def)

lemma ack_outbound: "outbound_message c (t_id t) (build_ack_message c fresh now t action)"
  by (simp add: build_ack_message_def built_outbound outbound_types_def)

lemma ticket_message_built:
  assumes "build_ticket_message c placed fresh now t = Inr m"
  shows "outbound_message c (t_id t) m" and "m_type m = TICKET" and "m_ticket_id m = Some (t_id t)"
proof -
  obtain p where m: "m = message_build c (TicketPayload p) TICKET None (Some (t_id t)) fresh now"
    using assms by (auto simp: build_ticket_message_def split: option.splits)
  show "outbound_message c (t_id t) m"
    unfolding m by (rule built_outbound) (simp_all add: outbound_types_def)
  show "m_type m = TICKET" and "m_ticket_id m = Some (t_id t)" by (simp_all add: m message_build_def)
qed

section \<open>The ticket service\<close>

lemma inv_cancel_locked [keeps_intros]:
  "i \<in> known \<Longrightarrow> keeps (unit_ok c d0 known) (cancel_locked c w i reason)"
  unfolding cancel_locked_def
  by (intro keeps_intros cancellation_outbound) (simp_all add: drafted_def same_order_def)

lemma inv_request_cancellation [keeps_intros]:
  "keeps (unit_ok c d0 known) (request_cancellation c client w i reason)"
  unfolding request_cancellation_eq by (intro keeps_intros) (simp_all add: keeps_return inv_cancel_locked)

lemma inv_mark_cancellation_applied [keeps_intros]:
  "keeps (unit_ok c d0 known) (mark_cancellation_applied w i)"
  unfolding mark_cancellation_applied_def
  by (intro keeps_intros)
    (auto intro!: keeps_intros simp: drafted_def same_order_def split: option.split)

lemma inv_record_recommendation [keeps_intros]:
  "keeps (unit_ok c d0 known) (record_recommendation w i p)"
  unfolding record_recommendation_def
  by (intro keeps_intros) (simp_all add: drafted_def same_order_def recommendation_target_def)

lemma inv_settle [keeps_intros]: "keeps (unit_ok c d0 known) (settle c w i action)"
  unfolding settle_def settle_locked_def
  by (intro keeps_intros) (auto intro!: keeps_intros ack_outbound simp: drafted_def same_order_def)

lemma inv_apply_recommendation [keeps_intros]:
  assumes "relies c w"
  shows "keeps (unit_ok c d0 known) (apply_recommendation c client w p)"
  unfolding apply_recommendation_def
  by (intro keeps_intros) (auto intro!: keeps_intros assms)

lemma inv_mark_provider_ack_delivered [keeps_intros]:
  "keeps (unit_ok c d0 known) (mark_provider_ack_delivered w i action)"
  unfolding mark_provider_ack_delivered_def
  by (intro keeps_intros) (auto intro!: keeps_intros simp: drafted_def same_order_def)

section \<open>The consumer\<close>

lemma inv_try_claim [keeps_intros]: "keeps (unit_ok c d0 known) (try_claim now i ty tid)"
proof (rule keepsI)
  fix s assume s: "unit_ok c d0 known s"
  let ?v = "view (snd (try_claim now i ty tid s))"
  have "db_ok ?v" if "db_ok (view s)" by (rule try_claim_db_ok [OF that])
  moreover have "tickets ?v = tickets (view s)" "outbox_events ?v = outbox_events (view s)"
    "set (processed (view s)) \<subseteq> set (processed ?v)"
    by (auto simp: try_claim_def set_insert_row)
  ultimately have "reaches c (view s) ?v" if "sound c (view s)"
    using that events_stay tickets_stay by (simp add: reaches_def sound_def db_evolves_def)
  moreover have "reaches c d0 (view s)" using s by (simp add: unit_ok_def)
  ultimately have "reaches c d0 ?v" using reaches_step by blast
  with s show "unit_ok c d0 known (snd (try_claim now i ty tid s))"
    by (simp add: unit_ok_def try_claim_def)
qed

lemma inv_dispatch [keeps_intros]:
  "relies c w \<Longrightarrow> keeps (unit_ok c d0 known) (dispatch c client w m)"
  unfolding dispatch_def by (intro keeps_intros)

lemma inv_session_scope:
  assumes body: "\<And>d0. keeps (unit_ok c d0 {}) body" and d: "reaches c d0 (committed s)"
  shows "reaches c d0 (committed (snd (session_scope body s)))"
  using keepsD [OF body unit_ok_open [OF d]] by (simp add: session_scope_committed unit_ok_committed)

lemma consumer_reaches:
  assumes "relies c w" and "reaches c d0 (committed s)"
  shows "reaches c d0 (committed (snd (consumer_handle c client w fresh arrival body s)))"
proof -
  have "keeps (unit_ok c d0 {}) (handle_claimed c client w m)" for d0 m
    unfolding handle_claimed_def using assms(1) by (intro keeps_intros)
  then show ?thesis
    using assms(2) by (auto simp: consumer_handle_def py_bind_def py_lift_def py_return_def
        intro: inv_session_scope split: sum.splits)
qed

section \<open>The outbox producer\<close>

lemma event_rows_evolve:
  assumes d: "sound c d" and evolve: "\<And>e. e \<in> set (outbox_events d) \<Longrightarrow> event_evolves e (f e)"
    and fit: "\<And>e. outbox_columns_fit e \<Longrightarrow> outbox_columns_fit (f e)"
  shows "reaches c d (d\<lparr>outbox_events := map f (outbox_events d)\<rparr>)"
proof -
  have same: "e_id (f e) = e_id e" "e_entity_id (f e) = e_entity_id e" "e_event_type (f e) = e_event_type e"
      "e_routing_key (f e) = e_routing_key e" "e_payload (f e) = e_payload e"
    if "e \<in> set (outbox_events d)" for e
    using evolve [OF that] by (simp_all add: event_evolves_def)
  have ids: "map (e_id \<circ> f) (outbox_events d) = map e_id (outbox_events d)" by (simp add: same)
  have "db_ok (d\<lparr>outbox_events := map f (outbox_events d)\<rparr>)"
    using d by (simp add: sound_def db_ok_def unique_by_def ids)
  moreover have "\<exists>e \<in> set (map f (outbox_events d)). announces c i e"
    if "\<exists>e \<in> set (outbox_events d). announces c i e" for i
    using that same by (auto simp: announces_def)
  ultimately have "sound c (d\<lparr>outbox_events := map f (outbox_events d)\<rparr>)"
    using d fit by (auto simp: sound_def sound_event_def same)
  moreover have "db_evolves d (d\<lparr>outbox_events := map f (outbox_events d)\<rparr>)"
    using evolve tickets_stay by (auto simp: db_evolves_def)
  ultimately show ?thesis by (simp add: reaches_def)
qed

lemma inv_update_outbox:
  assumes "\<And>e. event_evolves e (f e)" and "\<And>e. outbox_columns_fit e \<Longrightarrow> outbox_columns_fit (f e)"
  shows "keeps (unit_ok c d0 known) (update_outbox P f)"
proof (rule keepsI)
  fix s assume s: "unit_ok c d0 known s"
  let ?v = "(view s)\<lparr>outbox_events := update_where P f (outbox_events (view s))\<rparr>"
  have "reaches c (view s) ?v" if "sound c (view s)"
    unfolding update_where_def using assms by (intro event_rows_evolve that) auto
  moreover have "reaches c d0 (view s)" using s by (simp add: unit_ok_def)
  ultimately have "reaches c d0 ?v" using reaches_step by blast
  with s show "unit_ok c d0 known (snd (update_outbox P f s))"
    by (simp add: unit_ok_def update_outbox_view)
qed

lemma inv_mark_published [keeps_intros]: "keeps (unit_ok c d0 known) (mark_published_many now db_now ids)"
  unfolding mark_published_many_def
  by (intro keeps_intros inv_update_outbox)
    (simp_all add: event_evolves_def mark_published_row_def kept_def outbox_columns_fit_def varchar_fits_def)

lemma inv_mark_failed [keeps_intros]: "keeps (unit_ok c d0 known) (mark_failed n db_now i err)"
  unfolding mark_failed_def
  by (intro inv_update_outbox)
    (simp_all add: event_evolves_def mark_failed_row_def Let_def outbox_columns_fit_def varchar_fits_def)

lemma inv_mark_failures [keeps_intros]: "keeps (unit_ok c d0 known) (mark_failures db_now failed)"
  by (induction failed) (auto intro!: keeps_intros)

lemma inv_publish_events [keeps_intros]: "keeps (unit_ok c d0 known) (publish_events publish es)"
  by (simp add: keeps_def unit_ok_def publish_events_eq)

lemma inv_fetch_pending [keeps_intros]: "keeps (unit_ok c d0 known) (fetch_pending n locked)"
  by (simp add: keeps_def fetch_pending_def)

lemma keeps_pair [keeps_intros]: "(\<And>a b. keeps I (f a b)) \<Longrightarrow> keeps I (case x of (a, b) \<Rightarrow> f a b)"
  by (cases x) simp

lemma batch_reaches:
  assumes w: "relies c w" and d: "reaches c d0 (committed s)"
  shows "reaches c d0 (committed (snd (send_batch n locked publish (others w k) now db_now s)))"
  unfolding send_batch_def deliver_def
  by (rule inv_session_scope [OF _ d])
    (intro keeps_intros w)

section \<open>The gateway\<close>

lemma rewrite_reaches:
  assumes d: "sound c d" and r: "select_by t_id i (tickets d) = [r]"
    and evolve: "ticket_evolves r (f r)" and st: "t_status (f r) \<noteq> EXPIRED" and fit: "ticket_columns_fit (f r)"
  shows "reaches c d (rewrite_ticket i f d)"
proof -
  have only: "q = r" if "q \<in> set (tickets d)" "t_id q = i" for q
  proof -
    have "q \<in> set (select_by t_id i (tickets d))" using that by (simp add: select_by_def)
    with r show ?thesis by simp
  qed
  show ?thesis
    unfolding update_where_def
    using only evolve st fit d rows_fit [of d] by (intro rows_evolve) (auto simp: sound_def)
qed

lemma moved_ticket_evolves:
  assumes "moves target (t_status r)" and "target \<in> {SENT_TO_PROVIDER, CONFIRMED, DECLINED}"
  shows "ticket_evolves r (moved_ticket w target r)"
  using assms by (auto simp: ticket_evolves_def same_order_def moved_ticket_def moves_def kept_def stage_le
      split: option.split)

lemma move_ticket_reaches:
  assumes d: "reaches c d0 (committed s)" and target: "target \<in> {SENT_TO_PROVIDER, CONFIRMED, DECLINED}"
  shows "reaches c d0 (committed (snd (move_ticket w i target s)))"
proof -
  have ok: "sound c (committed s)" "db_ok (committed s)" using d by (simp_all add: reaches_def sound_def)
  then have uniq: "unique_by t_id (tickets (committed s))" by (simp add: db_ok_def)
  from uniq show ?thesis
  proof (cases rule: select_by_cases [where k = i])
    case none
    then show ?thesis
      using d get_missing [of i "open_session s"]
      by (simp add: move_ticket_def session_scope_committed py_bind_def py_return_def)
  next
    case (one r)
    show ?thesis
    proof (cases "moves target (t_status r)")
      case False
      with one d show ?thesis
        using get_fresh [of i "open_session s" r]
        by (auto simp: move_ticket_def session_scope_committed py_bind_def py_return_def moves_def)
    next
      case True
      have ne: "target \<noteq> t_status r" using True target by (auto simp: moves_def terminal_simps)
      obtain s' where "move_ticket w i target s = (Inr (Some (t_status r)), s')"
        "committed s' = rewrite_ticket i (moved_ticket w target) (committed s)"
        using move_ticket_effect [OF ok(2) one(1) True ne] by blast
      moreover have "reaches c (committed s) (rewrite_ticket i (moved_ticket w target) (committed s))"
        using ok(1) one rows_fit [OF ok(2) one(3)] moved_ticket_evolves [OF True target] target
        by (intro rewrite_reaches) (auto simp: moved_ticket_def ticket_columns_fit_def)
      ultimately show ?thesis using reaches_step [OF d] by simp
    qed
  qed
qed

lemma gateway_reaches:
  assumes d: "reaches c d0 (committed s)"
  shows "reaches c d0 (committed (snd (send_to_provider c send w fresh arrival body s)))"
proof -
  have target: "success_target ty = Some target \<Longrightarrow> target \<in> {SENT_TO_PROVIDER, CONFIRMED, DECLINED}" for ty target
    by (auto simp: success_target_def split: if_splits)
  have ack: "reaches c d0 (committed (snd (handle_message_success_ack w m s)))" for m
    using d move_ticket_reaches [OF d target, of "m_type m"]
    by (auto simp: handle_message_success_ack_def py_bind_def py_return_def inc_def py_modify_def
        split: option.split prod.split sum.split) (metis snd_conv)+
  show ?thesis
    using d ack
    by (auto simp: send_to_provider_def py_bind_def py_lift_def py_try_def handle_message_rejection_def
        py_return_def py_raise_def split: sum.split exn.split)
qed

section \<open>The reconciler\<close>

lemma inv_load_objects [keeps_intros]: "keeps (unit_ok c d0 known) (load_objects rs)"
  by (induction rs) (auto intro!: keeps_intros inv_load_object)

lemma inv_find_stuck [keeps_intros]: "keeps (unit_ok c d0 known) (find_stuck older_than limit locked)"
  unfolding find_stuck_def by (rule keepsI) (simp add: keepsD [OF inv_load_objects])

lemma inv_recover_one [keeps_intros]: "keeps (unit_ok c d0 known) (recover_one c client w i)"
  unfolding recover_one_def Let_def by (intro keeps_intros)

lemma inv_recover_each [keeps_intros]:
  "relies c w \<Longrightarrow> keeps (unit_ok c d0 known) (recover_each c client w ids)"
  by (induction ids arbitrary: w) (auto intro!: keeps_intros)

lemma reconciler_reaches:
  assumes "relies c w" and "reaches c d0 (committed s)"
  shows "reaches c d0 (committed (snd (recover_stuck_tickets c client rc w locked s)))"
  unfolding recover_stuck_tickets_def recover_batch_def Let_def
  using assms by (intro inv_session_scope keeps_intros relies_later) simp_all

section \<open>Creation\<close>

text \<open>
  What a creation has committed, whether it returns or raises: nothing of its own, or the
  ticket together with the message that announces it.
\<close>

lemma create_ticket_commits:
  assumes fresh: "fresh_session s" and d1: "d1 = others w 0 (committed s)"
  obtains (nothing) "committed (snd (create_ticket c w key request s)) \<in> {committed s, d1, others w 1 d1}"
  | (stored) cur m where "committed (snd (create_ticket c w key request s)) =
        with_ticket c w (new_ticket (uuid4 w 0) key request cur) m d1"
      and "storable c w (new_ticket (uuid4 w 0) key request cur)"
      and "uuid4 w 0 \<notin> t_id ` set (tickets d1)" and "key \<notin> t_idempotency_key ` set (tickets d1)"
      and "uuid4 w 2 \<notin> event_ids d1"
      and "build_ticket_message c (clock w 0) (uuid4 w 1) (clock w 1) (new_ticket (uuid4 w 0) key request cur) = Inr m"
proof (cases "fst (create_ticket c w key request s)")
  case (Inl e)
  show ?thesis by (rule nothing) (use create_ticket_error_committed [OF fresh Inl] in \<open>simp add: d1\<close>)
next
  case (Inr res)
  have v: "view s = committed s" "objs s = Map.empty" using fresh by (simp_all add: fresh_session_def)
  obtain x s1 where g: "get_by_idempotency_key key s = (x, s1)" by fastforce
  have c1: "committed s1 = committed s"
    using scalar_committed [of "\<lambda>db. select_by t_idempotency_key key (tickets db)" s] g
    by (simp add: get_by_idempotency_key_def)
  have o1: "objs s1 = Map.empty" if "x = Inr None"
    using g v that by (auto simp: get_by_idempotency_key_def scalar_one_or_none_def load_object_def py_bind_def
        py_return_def split: list.splits option.splits)
  show ?thesis
  proof (cases "\<exists>cur. x = Inr None \<and> enum_by_value currency_value (cr_currency request) = Some cur")
    case False
    show ?thesis
      by (rule nothing) (use False g c1 in \<open>auto simp: create_ticket_def py_bind_def py_return_def py_raise_def
          split: sum.splits option.splits\<close>)
  next
    case True
    then obtain cur where cur: "x = Inr None" "enum_by_value currency_value (cr_currency request) = Some cur"
      by blast
    let ?t = "new_ticket (uuid4 w 0) key request cur"
    let ?s1 = "s1\<lparr>committed := d1, view := d1\<rparr>"
    have o: "objs ?s1 = Map.empty" using o1 cur by simp
    have t: "t_id ?t = uuid4 w 0" "t_idempotency_key ?t = key" by (simp_all add: new_ticket_def)
    obtain y s2 where st: "store_ticket c w ?t ?s1 = (y, s2)" by fastforce
    show ?thesis
    proof (cases y)
      case (Inl e)
      have c2: "committed s2 = d1" using store_ticket_committed [OF o, of c w ?t] st Inl by simp
      have again: "committed (snd (get_by_idempotency_key key ((open_session s2)\<lparr>committed := q, view := q\<rparr>))) = q" for q
        using scalar_committed [of "\<lambda>db. select_by t_idempotency_key key (tickets db)"]
        by (simp add: get_by_idempotency_key_def)
      show ?thesis
        by (rule nothing)
          (use g c1 cur st Inl c2 again [of "others w 1 d1"] in
            \<open>auto simp: create_ticket_def py_bind_def py_try_def interfere_def py_modify_def d1 [symmetric]
              rollback_def py_raise_def py_return_def split: sum.split option.split prod.split\<close>)
    next
      case (Inr t')
      then have f: "fst (store_ticket c w ?t ?s1) = Inr t'" using st by simp
      obtain m where m: "storable c w ?t" "t_id ?t \<notin> t_id ` set (tickets (view ?s1))"
        "t_idempotency_key ?t \<notin> t_idempotency_key ` set (tickets (view ?s1))"
        "uuid4 w 2 \<notin> e_id ` set (outbox_events (view ?s1))"
        "build_ticket_message c (clock w 0) (uuid4 w 1) (clock w 1) ?t = Inr m"
        by (rule store_ticket_inv [OF o f])
      have "committed s2 = with_ticket c w ?t m d1"
        using store_ticket_ok [OF o m] st by simp
      then have "committed (snd (create_ticket c w key request s)) = with_ticket c w ?t m d1"
        using g c1 cur st Inr by (simp add: create_ticket_def py_bind_def py_try_def interfere_def py_modify_def
            d1 [symmetric] inc_def py_return_def)
      with m t show ?thesis by (intro stored) simp_all
    qed
  qed
qed

text \<open>A creation that returns, returns a ticket stored under its key.\<close>

lemma key_found:
  assumes "get_by_idempotency_key key s = (Inr (Some t), s')" and "objs s = Map.empty"
  shows "t \<in> set (tickets (view s))" and "t_idempotency_key t = key" and "committed s' = committed s"
proof -
  have sel: "select_by t_idempotency_key key (tickets (view s)) = [t]" and "s' = s\<lparr>objs := [t_id t \<mapsto> (t, t)]\<rparr>"
    using assms by (auto simp: get_by_idempotency_key_def scalar_one_or_none_def load_object_def py_bind_def
        py_return_def split: list.splits)
  then show "committed s' = committed s" by simp
  have "t \<in> set (select_by t_idempotency_key key (tickets (view s)))" by (simp add: sel)
  then show "t \<in> set (tickets (view s))" and "t_idempotency_key t = key" by (simp_all add: select_by_def)
qed

lemma create_ticket_returns:
  assumes fresh: "fresh_session s" and res: "create_ticket c w key request s = (Inr res, s')"
  shows "\<exists>r \<in> set (tickets (committed s')). t_idempotency_key r = key \<and>
    t_id r = t_id (ctr_ticket res) \<and> t_created_at r = t_created_at (ctr_ticket res)"
proof -
  have v: "view s = committed s" "objs s = Map.empty" using fresh by (simp_all add: fresh_session_def)
  obtain x s1 where g: "get_by_idempotency_key key s = (x, s1)" by fastforce
  show ?thesis
  proof (cases "\<exists>t. x = Inr (Some t)")
    case True
    then obtain t where t: "x = Inr (Some t)" by blast
    with g res have "ctr_ticket res = t" "s' = s1" by (auto simp: create_ticket_def py_bind_def py_return_def)
    with key_found [of key s t s1] g t v show ?thesis by auto
  next
    case False
    then obtain cur where cur: "x = Inr None" "enum_by_value currency_value (cr_currency request) = Some cur"
      using g res by (auto simp: create_ticket_def py_bind_def py_raise_def split: sum.splits option.splits)
    have s1: "s1 = s"
      using g cur v by (auto simp: get_by_idempotency_key_def scalar_one_or_none_def load_object_def py_bind_def
          py_return_def split: list.splits option.splits)
    let ?t = "new_ticket (uuid4 w 0) key request cur"
    let ?d1 = "others w 0 (committed s)"
    let ?s1 = "s\<lparr>committed := ?d1, view := ?d1\<rparr>"
    have o: "objs ?s1 = Map.empty" using v by simp
    obtain y s2 where st: "store_ticket c w ?t ?s1 = (y, s2)" by fastforce
    have run: "create_ticket c w key request s = (case y of
        Inl e \<Rightarrow> (if e = IntegrityError
          then py_bind (interfere (others w 1)) (\<lambda>_. py_bind (get_by_idempotency_key key) (\<lambda>again.
                 case again of None \<Rightarrow> py_raise e
                 | Some t \<Rightarrow> py_return \<lparr>ctr_ticket = t, ctr_created = False\<rparr>)) (open_session s2)
          else (Inl e, s2))
      | Inr t \<Rightarrow> py_bind (inc (TicketsCreated (currency_value (t_currency t))))
                 (\<lambda>_. py_return \<lparr>ctr_ticket = t, ctr_created = True\<rparr>) s2)"
      using g cur s1 by (simp add: create_ticket_def py_bind_def py_try_def interfere_def py_modify_def st
          rollback_def py_raise_def split: sum.split)
    show ?thesis
    proof (cases y)
      case (Inl e)
      let ?s3 = "(open_session s2)\<lparr>committed := others w 1 (committed s2), view := others w 1 (committed s2)\<rparr>"
      obtain z s4 where again: "get_by_idempotency_key key ?s3 = (z, s4)" by fastforce
      then obtain t where t: "z = Inr (Some t)" "ctr_ticket res = t" "s' = s4"
        using res Inl by (auto simp: run py_bind_def interfere_def py_modify_def py_raise_def py_return_def
            split: if_splits sum.splits option.splits)
      with key_found [of key ?s3 t s4] again show ?thesis by auto
    next
      case (Inr t')
      then have f: "fst (store_ticket c w ?t ?s1) = Inr t'" using st by simp
      obtain m where m: "storable c w ?t" "t_id ?t \<notin> t_id ` set (tickets (view ?s1))"
        "t_idempotency_key ?t \<notin> t_idempotency_key ` set (tickets (view ?s1))"
        "uuid4 w 2 \<notin> e_id ` set (outbox_events (view ?s1))"
        "build_ticket_message c (clock w 0) (uuid4 w 1) (clock w 1) ?t = Inr m"
        by (rule store_ticket_inv [OF o f])
      have "committed s2 = with_ticket c w ?t m ?d1" and "t' = timed (db_clock w 0) ?t"
        using store_ticket_ok [OF o m] st Inr by simp_all
      with res Inr have "committed s' = with_ticket c w ?t m ?d1" "ctr_ticket res = timed (db_clock w 0) ?t"
        by (auto simp: run py_bind_def inc_def py_modify_def py_return_def)
      then show ?thesis
        by (auto simp: with_ticket_def set_insert_row stored_ticket_def timed_def new_ticket_def)
    qed
  qed
qed

lemma with_ticket_reaches:
  assumes d: "sound c d" and st: "storable c w t" and new: "t_status t = NEW"
    and id: "t_id t \<notin> t_id ` set (tickets d)" and key: "t_idempotency_key t \<notin> t_idempotency_key ` set (tickets d)"
    and ev: "uuid4 w 2 \<notin> event_ids d"
    and m: "build_ticket_message c (clock w 0) (uuid4 w 1) (clock w 1) t = Inr m"
  shows "reaches c d (with_ticket c w t m d)"
proof -
  let ?e = "outbound_event c (uuid4 w 2) (db_clock w 0) (t_id t) m"
  let ?r = "stored_ticket (db_clock w 0) t"
  have r: "t_id ?r = t_id t" "t_idempotency_key ?r = t_idempotency_key t" "t_status ?r = NEW"
    using new by (simp_all add: stored_ticket_def)
  have ids: "t_id ` set (tickets (with_ticket c w t m d)) = insert (t_id t) (t_id ` set (tickets d))"
    by (simp add: with_ticket_def set_insert_row r)
  have "db_ok (with_ticket c w t m d)"
    using d st id key ev
    by (auto simp: sound_def db_ok_def with_ticket_def table_simps r storable_def new_outbox_event_def)
  moreover have "announces c (t_id t) ?e"
    using ticket_message_built [OF m] by (auto simp: announces_def new_outbox_event_def)
  moreover have "sound_event c (insert (t_id t) (t_id ` set (tickets d))) ?e"
    by (rule new_event_sound [OF ticket_message_built(1) [OF m]]) simp
  moreover have "sound_event c (insert (t_id t) (t_id ` set (tickets d))) e" if "e \<in> set (outbox_events d)" for e
    using d that by (auto simp: sound_def sound_event_def)
  moreover have "t_status q \<noteq> EXPIRED" "\<exists>e \<in> set (outbox_events d). announces c (t_id q) e" if "q \<in> set (tickets d)" for q
    using d that by (auto simp: sound_def)
  ultimately have "sound c (with_ticket c w t m d)"
    unfolding sound_def ids by (auto simp: with_ticket_def set_insert_row r)
  moreover have "db_evolves d (with_ticket c w t m d)"
    using events_stay [of "set (outbox_events d)"] tickets_stay [of "set (tickets d)"]
    by (auto simp: db_evolves_def with_ticket_def set_insert_row)
  ultimately show ?thesis by (simp add: reaches_def)
qed

lemma creation_reaches:
  assumes w: "relies c w" and d: "reaches c d0 (committed s)" and fresh: "fresh_session s"
  shows "reaches c d0 (committed (snd (create_ticket c w key request s)))"
proof -
  let ?d1 = "others w 0 (committed s)"
  have d1: "reaches c d0 ?d1" by (rule reliesD [OF w d])
  have d2: "reaches c d0 (others w 1 ?d1)" by (rule reliesD [OF w d1])
  from fresh refl show ?thesis
  proof (cases rule: create_ticket_commits [where c = c and w = w and key = key and request = request])
    case nothing
    with d d1 d2 show ?thesis by auto
  next
    case (stored cur m)
    have "reaches c d0 (with_ticket c w (new_ticket (uuid4 w 0) key request cur) m ?d1)"
      using d1 by (rule reaches_step) (use stored in \<open>intro with_ticket_reaches; simp add: new_ticket_def\<close>)
    with stored(1) show ?thesis by simp
  qed
qed

lemma respond_committed: "committed (snd (respond m s)) = committed (snd (m s))"
  by (simp add: respond_def split: prod.split sum.split)

lemma bind_lift: "py_bind (py_lift r) f s = (case r of Inl e \<Rightarrow> (Inl e, s) | Inr x \<Rightarrow> f x s)"
  by (simp add: py_bind_def py_lift_def split: sum.split)

lemma post_reaches:
  assumes w: "relies c w" and d: "reaches c d0 (committed s)"
  shows "reaches c d0 (committed (snd (post_tickets c st w key idem body s)))"
proof -
  have "committed (snd (py_bind (create_ticket c w k req) f s1)) = committed (snd (create_ticket c w k req s1))"
    if "\<And>x s. committed (snd (f x s)) = committed s" for k req s1 and f :: "_ \<Rightarrow> response op"
    using that by (simp add: py_bind_def split: prod.split sum.split)
  then show ?thesis
    using d creation_reaches [OF w, of d0 "open_session s"]
    by (auto simp: post_tickets_def respond_committed create_endpoint_def py_bind_def py_lift_def py_raise_def
        py_return_def session_scope_committed Let_def fresh_session_def split: sum.split option.split)
qed

lemma session_scope_returns:
  "session_scope body s = (Inr x, s') \<Longrightarrow> \<exists>s1. body (open_session s) = (Inr x, s1) \<and> s' = open_session s1"
  by (auto simp: session_scope_def py_try_def py_bind_def py_raise_def py_return_def py_modify_def rollback_def
      split: prod.splits sum.splits)

text \<open>An accepted request names a ticket stored under its key.\<close>

lemma post_returns:
  assumes "post_tickets c st w key (Some idem) body s = (\<lparr>r_status = 202, r_body = Accepted a\<rparr>, s')"
  shows "\<exists>r \<in> set (tickets (committed s')). t_idempotency_key r = idem \<and>
    t_id r = ta_ticket_id a \<and> t_created_at r = ta_created_at a"
proof -
  have err: "error_response e \<noteq> \<lparr>r_status = 202, r_body = Accepted a\<rparr>" for e by (cases e) simp_all
  let ?body = "\<lambda>r. py_bind (create_ticket c w idem (service_request c r)) (\<lambda>result.
      py_return \<lparr>r_status = 202, r_body = Accepted \<lparr>ta_ticket_id = t_id (ctr_ticket result),
        ta_status = t_status (ctr_ticket result), ta_created_at = t_created_at (ctr_ticket result)\<rparr>\<rparr>)"
  have "create_endpoint c st w key (Some idem) body s = (Inr \<lparr>r_status = 202, r_body = Accepted a\<rparr>, s')"
    using assms err by (auto simp: post_tickets_def respond_def split: prod.splits sum.splits)
  then obtain r where "session_scope (?body r) s = (Inr \<lparr>r_status = 202, r_body = Accepted a\<rparr>, s')"
    by (auto simp: create_endpoint_def bind_lift py_raise_def Let_def split: sum.splits option.splits)
  from session_scope_returns [OF this]
  obtain s1 where s1: "?body r (open_session s) = (Inr \<lparr>r_status = 202, r_body = Accepted a\<rparr>, s1)"
    "s' = open_session s1" by (elim exE conjE)
  then obtain res where res: "create_ticket c w idem (service_request c r) (open_session s) = (Inr res, s1)"
    "t_id (ctr_ticket res) = ta_ticket_id a" "t_created_at (ctr_ticket res) = ta_created_at a"
    by (auto simp: py_bind_def py_return_def split: prod.splits sum.splits)
  show ?thesis using create_ticket_returns [OF _ res(1)] s1(2) res(2,3) by (simp add: fresh_session_def)
qed

lemma get_reaches:
  assumes d: "reaches c d0 (committed s)"
  shows "reaches c d0 (committed (snd (get_tickets st key i s)))"
proof -
  have "keeps (unit_ok c d0 {}) (py_bind (get_ticket j) (\<lambda>ticket. case ticket of
      None \<Rightarrow> py_raise (HTTPException 404 ''ticket_not_found'')
    | Some t \<Rightarrow> py_return \<lparr>r_status = 200, r_body = Ticket_body (ticket_response_of t)\<rparr>))" for d0 j
    unfolding get_ticket_def by (intro keeps_intros) (simp_all add: keeps_intros)
  then have "reaches c d0 (committed (snd (session_scope (py_bind (get_ticket j) (\<lambda>ticket. case ticket of
      None \<Rightarrow> py_raise (HTTPException 404 ''ticket_not_found'')
    | Some t \<Rightarrow> py_return \<lparr>r_status = 200, r_body = Ticket_body (ticket_response_of t)\<rparr>)) s)))" for j
    by (rule inv_session_scope [OF _ d])
  with d show ?thesis
    by (simp add: get_tickets_def respond_committed get_endpoint_def bind_lift py_raise_app split: sum.split option.split)
qed

end
