(* ===== verification/System.thy ===== *)
theory System
  imports Guarantees Api_Properties Consumer_Properties Gateway_Properties Broker
begin

text \<open>
  The system of all processes over one database. A process makes a call: an HTTP request, a
  delivery to the consumer or to the gateway, a batch of the outbox producer, a pass of the
  reconciler. While a call holds no lock, any number of calls of other processes may run,
  themselves interrupted in the same way: \<open>runs\<close> is the least relation closed under that.

  A process that dies is covered by the same relation. What it had not committed is gone, so
  that a call cut before its only commit is no call; a pass of the reconciler cut after some
  tickets is a pass with a smaller batch; and a delivery to the consumer cut between its two
  commits leaves what one leaves whose second transaction fails, because the identifiers drawn
  are arbitrary (\<open>consumer_loses_settlement\<close> computes that state).
\<close>

section \<open>Calls\<close>

datatype call =
    Post settings "string option" "string option" dict
  | Get settings "string option" "uuid option"
  | Consume fake_monolith uuid instant dict
  | Transmit "message \<Rightarrow> exn + ack_payload" uuid instant dict
  | Receive "frame \<Rightarrow> string + unit" "uuid \<Rightarrow> exn + unit" "message option list"
  | Produce nat "uuid \<Rightarrow> bool" "frame \<Rightarrow> string + unit"
  | Reconcile fake_monolith reconciler "uuid \<Rightarrow> bool"

fun perform :: "codec \<Rightarrow> ambient \<Rightarrow> call \<Rightarrow> sess \<Rightarrow> sess" where
  "perform c w (Post st key idem body) s = snd (post_tickets c st w key idem body s)"
| "perform c w (Get st key i) s = snd (get_tickets st key i s)"
| "perform c w (Consume client fresh arrival body) s = snd (consumer_handle c client w fresh arrival body s)"
| "perform c w (Transmit send fresh arrival body) s = snd (send_to_provider c send w fresh arrival body s)"
| "perform c w (Receive publish ack items) s = snd (receive_from_provider c publish ack items s)"
| "perform c w (Produce n locked publish) s =
     snd (send_batch n locked publish (others w 0) (clock w 0) (db_clock w 0) s)"
| "perform c w (Reconcile client rc locked) s = snd (recover_stuck_tickets c client rc w locked s)"

text \<open>\<open>runs c d d'\<close>: calls of the processes can take the database from \<open>d\<close> to \<open>d'\<close>.\<close>

inductive runs :: "codec \<Rightarrow> database \<Rightarrow> database \<Rightarrow> bool" for c where
  idle: "runs c d d"
| step: "runs c d (committed s) \<Longrightarrow> (\<And>n d'. runs c d' (others w n d')) \<Longrightarrow>
         runs c d (committed (perform c w a s))"

lemma runs_one: "(\<And>n d'. runs c d' (others w n d')) \<Longrightarrow> runs c (committed s) (committed (perform c w a s))"
  by (rule step [OF idle])

lemma quiet_runs: "quiet w \<Longrightarrow> runs c d (others w n d)"
  by (simp add: quiet_def idle)

lemma runs_trans:
  assumes "runs c d' d''" and "runs c d d'"
  shows "runs c d d''"
  using assms
proof (induction rule: runs.induct)
  case (step d' s w a)
  from step.IH(1) [OF step.prems] step.hyps(2) show ?case by (rule runs.step)
qed

section \<open>The invariant\<close>

lemma receive_committed: "committed (snd (receive_from_provider c publish ack items s)) = committed s"
proof (induction c publish ack items arbitrary: s rule: receive_from_provider.induct)
  case (3 c publish ack m items)
  then have "committed (snd (py_bind (receive_from_provider c publish ack items) (\<lambda>(ids, how, unread).
      py_return (m_message_id m # ids, how, unread)) s)) = committed s" for s
    by (auto simp: py_bind_def py_return_def split: prod.split sum.split) (metis snd_conv)+
  with 3 show ?case
    by (cases "publish (inbound_frame c m)"; cases "ack (m_message_id m)")
      (simp_all add: py_try_def py_lift_def py_return_def broker_publish_def)
qed (simp_all add: py_return_def)

lemma perform_reaches:
  assumes "relies c w" and "reaches c d0 (committed s)"
  shows "reaches c d0 (committed (perform c w a s))"
  using assms
  by (cases a) (simp_all add: post_reaches get_reaches consumer_reaches gateway_reaches receive_committed
      batch_reaches reconciler_reaches)

lemma runs_reaches:
  assumes "runs c d d'" and "sound c d"
  shows "reaches c d d'"
  using assms
proof (induction rule: runs.induct)
  case (idle d)
  then show ?case by (simp add: reaches_def)
next
  case (step d s w a)
  from step.IH(2) have "relies c w" by (simp add: relies_def)
  with step.IH(1) step.prems show ?case by (simp add: perform_reaches)
qed

end
