(* ===== verification/System_Properties.thy ===== *)
theory System_Properties
  imports System
begin

text \<open>
  What holds of every state the processes can reach together, and of everything that can
  happen after a call has returned.
\<close>

section \<open>Reachable states\<close>

lemma reachable_sound: "runs c empty_db d \<Longrightarrow> sound c d"
  using runs_reaches [of c empty_db d] sound_empty by (simp add: reaches_def)

lemma reachable_evolves: "runs c empty_db d \<Longrightarrow> runs c d d' \<Longrightarrow> db_evolves d d'"
  using runs_reaches [of c d d'] reachable_sound by (simp add: reaches_def)

lemma reachable_relies: "(\<And>n d. runs c d (others w n d)) \<Longrightarrow> relies c w"
  using runs_reaches by (simp add: relies_def)

lemma stage_new: "stage st \<le> stage st' \<Longrightarrow> st' = NEW \<longrightarrow> st = NEW"
  by (cases st) auto

lemma stage_sent: "stage st \<le> stage st' \<Longrightarrow> st' = SENT_TO_PROVIDER \<longrightarrow> st = NEW \<or> st = SENT_TO_PROVIDER"
  by (cases st) auto

section \<open>A sample run\<close>

text \<open>A ticket created in the empty database, and the provider's cancellation of it.\<close>

definition sample_post :: call where
  "sample_post = Post sample_settings (Some ''secret-key'') (Some ''k1'') sample_payload"

definition sample_stored :: database where
  "sample_stored = committed (perform ref_codec (sample_ambient 0 id) sample_post (session_on empty_db))"

definition sample_cancelled :: "provider_message_type \<Rightarrow> dict" where
  "sample_cancelled ty = message_dump ref_codec
     \<lparr>m_message_id = 900, m_ticket_id = Some 100, m_type = ty, m_timestamp = 50,
      m_payload = payload_dump ref_codec (CancellationAppliedPayload \<lparr>ca_ticket_id = 100\<rparr>)\<rparr>"

lemma calm_runs: "runs c d (others (sample_ambient roll id) n d)"
  by (simp add: idle)

lemma sample_runs: "runs c d (committed (perform c (sample_ambient roll id) a (session_on d)))"
  using runs_one [OF calm_runs, of c "session_on d" roll a] by (simp del: perform.simps)

lemma sample_stored_runs: "runs ref_codec empty_db sample_stored"
  unfolding sample_stored_def by (rule sample_runs)

lemma sample_post_result:
  "\<exists>s1. post_tickets ref_codec sample_settings (sample_ambient 0 id) (Some ''secret-key'') (Some ''k1'')
      sample_payload (session_on empty_db) =
      (\<lparr>r_status = 202, r_body = Accepted \<lparr>ta_ticket_id = 100, ta_status = NEW, ta_created_at = 2000\<rparr>\<rparr>, s1) \<and>
    committed s1 = sample_stored"
  and sample_stored_rows: "\<exists>t e. tickets sample_stored = [t] \<and> outbox_events sample_stored = [e] \<and>
    processed sample_stored = [] \<and>
    t_id t = 100 \<and> t_idempotency_key t = ''k1'' \<and> t_status t = NEW \<and> t_updated_at t = 2000 \<and>
    e_id e = 102 \<and> e_entity_id e = 100"
proof -
  have k: "require_api_key sample_settings (Some ''secret-key'') = Inr ()"
    using right_key [of sample_settings] by simp
  obtain s1 m where s1: "post_tickets ref_codec sample_settings (sample_ambient 0 id) (Some ''secret-key'') (Some ''k1'')
      sample_payload (session_on empty_db) =
      (\<lparr>r_status = 202, r_body = Accepted \<lparr>ta_ticket_id = 100, ta_status = NEW, ta_created_at = 2000\<rparr>\<rparr>, s1)"
    "committed s1 = with_ticket ref_codec (sample_ambient 0 id)
      (new_ticket 100 ''k1'' (service_request ref_codec sample_create_request) (tcr_currency sample_create_request)) m empty_db"
    using post_stores [OF ref_codec_ok k sample_payload_valid, of "''k1''" "sample_ambient 0 id" "session_on empty_db"]
    by auto
  then have eq: "sample_stored = committed s1" by (simp add: sample_stored_def sample_post_def)
  with s1 show "\<exists>s1. post_tickets ref_codec sample_settings (sample_ambient 0 id) (Some ''secret-key'') (Some ''k1'')
      sample_payload (session_on empty_db) =
      (\<lparr>r_status = 202, r_body = Accepted \<lparr>ta_ticket_id = 100, ta_status = NEW, ta_created_at = 2000\<rparr>\<rparr>, s1) \<and>
    committed s1 = sample_stored" by auto
  show "\<exists>t e. tickets sample_stored = [t] \<and> outbox_events sample_stored = [e] \<and> processed sample_stored = [] \<and>
    t_id t = 100 \<and> t_idempotency_key t = ''k1'' \<and> t_status t = NEW \<and> t_updated_at t = 2000 \<and>
    e_id e = 102 \<and> e_entity_id e = 100"
    by (simp add: eq s1(2) with_ticket_def insert_row_def)
      (simp add: stored_ticket_def new_ticket_def new_outbox_event_def)
qed

lemma sample_cancelled_message:
  "body_message ref_codec (sample_cancelled ty)
    \<lparr>m_message_id = 900, m_ticket_id = Some 100, m_type = ty, m_timestamp = 50,
     m_payload = payload_dump ref_codec (CancellationAppliedPayload \<lparr>ca_ticket_id = 100\<rparr>)\<rparr>"
  unfolding body_message_def sample_cancelled_def by (intro allI) (rule ref.message_roundtrip)

lemma sample_cancellation:
  "\<exists>s1. consumer_handle ref_codec sample_client (sample_ambient 0 id) 0 0 (sample_cancelled CANCELLATION_APPLIED)
      (session_on sample_stored) = (Inr (), s1) \<and> processed (committed s1) \<noteq> processed sample_stored"
proof -
  obtain t where t: "tickets sample_stored = [t]" "t_id t = 100" "t_status t = NEW" "processed sample_stored = []"
    using sample_stored_rows by blast
  have "db_ok sample_stored" using reachable_sound [OF sample_stored_runs] by (simp add: sound_def)
  with t show ?thesis
    using handle_cancellation [OF sample_cancelled_message, of CANCELLATION_APPLIED "\<lparr>ca_ticket_id = 100\<rparr>"
        "session_on sample_stored" t sample_client "sample_ambient 0 id" 0 0]
      ref.cancellation_applied_payload_roundtrip [of "\<lparr>ca_ticket_id = 100\<rparr>"]
    by (auto simp: claimed_ids_def select_by_def cancel_applied_db_def)
qed

section \<open>In every reachable state\<close>

text \<open>
  C1: the outbox never loses a new ticket. In every reachable state, whatever calls ran and
  however they were interleaved, every ticket has an outbox entry of its own whose body the
  gateway reads back as the \<open>TICKET\<close> message of this ticket; keys are unique, columns fit,
  stakes are positive, and no ticket is \<open>EXPIRED\<close>.
\<close>

theorem every_ticket_is_announced:
  assumes c: "codec_ok c" and run: "runs c empty_db d"
  shows "db_ok d \<and> (\<forall>t \<in> set (tickets d). t_status t \<noteq> EXPIRED \<and>
    (\<exists>e \<in> set (outbox_events d). e_entity_id e = t_id t \<and>
      (\<exists>m. message_validate c fresh arrival (e_payload e) = Some m \<and>
           m_type m = TICKET \<and> m_ticket_id m = Some (t_id t))))"
proof -
  have s: "sound c d" by (rule reachable_sound [OF run])
  have "message_validate c fresh arrival (message_dump c m) = Some m" for m
    by (rule codec_reads(1) [OF c])
  then have read: "announces c i e \<Longrightarrow> e_entity_id e = i \<and>
      (\<exists>m. message_validate c fresh arrival (e_payload e) = Some m \<and> m_type m = TICKET \<and> m_ticket_id m = Some i)" for i e
    by (auto simp: announces_def)
  from s have "db_ok d" by (simp add: sound_def)
  moreover have "t_status t \<noteq> EXPIRED \<and> (\<exists>e \<in> set (outbox_events d). announces c (t_id t) e)"
    if "t \<in> set (tickets d)" for t
    using s that by (simp add: sound_def)
  ultimately show ?thesis using read by blast
qed

theorem every_ticket_is_announced_witness:
  "\<exists>e m. outbox_events sample_stored = [e] \<and> e_entity_id e = 100 \<and>
    message_validate ref_codec 0 0 (e_payload e) = Some m \<and> m_type m = TICKET \<and> m_ticket_id m = Some 100"
  using every_ticket_is_announced [OF ref_codec_ok sample_stored_runs, of 0 0] sample_stored_rows by auto

text \<open>
  C15: whatever the gateway is sent, it can read. Every outbox entry of a reachable state
  names a stored ticket, fits its columns, and is a message of one of the four outbound
  types whose payload is of the class the type stands for; its frame is routed to the
  gateway's queue and to no other.
\<close>

theorem outbox_is_readable:
  assumes c: "codec_ok c" and run: "runs c empty_db d" and e: "e \<in> set (outbox_events d)"
  shows "\<exists>m. message_validate c fresh arrival (e_payload e) = Some m \<and>
    m_ticket_id m = Some (e_entity_id e) \<and> e_entity_id e \<in> t_id ` set (tickets d) \<and>
    m_type m \<in> {TICKET, CONFIRM_RECOMMENDATION, DECLINE_RECOMMENDATION, REQUEST_CANCELLATION} \<and>
    payload_by_type (m_type m) c (m_payload m) \<noteq> None \<and> outbox_columns_fit e \<and>
    route (setup_topology st empty_broker) (f_exchange (event_frame e)) (f_routing_key (event_frame e)) =
      [q_name (provider_out_queue st)]"
proof -
  have "sound_event c (t_id ` set (tickets d)) e"
    using reachable_sound [OF run] e by (simp add: sound_def)
  then obtain m p where m: "e_payload e = message_dump c m" "m_ticket_id m = Some (e_entity_id e)"
    "m_type m \<in> outbound_types" "m_payload m = payload_dump c p" "payload_type p = m_type m"
    and e: "e_entity_id e \<in> t_id ` set (tickets d)" "outbox_columns_fit e"
      "e_routing_key e = top_provider_out_routing_key TOPOLOGY"
    by (auto simp: sound_event_def outbound_message_def)
  have "message_validate c fresh arrival (message_dump c m) = Some m"
    by (rule codec_reads(1) [OF c])
  moreover have "payload_by_type (payload_type p) c (payload_dump c p) = Some p"
    by (rule codec_reads(2) [OF c])
  moreover have "route (setup_topology st empty_broker) (f_exchange (event_frame e)) (f_routing_key (event_frame e)) =
      [q_name (provider_out_queue st)]"
    by (simp add: event_frame_def e(3) topology_defs route_def List.insert_def)
  ultimately show ?thesis using m e by (intro exI [of _ m]) (simp add: outbound_types_def)
qed

theorem outbox_is_readable_witness:
  "\<exists>e m. e \<in> set (outbox_events sample_stored) \<and> message_validate ref_codec 0 0 (e_payload e) = Some m \<and>
    m_ticket_id m = Some 100"
proof -
  obtain e where e: "outbox_events sample_stored = [e]" "e_entity_id e = 100" using sample_stored_rows by blast
  then show ?thesis
    using outbox_is_readable [OF ref_codec_ok sample_stored_runs, of e 0 0 sample_settings] by auto
qed

text \<open>
  C5: nothing is lost or taken back. Whatever happens after a state, every ticket is still
  there with its identifier, key, owner, stake, currency, selections and time of creation;
  once it has left \<open>NEW\<close> it is never \<open>NEW\<close> again, and once it has left \<open>SENT_TO_PROVIDER\<close>
  too, neither; a time once recorded stays recorded. Every outbox entry is still there with
  its body and address, and has not been tried fewer times; every claim is still there.
\<close>

theorem history_is_kept:
  assumes run: "runs c empty_db d" and later: "runs c d d'"
  shows "(\<forall>t \<in> set (tickets d). \<exists>t' \<in> set (tickets d'). same_order t t' \<and>
      (t_status t' = NEW \<longrightarrow> t_status t = NEW) \<and>
      (t_status t' = SENT_TO_PROVIDER \<longrightarrow> t_status t \<in> {NEW, SENT_TO_PROVIDER}) \<and>
      (t_settled_at t \<noteq> None \<longrightarrow> t_settled_at t' \<noteq> None) \<and>
      (t_confirmed_at t \<noteq> None \<longrightarrow> t_confirmed_at t' \<noteq> None) \<and>
      (t_cancelled_at t \<noteq> None \<longrightarrow> t_cancelled_at t' \<noteq> None)) \<and>
    (\<forall>e \<in> set (outbox_events d). \<exists>e' \<in> set (outbox_events d').
      event_frame e' = event_frame e \<and> e_entity_id e' = e_entity_id e \<and> e_attempts e \<le> e_attempts e') \<and>
    set (processed d) \<subseteq> set (processed d')"
proof -
  have ev: "db_evolves d d'" by (rule reachable_evolves [OF run later])
  have ticket: "same_order t t' \<and> (t_status t' = NEW \<longrightarrow> t_status t = NEW) \<and>
      (t_status t' = SENT_TO_PROVIDER \<longrightarrow> t_status t \<in> {NEW, SENT_TO_PROVIDER}) \<and>
      (t_settled_at t \<noteq> None \<longrightarrow> t_settled_at t' \<noteq> None) \<and>
      (t_confirmed_at t \<noteq> None \<longrightarrow> t_confirmed_at t' \<noteq> None) \<and>
      (t_cancelled_at t \<noteq> None \<longrightarrow> t_cancelled_at t' \<noteq> None)" if "ticket_evolves t t'" for t t'
    using that stage_new [of "t_status t" "t_status t'"] stage_sent [of "t_status t" "t_status t'"]
    by (simp add: ticket_evolves_def kept_def)
  have event: "event_frame e' = event_frame e \<and> e_entity_id e' = e_entity_id e \<and> e_attempts e \<le> e_attempts e'"
    if "event_evolves e e'" for e e'
    using that by (simp add: event_evolves_def event_frame_def)
  show ?thesis
  proof (intro conjI ballI)
    fix t assume "t \<in> set (tickets d)"
    then obtain t' where t': "t' \<in> set (tickets d')" "ticket_evolves t t'" using db_evolvesD(1) [OF ev] by blast
    show "\<exists>t' \<in> set (tickets d'). same_order t t' \<and> (t_status t' = NEW \<longrightarrow> t_status t = NEW) \<and>
      (t_status t' = SENT_TO_PROVIDER \<longrightarrow> t_status t \<in> {NEW, SENT_TO_PROVIDER}) \<and>
      (t_settled_at t \<noteq> None \<longrightarrow> t_settled_at t' \<noteq> None) \<and>
      (t_confirmed_at t \<noteq> None \<longrightarrow> t_confirmed_at t' \<noteq> None) \<and>
      (t_cancelled_at t \<noteq> None \<longrightarrow> t_cancelled_at t' \<noteq> None)"
      by (rule bexI [OF _ t'(1)]) (rule ticket [OF t'(2)])
  next
    fix e assume "e \<in> set (outbox_events d)"
    then obtain e' where e': "e' \<in> set (outbox_events d')" "event_evolves e e'" using db_evolvesD(2) [OF ev] by blast
    show "\<exists>e' \<in> set (outbox_events d').
      event_frame e' = event_frame e \<and> e_entity_id e' = e_entity_id e \<and> e_attempts e \<le> e_attempts e'"
      by (rule bexI [OF _ e'(1)]) (rule event [OF e'(2)])
  qed (rule db_evolvesD(3) [OF ev])
qed

theorem history_is_kept_witness:
  "\<exists>t'. t' \<in> set (tickets (committed (perform ref_codec (sample_ambient 0 id)
      (Consume sample_client 0 0 (sample_cancelled CANCELLATION_APPLIED)) (session_on sample_stored)))) \<and>
    t_id t' = 100 \<and> t_idempotency_key t' = ''k1''"
proof -
  let ?s = "perform ref_codec (sample_ambient 0 id) (Consume sample_client 0 0 (sample_cancelled CANCELLATION_APPLIED))
      (session_on sample_stored)"
  have "runs ref_codec sample_stored (committed ?s)"
    by (rule sample_runs)
  from history_is_kept [OF sample_stored_runs this] sample_stored_rows show ?thesis
    by (auto simp: same_order_def)
qed

text \<open>
  The bounds of every reachable row. Every stake is positive and has at most eighteen
  digits, keys, reasons and errors are within the widths of their columns, identifiers and
  idempotency keys are not shared, and there are at least as many outbox entries as tickets.
\<close>

theorem reachable_rows_bounded:
  assumes run: "runs c empty_db d"
  shows "(\<forall>t \<in> set (tickets d). 0 < coefficient (t_stake_amount t) \<and> coefficient (t_stake_amount t) < 10 ^ 18 \<and>
      length (t_idempotency_key t) \<le> 128 \<and>
      (\<forall>x. t_provider_reason t = Some x \<longrightarrow> length x \<le> 512) \<and> (\<forall>x. t_failure_reason t = Some x \<longrightarrow> length x \<le> 1024)) \<and>
    (\<forall>e \<in> set (outbox_events d). length (e_event_type e) \<le> 128 \<and> length (e_routing_key e) \<le> 255 \<and>
      (\<forall>x. e_last_error e = Some x \<longrightarrow> length x \<le> 2048)) \<and>
    distinct (map t_id (tickets d)) \<and> distinct (map t_idempotency_key (tickets d)) \<and>
    length (tickets d) \<le> length (outbox_events d)"
proof -
  have s: "sound c d" by (rule reachable_sound [OF run])
  then have ok: "db_ok d" by (simp add: sound_def)
  have row: "0 < coefficient (t_stake_amount t) \<and> coefficient (t_stake_amount t) < 10 ^ 18 \<and>
      length (t_idempotency_key t) \<le> 128 \<and>
      (\<forall>x. t_provider_reason t = Some x \<longrightarrow> length x \<le> 512) \<and> (\<forall>x. t_failure_reason t = Some x \<longrightarrow> length x \<le> 1024)"
    if "t \<in> set (tickets d)" for t
    using ok that by (auto simp: db_ok_def ticket_columns_fit_def stake_amount_positive_def numeric_fits_def varchar_fits_def)
  have event: "length (e_event_type e) \<le> 128 \<and> length (e_routing_key e) \<le> 255 \<and>
      (\<forall>x. e_last_error e = Some x \<longrightarrow> length x \<le> 2048)"
    if "e \<in> set (outbox_events d)" for e
    using s that by (auto simp: sound_def sound_event_def outbox_columns_fit_def varchar_fits_def)
  have keys: "distinct (map t_id (tickets d))" "distinct (map t_idempotency_key (tickets d))"
    using ok by (simp_all add: db_ok_def unique_by_def)
  have "t_id ` set (tickets d) \<subseteq> e_entity_id ` set (outbox_events d)"
    using s by (force simp: sound_def announces_def)
  then have "card (t_id ` set (tickets d)) \<le> card (e_entity_id ` set (outbox_events d))"
    by (intro card_mono) simp_all
  also have "\<dots> \<le> length (outbox_events d)" by (metis card_length length_map list.set_map)
  finally have "length (tickets d) \<le> length (outbox_events d)"
    using distinct_card [OF keys(1)] by simp
  with row event keys show ?thesis by blast
qed

theorem reachable_rows_bounded_witness:
  "\<exists>t. tickets sample_stored = [t] \<and> 0 < coefficient (t_stake_amount t) \<and> coefficient (t_stake_amount t) < 10 ^ 18"
  using reachable_rows_bounded [OF sample_stored_runs] sample_stored_rows by auto

section \<open>For ever\<close>

text \<open>
  The interference of a call only meets sound databases, so that it makes no difference what
  the others would do to another.
\<close>

definition confined :: "codec \<Rightarrow> ambient \<Rightarrow> ambient" where
  "confined c w = w\<lparr>others := (\<lambda>n d. if sound c d then others w n d else d)\<rparr>"

lemma confined_grows: "relies c w \<Longrightarrow> claim_only_grows (confined c w)"
  unfolding claim_only_grows_def confined_def relies_def reaches_def db_evolves_def claimed_ids_def
  by (auto intro!: image_mono)

lemma confined_simps [simp]:
  "clock (confined c w) = clock w" "db_clock (confined c w) = db_clock w" "uuid4 (confined c w) = uuid4 w"
  "rolls (confined c w) = rolls w" "clock (later k (confined c w)) = clock (later k w)"
  "db_clock (later k (confined c w)) = db_clock (later k w)" "uuid4 (later k (confined c w)) = uuid4 (later k w)"
  by (simp_all add: confined_def later_def)

lemma bind_on:
  assumes "I s" and "keeps I m" and "\<And>x s. I s \<Longrightarrow> f x s = g x s"
  shows "py_bind m f s = py_bind m g s"
  using keepsD [OF assms(2,1)] assms(3) by (cases "m s") (auto simp: py_bind_def split: sum.split)

lemma interfere_confined:
  "unit_ok c d0 known s \<Longrightarrow> interfere (others (confined c w) n) s = interfere (others w n) s"
  by (simp add: unit_ok_def reaches_def interfere_def py_modify_def confined_def)

lemma draws_confined:
  "record_recommendation (confined c w) i p = record_recommendation w i p"
  "settle c (confined c w) i a = settle c w i a"
  "request_cancellation c client (later 1 (confined c w)) i why = request_cancellation c client (later 1 w) i why"
  unfolding record_recommendation_def settle_def settle_locked_def request_cancellation_eq cancel_locked_def
    confined_simps by (rule refl)+

lemma apply_recommendation_confined:
  assumes s: "unit_ok c d0 known s"
  shows "apply_recommendation c client (confined c w) p s = apply_recommendation c client w p s"
proof -
  have "py_bind (record_recommendation w i p) (\<lambda>_. py_bind (interfere (others (confined c w) 0)) k) s' =
      py_bind (record_recommendation w i p) (\<lambda>_. py_bind (interfere (others w 0)) k) s'"
    if "unit_ok c d0 known s'" for s' i and k :: "unit \<Rightarrow> unit op"
    using that by (rule bind_on [OF _ inv_record_recommendation]) (simp add: py_bind_def interfere_confined)
  moreover have "keeps (unit_ok c d0 known) (get_by_id_for_update i)" for i
    using inv_scalar(1) by (fastforce simp: keeps_def get_by_id_for_update_def select_by_def)
  ultimately show ?thesis
    unfolding apply_recommendation_def confined_simps draws_confined
    by (intro bind_on [where I = "unit_ok c d0 known", OF s]) (simp_all split: option.split)
qed

lemma mark_confined: "mark_cancellation_applied (confined c w) i = mark_cancellation_applied w i"
  unfolding mark_cancellation_applied_def confined_simps by (rule refl)

lemma consumer_confined:
  assumes d: "sound c (committed s)"
  shows "consumer_handle c client (confined c w) fresh arrival body s = consumer_handle c client w fresh arrival body s"
proof -
  let ?I = "unit_ok c (committed s) {}"
  have "?I (open_session s)" using d by (intro unit_ok_open) (simp add: reaches_def)
  moreover have "dispatch c client (confined c w) m s' = dispatch c client w m s'" if "?I s'" for m s'
    using that by (auto simp: dispatch_def bind_lift apply_recommendation_confined mark_confined split: sum.split)
  ultimately have "handle_claimed c client (confined c w) m (open_session s) = handle_claimed c client w m (open_session s)" for m
    unfolding handle_claimed_def confined_simps by (intro bind_on [of ?I]) (auto intro: keeps_intros)
  then show ?thesis by (simp add: consumer_handle_def bind_lift session_scope_def py_try_def split: sum.split)
qed

lemma claimed_for_ever:
  "sound c d \<Longrightarrow> runs c d d' \<Longrightarrow> k \<in> claimed_ids d \<Longrightarrow> k \<in> claimed_ids d'"
  using runs_reaches [of c d d'] db_evolvesD(3) [of d d'] by (auto simp: reaches_def claimed_ids_def)

text \<open>
  C3: a provider message takes effect at most once, for ever. If a delivery changed the
  database, then in every state that can be reached afterwards, by whatever calls in
  whatever interleaving, another delivery of the same body returns normally, changes no
  table, gives no frame to the broker and is counted as a duplicate.
\<close>

theorem effect_at_most_once_for_ever:
  assumes run: "runs c empty_db (committed s)" and m: "body_message c body m"
    and others: "\<And>n d. runs c d (others w n d)"
    and first: "consumer_handle c client w fresh arrival body s = (x, s1)"
    and effect: "committed s1 \<noteq> committed s"
    and later: "runs c (committed s1) (committed s2)"
  shows "\<exists>s3. consumer_handle c client' w' fresh' arrival' body s2 = (Inr (), s3) \<and>
    committed s3 = committed s2 \<and> published s3 = published s2 \<and>
    counters s3 = (counters s2)(InboundDuplicate (provider_message_type_value (m_type m)) :=
       Suc (counters s2 (InboundDuplicate (provider_message_type_value (m_type m)))))"
proof -
  have w: "relies c w" by (rule reachable_relies [OF others])
  have d: "sound c (committed s)" by (rule reachable_sound [OF run])
  have "committed s1 = committed s \<or> (m_type m \<in> HANDLED_TYPES \<and> m_message_id m \<in> claimed_ids (committed s1))"
    using handle_claims [OF m confined_grows [OF w], of client fresh arrival s] first
    by (simp add: consumer_confined [OF d])
  with effect have ty: "m_type m \<in> HANDLED_TYPES" and old: "m_message_id m \<in> claimed_ids (committed s1)" by simp_all
  have "sound c (committed s1)"
    using consumer_reaches [OF w, of "committed s" s client fresh arrival body] first d by (simp add: reaches_def)
  from claimed_for_ever [OF this later old] have "m_message_id m \<in> claimed_ids (committed s2)" .
  from handle_duplicate [OF m ty this, of client' w' fresh' arrival'] show ?thesis by simp
qed

theorem effect_at_most_once_for_ever_witness:
  "\<exists>s1 s3. consumer_handle ref_codec sample_client (sample_ambient 0 id) 0 0 (sample_cancelled CANCELLATION_APPLIED)
      (session_on sample_stored) = (Inr (), s1) \<and> committed s1 \<noteq> sample_stored \<and>
    consumer_handle ref_codec sample_client (sample_ambient 1 id) 5 6 (sample_cancelled CANCELLATION_APPLIED)
      (perform ref_codec (sample_ambient 0 id) sample_post (session_on (committed s1))) = (Inr (), s3) \<and>
    committed s3 = committed (perform ref_codec (sample_ambient 0 id) sample_post (session_on (committed s1)))"
proof -
  obtain s1 where s1: "consumer_handle ref_codec sample_client (sample_ambient 0 id) 0 0
      (sample_cancelled CANCELLATION_APPLIED) (session_on sample_stored) = (Inr (), s1)"
    and "processed (committed s1) \<noteq> processed sample_stored"
    using sample_cancellation by blast
  then have ne: "committed s1 \<noteq> sample_stored" by auto
  let ?s2 = "perform ref_codec (sample_ambient 0 id) sample_post (session_on (committed s1))"
  have later: "runs ref_codec (committed s1) (committed ?s2)" by (rule sample_runs)
  have "runs ref_codec empty_db (committed (session_on sample_stored))" by (simp add: sample_stored_runs)
  from effect_at_most_once_for_ever [OF this sample_cancelled_message calm_runs s1 _ later, of sample_client
      "sample_ambient 1 id" 5 6] s1 ne
  show ?thesis by auto
qed




text \<open>
  C4: a creation is idempotent, for ever. Once a request has been answered with 202 and a
  ticket, under whatever interference, then in every state that can be reached afterwards
  every valid request under the same idempotency key, with whatever content, is answered
  with 202, the same ticket and the same time of creation, and changes nothing.
\<close>

theorem creation_idempotent_for_ever:
  assumes run: "runs c empty_db (committed s)" and others: "\<And>n d. runs c d (others w n d)"
    and first: "post_tickets c st w key (Some idem) payload s = (\<lparr>r_status = 202, r_body = Accepted a\<rparr>, s1)"
    and later: "runs c (committed s1) (committed s2)"
    and key': "require_api_key st' key' = Inr ()" and payload': "ticket_create_request_validate c payload' = Some r'"
  shows "\<exists>s3 a'. post_tickets c st' w' key' (Some idem) payload' s2 =
      (\<lparr>r_status = 202, r_body = Accepted a'\<rparr>, s3) \<and>
    ta_ticket_id a' = ta_ticket_id a \<and> ta_created_at a' = ta_created_at a \<and>
    committed s3 = committed s2 \<and> counters s3 = counters s2"
proof -
  have w: "relies c w" by (rule reachable_relies [OF others])
  have d: "sound c (committed s)" by (rule reachable_sound [OF run])
  obtain t where t: "t \<in> set (tickets (committed s1))" "t_idempotency_key t = idem"
    "t_id t = ta_ticket_id a" "t_created_at t = ta_created_at a"
    using post_returns [OF first] by blast
  have "reaches c (committed s) (committed s1)"
    using post_reaches [OF w, of "committed s" s st key "Some idem" payload] d first by (simp add: reaches_def)
  then have ev: "reaches c (committed s1) (committed s2)" using runs_reaches [OF later] by (simp add: reaches_def)
  then have ok: "db_ok (committed s2)" and evolves: "db_evolves (committed s1) (committed s2)"
    by (simp_all add: reaches_def sound_def)
  obtain t' where t': "t' \<in> set (tickets (committed s2))" "ticket_evolves t t'"
    using db_evolvesD(1) [OF evolves t(1)] by blast
  then have same: "t_id t' = t_id t" "t_idempotency_key t' = idem" "t_created_at t' = t_created_at t"
    using t by (simp_all add: ticket_evolves_def same_order_def)
  show ?thesis
    using post_existing [OF key' payload' ok t'(1) same(2), of w'] same t by fastforce
qed

theorem creation_idempotent_for_ever_witness:
  "\<exists>s1 s3 a'. post_tickets ref_codec sample_settings (sample_ambient 0 id) (Some ''secret-key'') (Some ''k1'')
      sample_payload (session_on empty_db) =
      (\<lparr>r_status = 202, r_body = Accepted \<lparr>ta_ticket_id = 100, ta_status = NEW, ta_created_at = 2000\<rparr>\<rparr>, s1) \<and>
    post_tickets ref_codec sample_settings (sample_ambient 1 id) (Some ''secret-key'') (Some ''k1'') sample_payload
      (perform ref_codec (sample_ambient 0 id) (Consume sample_client 0 0 (sample_cancelled CANCELLATION_APPLIED))
        (session_on (committed s1))) = (\<lparr>r_status = 202, r_body = Accepted a'\<rparr>, s3) \<and>
    ta_ticket_id a' = 100"
proof -
  obtain s1 where s1: "post_tickets ref_codec sample_settings (sample_ambient 0 id) (Some ''secret-key'') (Some ''k1'')
      sample_payload (session_on empty_db) =
      (\<lparr>r_status = 202, r_body = Accepted \<lparr>ta_ticket_id = 100, ta_status = NEW, ta_created_at = 2000\<rparr>\<rparr>, s1)"
    using sample_post_result by blast
  let ?s2 = "perform ref_codec (sample_ambient 0 id) (Consume sample_client 0 0 (sample_cancelled CANCELLATION_APPLIED))
        (session_on (committed s1))"
  have later: "runs ref_codec (committed s1) (committed ?s2)"
    by (rule sample_runs)
  have k: "require_api_key sample_settings (Some ''secret-key'') = Inr ()"
    using right_key [of sample_settings] by simp
  have "runs ref_codec empty_db (committed (session_on empty_db))" by (simp add: idle)
  from creation_idempotent_for_ever [OF this calm_runs s1 later k sample_payload_valid, of "sample_ambient 1 id"] s1
  show ?thesis by auto
qed

end
