(* ===== verification/Journey.thy ===== *)
theory Journey
  imports System_Properties Outbox_Queue Reconciler_Properties
begin

text \<open>
  From the request to the final answer: what the processes achieve together when nothing
  fails. Each step is one call of one process; the frames one puts on a queue are the bodies
  the next one is delivered.
\<close>

section \<open>One ticket through one call\<close>

text \<open>The tables are sound and \<open>r\<close> is the row of the ticket \<open>i\<close>.\<close>

definition holds :: "codec \<Rightarrow> uuid \<Rightarrow> ticket \<Rightarrow> sess \<Rightarrow> bool" where
  "holds c i r s \<longleftrightarrow> sound c (committed s) \<and> select_by t_id i (tickets (committed s)) = [r]"

lemma holds_ok: "holds c i r s \<Longrightarrow> db_ok (committed s)"
  by (simp add: holds_def sound_def)

lemma quiet_relies: "quiet w \<Longrightarrow> relies c w"
  by (simp add: relies_def quiet_def reaches_def)

lemma sound_after: "reaches c d d' \<Longrightarrow> sound c d'"
  by (simp add: reaches_def)

lemma reaches_self: "sound c d \<Longrightarrow> reaches c d d"
  by (simp add: reaches_def)

text \<open>The producer: a broker that takes every frame leaves nothing pending.\<close>

abbreviation open_broker :: "frame \<Rightarrow> string + unit" where
  "open_broker \<equiv> \<lambda>_. Inr ()"

lemma step_produce:
  assumes h: "holds c i r s" and e: "e \<in> set (pending_events (committed s))"
    and n: "length (pending_events (committed s)) \<le> n"
  shows "\<exists>k s'. send_batch n (\<lambda>_. False) open_broker id now db_now s = (Inr k, s') \<and> holds c i r s' \<and>
    event_frame e \<in> set (published s') \<and> pending_events (committed s') = [] \<and>
    event_ids (committed s') = event_ids (committed s) \<and> processed (committed s') = processed (committed s)"
proof -
  let ?b = "batch_of n (\<lambda>_. False) (committed s)"
  let ?db = "sent_db open_broker now db_now ?b (committed s)"
  have uniq: "unique_by e_id (outbox_events (committed s))" using holds_ok [OF h] by (simp add: db_ok_def)
  have "e \<in> set ?b" using e by (simp add: whole_batch [OF n])
  then have some: "?b \<noteq> []" by auto
  obtain k s' where run: "send_batch n (\<lambda>_. False) open_broker id now db_now s = (Inr k, s')"
    and s': "committed s' = ?db" "published s' = published s @ map event_frame ?b"
    using send_batch_effect [OF uniq refl some _ refl, of id open_broker now db_now] uniq by auto
  have "relies c (sample_ambient 0 id)" by (rule quiet_relies) simp
  from batch_reaches [OF this reaches_self, of s n "\<lambda>_. False" open_broker 0 now db_now] h
  have "sound c (committed s')" by (simp add: holds_def run reaches_def)
  moreover have "pending_events ?db = []"
    using accepting_round_pending(3) [OF uniq, of open_broker, OF refl refl refl] n
    by (metis diff_is_0_eq length_0_conv)
  moreover have "map e_id (outbox_events ?db) = map e_id (outbox_events (committed s))"
    by (simp add: sent_db_def map_key_update)
  then have "event_ids ?db = event_ids (committed s)" by (metis list.set_map)
  moreover have "tickets ?db = tickets (committed s)" "processed ?db = processed (committed s)"
    by (simp_all add: sent_db_def)
  ultimately show ?thesis
    using run h \<open>e \<in> set ?b\<close>
    by (intro exI [of _ k] exI [of _ s']) (simp add: s' holds_def)
qed

text \<open>The gateway: the provider acknowledges a message that moves the ticket.\<close>

lemma step_transmit:
  assumes h: "holds c i r s" and m: "message_validate c fresh arrival body = Some m" and sent: "send m = Inr a"
    and i: "m_ticket_id m = Some i" and target: "success_target (m_type m) = Some target"
    and st: "moves target (t_status r)"
  shows "holds c i (moved_ticket w target r) (perform c w (Transmit send fresh arrival body) s)"
    and "outbox_events (committed (perform c w (Transmit send fresh arrival body) s)) = outbox_events (committed s)"
    and "processed (committed (perform c w (Transmit send fresh arrival body) s)) = processed (committed s)"
proof -
  have r: "select_by t_id i (tickets (committed s)) = [r]" using h by (simp add: holds_def)
  have "target \<in> {SENT_TO_PROVIDER, CONFIRMED, DECLINED}"
    using target by (auto simp: success_target_def split: if_splits)
  then have ne: "target \<noteq> t_status r" using st by (auto simp: moves_def)
  obtain s1 where s1: "move_ticket w i target s = (Inr (Some (t_status r)), s1)"
    "committed s1 = rewrite_ticket i (moved_ticket w target) (committed s)" "published s1 = published s"
    using move_ticket_effect [OF holds_ok [OF h] r st ne, of w] by auto
  have "\<exists>s'. handle_message_success_ack w m s = (Inr (), s') \<and> committed s' = committed s1 \<and> published s' = published s1"
    using s1(1) by (simp add: handle_message_success_ack_def i target py_bind_def inc_def py_modify_def)
  then obtain s' where run: "send_to_provider c send w fresh arrival body s = (Inr (), s')"
    and s': "committed s' = committed s1" "published s' = published s1"
    using send_to_provider_ok [where send = send, OF m sent, of w s] by auto
  have "sound c (committed s')"
    using gateway_reaches [OF reaches_self, of c s send w fresh arrival body] h by (simp add: holds_def run reaches_def)
  moreover have "select_by t_id i (tickets (committed s')) = [moved_ticket w target r]"
    using select_rewritten [OF r, of "moved_ticket w target"] by (simp add: s' s1 moved_ticket_def)
  ultimately have "holds c i (moved_ticket w target r) s'" by (simp add: holds_def)
  then show "holds c i (moved_ticket w target r) (perform c w (Transmit send fresh arrival body) s)"
    and "outbox_events (committed (perform c w (Transmit send fresh arrival body) s)) = outbox_events (committed s)"
    and "processed (committed (perform c w (Transmit send fresh arrival body) s)) = processed (committed s)"
    using s1 s' by (simp_all add: run)
qed

text \<open>The API: a valid request under an unused key.\<close>

lemma step_post:
  assumes c: "codec_ok c" and d: "sound c (committed s)" and k: "require_api_key st key = Inr ()"
    and r: "ticket_create_request_validate c payload = Some r"
    and len: "length idem \<le> 128" and q: "quiet w"
    and unused: "idem \<notin> t_idempotency_key ` set (tickets (committed s))"
    and ids: "uuid4 w 0 \<notin> t_id ` set (tickets (committed s))" "uuid4 w 2 \<notin> event_ids (committed s)"
  shows "\<exists>x s' t e m. post_tickets c st w key (Some idem) payload s = (x, s') \<and> r_status x = 202 \<and>
    holds c (uuid4 w 0) t s' \<and> t_status t = NEW \<and>
    outbox_events (committed s') = outbox_events (committed s) @ [e] \<and> e_id e = uuid4 w 2 \<and>
    e_status e = PENDING \<and> e_payload e = message_dump c m \<and> m_type m = TICKET \<and>
    m_ticket_id m = Some (uuid4 w 0) \<and> processed (committed s') = processed (committed s)"
proof -
  let ?t = "new_ticket (uuid4 w 0) idem (service_request c r) (tcr_currency r)"
  let ?row = "stored_ticket (db_clock w 0) ?t"
  obtain x s' m where run: "post_tickets c st w key (Some idem) payload s = (x, s')" "r_status x = 202"
    and s': "committed s' = with_ticket c w ?t m (committed s)"
    and m: "build_ticket_message c (clock w 0) (uuid4 w 1) (clock w 1) ?t = Inr m"
    using post_stores [OF c k r len q unused ids refl] by fastforce
  have i: "t_id ?row = uuid4 w 0" "t_id ?t = uuid4 w 0" by (simp_all add: stored_ticket_def new_ticket_def)
  have "sound c (committed s')"
    using post_reaches [OF quiet_relies [OF q] reaches_self, of c s st key "Some idem" payload] d
    by (simp add: run reaches_def)
  moreover have "select_by t_id (uuid4 w 0) (tickets (committed s')) = [?row]"
    using ids(1) i by (simp add: s' with_ticket_def select_by_insert select_by_empty_iff)
  moreover have "t_status ?row = NEW" by (simp add: stored_ticket_def new_ticket_def)
  ultimately show ?thesis
    using run ticket_message_built(2,3) [OF m] i(2)
    by (intro exI [of _ x] exI [of _ s'] exI [of _ ?row]
        exI [of _ "outbound_event c (uuid4 w 2) (db_clock w 0) (uuid4 w 0) m"] exI [of _ m])
      (simp add: holds_def s' with_ticket_def insert_row_def, simp add: new_outbox_event_def)
qed

text \<open>The consumer: a recommendation for a ticket that is not final.\<close>

lemma step_consume:
  assumes h: "holds c i r s" and m: "body_message c body m" and ty: "m_type m = RECOMMENDATION"
    and p: "recommendation_payload_validate c (m_payload m) = Some p" and i: "rp_ticket_id p = i"
    and new: "m_message_id m \<notin> claimed_ids (committed s)" and q: "quiet w"
    and st: "\<not> terminal (t_status r)" and reason: "varchar_fits 512 (rp_reason p)"
    and answers: "\<not> rolls w 0 < error_rate client" and ev: "uuid4 w 1 \<notin> event_ids (committed s)"
  shows "\<exists>s' r'. consumer_handle c client w fresh arrival body s = (Inr (), s') \<and> holds c i r' s' \<and>
    t_status r' = SETTLED \<and> t_provider_recommendation r' = Some (rp_action p) \<and> t_settled_at r' \<noteq> None \<and>
    outbox_events (committed s') = outbox_events (committed s) @
      [outbound_event c (uuid4 w 1) (db_clock w 1) i (ack_message c w i (rp_action p))]"
proof -
  have r: "select_by t_id (rp_ticket_id p) (tickets (committed s)) = [r]" using h i by (simp add: holds_def)
  obtain s' r' where run: "consumer_handle c client w fresh arrival body s = (Inr (), s')"
    and s': "select_by t_id i (tickets (committed s')) = [r']" "t_status r' = SETTLED"
      "t_provider_recommendation r' = Some (rp_action p)" "t_settled_at r' = Some (clock w 1)"
      "outbox_events (committed s') = outbox_events (committed s) @
        [outbound_event c (uuid4 w 1) (db_clock w 1) i (ack_message c w i (rp_action p))]"
    using consumer_settles_recommendation [OF m ty p new holds_ok [OF h] q r st reason answers ev, of fresh arrival] i
    by auto
  have "sound c (committed s')"
    using consumer_reaches [OF quiet_relies [OF q] reaches_self, of c s client fresh arrival body] h
    by (simp add: holds_def run reaches_def)
  with run s' show ?thesis by (auto simp: holds_def)
qed

lemma ack_message_reads:
  "m_type (ack_message c w i a) = (if a = ACCEPT then CONFIRM_RECOMMENDATION else DECLINE_RECOMMENDATION)"
  "m_ticket_id (ack_message c w i a) = Some i"
  by (simp_all add: ack_message_def message_build_def)

lemma mock_sends:
  assumes "\<not> roll < provider_mock_transport_error_rate st"
    and "\<not> roll < provider_mock_transport_error_rate st + provider_mock_ack_error_rate st"
  shows "mock_send st roll code m p = (Inr \<lparr>ack_of = m_message_id m, ack_status = ACK_OK,
    ack_error_code = None, ack_error_detail = None\<rparr>, schedule_response m p)"
  using assms by (simp add: mock_send_def)

section \<open>From the request to the answer\<close>

text \<open>
  The frames a queue hands out are those given to the broker: a body on its way.
\<close>

definition on_the_way :: "dict \<Rightarrow> sess \<Rightarrow> bool" where
  "on_the_way body s \<longleftrightarrow> body \<in> f_body ` set (published s)"

text \<open>
  C2: an accepted ticket is answered. From any reachable state, a valid request, one batch
  of the producer, the delivery of the frame to the provider, the provider's recommendation,
  its delivery to the consumer, one more batch and the delivery of that frame leave the
  ticket \<open>CONFIRMED\<close> if the provider accepts it and \<open>DECLINED\<close> if it does not, with the
  recommendation and the times of settlement and confirmation recorded; provided nothing
  fails, the batches have room for what is pending, and the identifiers drawn are new.
\<close>

theorem accepted_ticket_is_answered:
  fixes w :: "nat \<Rightarrow> ambient"
  assumes c: "codec_ok c" and run: "runs c empty_db (committed s)" and quiet: "\<And>k. quiet (w k)"
    and request: "require_api_key st key = Inr ()" "ticket_create_request_validate c payload = Some r"
      "length idem \<le> 128" "idem \<notin> t_idempotency_key ` set (tickets (committed s))"
    and ids: "uuid4 (w 1) 0 \<notin> t_id ` set (tickets (committed s))" "uuid4 (w 1) 2 \<notin> event_ids (committed s)"
      "uuid4 (w 4) 1 \<notin> insert (uuid4 (w 1) 2) (event_ids (committed s))" "fresh \<notin> claimed_ids (committed s)"
    and room: "length (pending_events (committed s)) < n"
    and answers: "\<not> rolls (w 4) 0 < error_rate client"
    and sends: "\<not> roll < provider_mock_transport_error_rate st"
      "\<not> roll < provider_mock_transport_error_rate st + provider_mock_ack_error_rate st"
    and send: "send = (\<lambda>m. fst (mock_send st roll code m p))"
  shows "\<exists>body m reply answer t.
    let s1 = perform c (w 1) (Post st key (Some idem) payload) s;
        s2 = perform c (w 2) (Produce n (\<lambda>_. False) open_broker) s1;
        s3 = perform c (w 3) (Transmit send f a body) s2;
        s4 = perform c (w 4) (Consume client f a (message_dump c reply)) s3;
        s5 = perform c (w 5) (Produce n (\<lambda>_. False) open_broker) s4;
        s6 = perform c (w 6) (Transmit send f a answer) s5
    in on_the_way body s2 \<and> message_validate c f a body = Some m \<and>
       mock_wake c st draw now fresh stamp (length (mp_tasks p)) (snd (mock_send st roll code m p)) =
         p\<lparr>mp_inbound := mp_inbound p @ [Some reply]\<rparr> \<and>
       on_the_way answer s5 \<and>
       select_by t_id (uuid4 (w 1) 0) (tickets (committed s6)) = [t] \<and>
       t_status t = (if draw < provider_mock_accept_probability st then CONFIRMED else DECLINED) \<and>
       t_provider_recommendation t =
         Some (if draw < provider_mock_accept_probability st then ACCEPT else DECLINE) \<and>
       t_settled_at t \<noteq> None \<and> t_confirmed_at t \<noteq> None"
proof -
  let ?i = "uuid4 (w 1) 0" and ?reply = "recommendation_message c st draw now fresh stamp (uuid4 (w 1) 0)"
  let ?act = "if draw < provider_mock_accept_probability st then ACCEPT else DECLINE"
  let ?ack = "ack_message c (w 4) ?i ?act"
  let ?s1 = "perform c (w 1) (Post st key (Some idem) payload) s"
  let ?s2 = "perform c (w 2) (Produce n (\<lambda>_. False) open_broker) ?s1"
  have roundtrip: "message_validate c f a (message_dump c m) = Some m" for m f a
    by (rule codec_reads(1) [OF c])
  have calm: "others (w k) j = id" for k j using quiet by (simp add: quiet_def)
  have d: "sound c (committed s)" using runs_reaches [OF run sound_empty] by (simp add: reaches_def)
  obtain t1 e m where t1: "holds c ?i t1 ?s1" "t_status t1 = NEW"
    and e: "outbox_events (committed ?s1) = outbox_events (committed s) @ [e]" "e_id e = uuid4 (w 1) 2"
      "e_status e = PENDING" "e_payload e = message_dump c m"
    and m: "m_type m = TICKET" "m_ticket_id m = Some ?i" and inbox1: "processed (committed ?s1) = processed (committed s)"
    using step_post [OF c d request(1-3) quiet request(4) ids(1,2)] by fastforce
  have "pending_events (committed ?s1) = pending_events (committed s) @ [e]"
    by (simp add: pending_events_def e(1,3) del: perform.simps)
  with room have "e \<in> set (pending_events (committed ?s1))" "length (pending_events (committed ?s1)) \<le> n" by auto
  from step_produce [OF t1(1) this, of "clock (w 2) 0" "db_clock (w 2) 0"]
  have s2: "holds c ?i t1 ?s2" "event_frame e \<in> set (published ?s2)" "pending_events (committed ?s2) = []"
    "event_ids (committed ?s2) = event_ids (committed ?s1)" "processed (committed ?s2) = processed (committed ?s1)"
    by (auto simp: calm)
  let ?body = "message_dump c m"
  have way1: "on_the_way ?body ?s2" using s2(2) e(4) by (force simp: on_the_way_def event_frame_def)
  note ok = mock_sends [OF sends]
  have sent: "send m' = Inr \<lparr>ack_of = m_message_id m', ack_status = ACK_OK,
      ack_error_code = None, ack_error_detail = None\<rparr>" for m' by (simp add: send ok)
  let ?s3 = "perform c (w 3) (Transmit send f a ?body) ?s2"
  have s3: "holds c ?i (moved_ticket (w 3) SENT_TO_PROVIDER t1) ?s3"
    "outbox_events (committed ?s3) = outbox_events (committed ?s2)"
    "processed (committed ?s3) = processed (committed ?s2)"
    using step_transmit [where target = SENT_TO_PROVIDER and w = "w 3" and fresh = f and arrival = a and send = send,
        OF s2(1) roundtrip sent m(2)] m(1) t1(2)
    by (simp_all add: success_target_def moves_def del: perform.simps)
  have wake: "mock_wake c st draw now fresh stamp (length (mp_tasks p)) (snd (mock_send st roll code m p)) =
      p\<lparr>mp_inbound := mp_inbound p @ [Some ?reply]\<rparr>"
    by (cases p) (simp add: ok mock_wake_def schedule_response_def m push_recommendation_def
        deliver_message_from_provider_def)
  let ?s4 = "perform c (w 4) (Consume client f a (message_dump c ?reply)) ?s3"
  have reads: "body_message c (message_dump c ?reply) ?reply" by (simp add: body_message_def roundtrip)
  have reply: "m_type ?reply = RECOMMENDATION" "m_message_id ?reply = fresh"
    by (simp_all add: recommendation_message_def message_build_def del: payload_dump.simps)
  have new: "m_message_id ?reply \<notin> claimed_ids (committed ?s3)"
    using ids(4) by (simp only: reply claimed_ids_def s3(3) s2(5) inbox1 not_False_eq_True)
  have "event_ids (committed ?s3) = insert (uuid4 (w 1) 2) (event_ids (committed s))"
    by (simp only: s3(2) s2(4)) (simp add: e(1,2) del: perform.simps)
  then have ev: "uuid4 (w 4) 1 \<notin> event_ids (committed ?s3)" using ids(3) by simp
  have "\<not> terminal (t_status (moved_ticket (w 3) SENT_TO_PROVIDER t1))" by (simp add: moved_ticket_def)
  then obtain t4 where t4: "holds c ?i t4 ?s4" "t_status t4 = SETTLED" "t_provider_recommendation t4 = Some ?act"
      "t_settled_at t4 \<noteq> None"
    and out4: "outbox_events (committed ?s4) = outbox_events (committed ?s3) @
      [outbound_event c (uuid4 (w 4) 1) (db_clock (w 4) 1) ?i ?ack]"
    using step_consume [OF s3(1) reads reply(1) recommendation_message_reads(2) [OF c] _ new quiet _ _ answers ev,
        of f a] by (fastforce simp: varchar_fits_def)
  let ?e = "outbound_event c (uuid4 (w 4) 1) (db_clock (w 4) 1) ?i ?ack"
  have pend: "e_status ?e = PENDING" "e_payload ?e = message_dump c ?ack" by (simp_all add: new_outbox_event_def)
  have "pending_events (committed ?s4) = [?e]"
    using s2(3) pend(1) by (simp add: pending_events_def out4 s3(2) del: perform.simps)
  with room have wait: "?e \<in> set (pending_events (committed ?s4))" "length (pending_events (committed ?s4)) \<le> n"
    by auto
  let ?s5 = "perform c (w 5) (Produce n (\<lambda>_. False) open_broker) ?s4"
  have s5: "holds c ?i t4 ?s5" "event_frame ?e \<in> set (published ?s5)"
    using step_produce [OF t4(1) wait, of "clock (w 5) 0" "db_clock (w 5) 0"] by (auto simp: calm)
  let ?answer = "message_dump c ?ack" and ?target = "if draw < provider_mock_accept_probability st then CONFIRMED else DECLINED"
  have way2: "on_the_way ?answer ?s5" using s5(2) pend(2) by (force simp: on_the_way_def event_frame_def)
  let ?s6 = "perform c (w 6) (Transmit send f a ?answer) ?s5"
  have "success_target (m_type ?ack) = Some ?target" "moves ?target (t_status t4)"
    using t4(2) by (simp_all add: ack_message_reads success_target_def moves_def)
  then have "holds c ?i (moved_ticket (w 6) ?target t4) ?s6"
    by (rule step_transmit(1) [where send = send, OF s5(1) roundtrip sent ack_message_reads(2)])
  then have "select_by t_id ?i (tickets (committed ?s6)) = [moved_ticket (w 6) ?target t4]" by (simp only: holds_def)
  with way1 way2 wake t4 show ?thesis
    unfolding Let_def
    by (intro exI [of _ ?body] exI [of _ m] exI [of _ ?reply] exI [of _ ?answer] exI [of _ "moved_ticket (w 6) ?target t4"])
      (simp add: roundtrip moved_ticket_def split: option.split del: perform.simps)
qed

section \<open>From the timeout to the cancellation\<close>

text \<open>A cancellation request is acknowledged without effect on the ticket.\<close>

lemma step_transmit_request:
  assumes m: "message_validate c fresh arrival body = Some m" and sent: "send m = Inr a"
    and ty: "m_type m = REQUEST_CANCELLATION"
  shows "perform c w (Transmit send fresh arrival body) s = s"
  by (cases "m_ticket_id m") (simp_all add: send_to_provider_ok [where send = send, OF m sent]
      handle_message_success_ack_def ty success_target_def py_return_def)

text \<open>The consumer: the provider has applied the cancellation.\<close>

lemma step_cancelled:
  assumes h: "holds c i r s" and m: "body_message c body m" and ty: "m_type m = CANCELLATION_APPLIED"
    and p: "cancellation_applied_payload_validate c (m_payload m) = Some \<lparr>ca_ticket_id = i\<rparr>"
    and new: "m_message_id m \<notin> claimed_ids (committed s)" and st: "t_status r \<noteq> CANCELLED"
  shows "\<exists>r'. select_by t_id i (tickets (committed (perform c w (Consume client fresh arrival body) s))) = [r'] \<and>
    t_status r' = CANCELLED \<and> t_cancelled_at r' \<noteq> None"
proof -
  have r: "select_by t_id i (tickets (committed s)) = [r]" using h by (simp add: holds_def)
  let ?f = "\<lambda>q. stamped (db_clock w 0) q (cancel_applied_ticket w q)"
  obtain s' where s': "consumer_handle c client w fresh arrival body s = (Inr (), s')"
    "committed s' = cancel_applied_db w i (with_claim w m (committed s))"
    using handle_cancellation [OF m ty p new holds_ok [OF h] _ st, of client w fresh arrival] r by auto
  have "select_by t_id i (tickets (committed s')) = [?f r]"
    using select_rewritten [of i "with_claim w m (committed s)" r ?f] r by (simp add: s' cancel_applied_db_def)
  then show ?thesis
    by (intro exI [of _ "?f r"]) (simp add: s'(1) cancel_applied_ticket_def split: option.split)
qed

lemma cancellation_applied_message_reads:
  assumes "codec_ok c"
  shows "body_message c (message_dump c (cancellation_applied_message c fresh stamp i))
      (cancellation_applied_message c fresh stamp i)"
    and "cancellation_applied_payload_validate c (m_payload (cancellation_applied_message c fresh stamp i)) =
      Some \<lparr>ca_ticket_id = i\<rparr>"
    and "m_type (cancellation_applied_message c fresh stamp i) = CANCELLATION_APPLIED"
    and "m_message_id (cancellation_applied_message c fresh stamp i) = fresh"
  using codec_reads(1) [OF assms]
    codec_reads(6) [OF assms, of "\<lparr>ca_ticket_id = i\<rparr>"]
  by (simp_all add: body_message_def cancellation_applied_message_def message_build_def)

text \<open>
  C14: a stuck ticket is cancelled. From any reachable state, a pass of the reconciler, one
  batch of the producer, the delivery of the ticket's cancellation request to the provider
  and the delivery of its answer to the consumer leave every ticket the pass selected
  \<open>CANCELLED\<close>, with the time of cancellation recorded; provided nothing fails, the batch has
  room for what is pending, and the identifiers drawn are new.
\<close>

theorem stuck_ticket_is_cancelled:
  fixes w :: "nat \<Rightarrow> ambient"
  assumes c: "codec_ok c" and run: "runs c empty_db (committed s)" and quiet: "\<And>k. quiet (w k)"
    and rs: "rs = stuck_rows (clock (w 1) 0 - timedelta_seconds (rc_stuck_after_sec rc)) (rc_batch_size rc)
                    locked (committed s)"
    and r: "r \<in> set rs"
    and ids: "fresh_ids (later 1 (w 1)) (length rs) (event_ids (committed s))" "fresh \<notin> claimed_ids (committed s)"
    and room: "length (pending_events (committed s)) + length rs \<le> n"
    and sends: "\<not> roll < provider_mock_transport_error_rate st"
      "\<not> roll < provider_mock_transport_error_rate st + provider_mock_ack_error_rate st"
    and send: "send = (\<lambda>m. fst (mock_send st roll code m p))"
  shows "\<exists>body m reply t.
    let s1 = perform c (w 1) (Reconcile client rc locked) s;
        s2 = perform c (w 2) (Produce n (\<lambda>_. False) open_broker) s1;
        s3 = perform c (w 3) (Transmit send f a body) s2;
        s4 = perform c (w 4) (Consume client f a (message_dump c reply)) s3
    in on_the_way body s2 \<and> message_validate c f a body = Some m \<and> m_ticket_id m = Some (t_id r) \<and>
       mock_wake c st draw now fresh stamp (length (mp_tasks p)) (snd (mock_send st roll code m p)) =
         p\<lparr>mp_inbound := mp_inbound p @ [Some reply]\<rparr> \<and>
       select_by t_id (t_id r) (tickets (committed s4)) = [t] \<and>
       t_status t = CANCELLED \<and> t_cancelled_at t \<noteq> None"
proof -
  let ?i = "t_id r" and ?reply = "cancellation_applied_message c fresh stamp (t_id r)"
  let ?s1 = "perform c (w 1) (Reconcile client rc locked) s"
  let ?s2 = "perform c (w 2) (Produce n (\<lambda>_. False) open_broker) ?s1"
  have roundtrip: "message_validate c f a (message_dump c m) = Some m" for m f a
    by (rule codec_reads(1) [OF c])
  have calm: "others (w k) j = id" for k j using quiet by (simp add: quiet_def)
  have d: "sound c (committed s)" using runs_reaches [OF run sound_empty] by (simp add: reaches_def)
  then have ok: "db_ok (committed s)" by (simp add: sound_def)
  obtain es r1 where r1: "select_by t_id ?i (tickets (committed ?s1)) = [r1]" "t_status r1 = CANCELLATION_REQUESTED"
    and es: "outbox_events (committed ?s1) = outbox_events (committed s) @ es" "map e_entity_id es = map t_id rs"
      "\<forall>e \<in> set es. cancel_request c e" and inbox1: "processed (committed ?s1) = processed (committed s)"
    using pass_effect [OF ok quiet rs ids(1), of c client] r by fastforce
  have "sound c (committed ?s1)"
    using reconciler_reaches [OF quiet_relies [OF quiet [of 1]] reaches_self [OF d], of client rc locked]
    by (simp add: reaches_def)
  then have h1: "holds c ?i r1 ?s1" using r1 by (simp add: holds_def)
  have "?i \<in> e_entity_id ` set es" using es(2) r by (metis image_eqI image_set)
  then obtain e where e: "e \<in> set es" "e_entity_id e = ?i" by auto
  then obtain m where m: "e_payload e = message_dump c m" "m_type m = REQUEST_CANCELLATION" "m_ticket_id m = Some ?i"
    using es(3) by (auto simp: cancel_request_def)
  have "filter (\<lambda>e. e_status e = PENDING) es = es" using es(3) by (auto simp: cancel_request_def)
  then have "pending_events (committed ?s1) = pending_events (committed s) @ es"
    by (simp add: pending_events_def es(1) del: perform.simps)
  moreover have "length es = length rs" using es(2) by (metis length_map)
  ultimately have "e \<in> set (pending_events (committed ?s1))" "length (pending_events (committed ?s1)) \<le> n"
    using e(1) room by simp_all
  from step_produce [OF h1 this, of "clock (w 2) 0" "db_clock (w 2) 0"]
  have s2: "holds c ?i r1 ?s2" "event_frame e \<in> set (published ?s2)" "processed (committed ?s2) = processed (committed ?s1)"
    by (auto simp: calm)
  let ?body = "message_dump c m"
  have way: "on_the_way ?body ?s2" using s2(2) m(1) by (force simp: on_the_way_def event_frame_def)
  note accepts = mock_sends [OF sends]
  have sent: "send m' = Inr \<lparr>ack_of = m_message_id m', ack_status = ACK_OK,
      ack_error_code = None, ack_error_detail = None\<rparr>" for m' by (simp add: send accepts)
  let ?s3 = "perform c (w 3) (Transmit send f a ?body) ?s2"
  have s3: "?s3 = ?s2" by (rule step_transmit_request [where send = send, OF roundtrip sent m(2)])
  have wake: "mock_wake c st draw now fresh stamp (length (mp_tasks p)) (snd (mock_send st roll code m p)) =
      p\<lparr>mp_inbound := mp_inbound p @ [Some ?reply]\<rparr>"
    by (cases p) (simp add: accepts mock_wake_def schedule_response_def m push_cancellation_applied_def
        deliver_message_from_provider_def)
  note reads = cancellation_applied_message_reads [OF c]
  have "m_message_id ?reply \<notin> claimed_ids (committed ?s2)"
    using ids(2) by (simp only: reads claimed_ids_def s2(3) inbox1 not_False_eq_True)
  then obtain t where t: "select_by t_id ?i (tickets (committed
        (perform c (w 4) (Consume client f a (message_dump c ?reply)) ?s2))) = [t]"
      "t_status t = CANCELLED" "t_cancelled_at t \<noteq> None"
    using step_cancelled [OF s2(1) reads(1) reads(3) reads(2), of fresh stamp "w 4" client f a] r1(2) by auto
  with way wake m show ?thesis
    unfolding Let_def
    by (intro exI [of _ ?body] exI [of _ m] exI [of _ ?reply] exI [of _ t])
      (simp add: roundtrip s3 del: perform.simps)
qed

section \<open>A frame that is delivered again\<close>

text \<open>
  The outbox delivers at least once: a producer that dies between sending and committing
  sends the frame again. What has been sent to the provider has left \<open>NEW\<close>.
\<close>

lemma sent_not_new:
  assumes d: "sound c (committed s)" and m: "message_validate c f a body = Some m" and sent: "send m = Inr ack"
    and ty: "m_type m = TICKET" "m_ticket_id m = Some i" and t: "t \<in> set (tickets (committed (perform c w (Transmit send f a body) s)))"
    and i: "t_id t = i"
  shows "t_status t \<noteq> NEW"
proof -
  let ?s1 = "perform c w (Transmit send f a body) s"
  have ok: "db_ok (committed s)" using d by (simp add: sound_def)
  have target: "success_target (m_type m) = Some SENT_TO_PROVIDER" by (simp add: ty(1) success_target_def)
  show ?thesis
  proof (cases "\<exists>r. select_by t_id i (tickets (committed s)) = [r] \<and> moves SENT_TO_PROVIDER (t_status r)")
    case True
    then obtain r where r: "holds c i r s" "moves SENT_TO_PROVIDER (t_status r)" using d by (auto simp: holds_def)
    have "select_by t_id i (tickets (committed ?s1)) = [moved_ticket w SENT_TO_PROVIDER r]"
      using step_transmit(1) [where send = send, OF r(1) m sent ty(2) target r(2)] by (simp add: holds_def)
    moreover have "t \<in> set (select_by t_id i (tickets (committed ?s1)))" using t i by (simp add: select_by_def)
    ultimately show ?thesis by (simp add: moved_ticket_def)
  next
    case False
    have uniq: "unique_by t_id (tickets (committed s))" using ok by (simp add: db_ok_def)
    have no: "\<not> moves SENT_TO_PROVIDER (t_status r)" if "r \<in> set (tickets (committed s))" "t_id r = i" for r
      using False select_by_unique [OF uniq that(1)] that(2) by auto
    have "committed ?s1 = committed s"
      using gateway_ack_without_effect [where send = send, OF m sent ok, of w] no target ty(2) by fastforce
    then have "\<not> moves SENT_TO_PROVIDER (t_status t)" using no t i by simp
    then show ?thesis by (auto simp: moves_def)
  qed
qed

text \<open>
  C17: a ticket is sent to the provider as often as the broker delivers it, but counts once.
  After a \<open>TICKET\<close> was acknowledged by the provider, whatever ran since, another delivery of
  its body that the provider acknowledges changes no table and no counter: a ticket that has
  moved on, been cancelled or been decided is not taken back to \<open>SENT_TO_PROVIDER\<close>.
\<close>

theorem ticket_counts_as_sent_once:
  assumes run: "runs c empty_db (committed s)" and m: "\<And>f a. message_validate c f a body = Some m"
    and ty: "m_type m = TICKET" and i: "m_ticket_id m = Some i" and known: "i \<in> t_id ` set (tickets (committed s))"
    and sent: "send m = Inr ack" and first: "send_to_provider c send w f a body s = (Inr (), s1)"
    and later: "runs c (committed s1) (committed s2)" and again: "send' m = Inr ack'"
  shows "\<exists>s3. send_to_provider c send' w' f' a' body s2 = (Inr (), s3) \<and>
    committed s3 = committed s2 \<and> counters s3 = counters s2 \<and> published s3 = published s2"
proof -
  have d: "sound c (committed s)" by (rule reachable_sound [OF run])
  have ev0: "reaches c (committed s) (committed s1)"
    using gateway_reaches [OF reaches_self [OF d], of send w f a body] by (simp add: first)
  then have ev: "reaches c (committed s1) (committed s2)" using runs_reaches [OF later] by (simp add: reaches_def)
  have old: "t_status t \<noteq> NEW" if "t \<in> set (tickets (committed s1))" "t_id t = i" for t
    using sent_not_new [where send = send, OF d m sent ty i, of t w f a] that by (simp add: first)
  have known1: "i \<in> t_id ` set (tickets (committed s1))"
    using known ev0 db_evolves_ids [of "committed s" "committed s1"] by (auto simp: reaches_def)
  have still: "\<not> moves SENT_TO_PROVIDER (t_status r)" if r: "r \<in> set (tickets (committed s2))" "t_id r = i" for r
  proof -
    obtain t where t: "t \<in> set (tickets (committed s1))" "t_id t = i" using known1 by auto
    obtain r' where r': "r' \<in> set (tickets (committed s2))" "ticket_evolves t r'"
      using db_evolvesD(1) [OF _ t(1), of "committed s2"] ev by (auto simp: reaches_def)
    have "unique_by t_id (tickets (committed s2))" using ev by (simp add: reaches_def sound_def db_ok_def)
    then have "r' = r" using r'(1) r(1) by (rule same_row) (simp add: ticket_evolves_id [OF r'(2)] t r)
    with r'(2) have "stage (t_status t) \<le> stage (t_status r)" by (simp add: ticket_evolves_def)
    with old [OF t] stage_new have "t_status r \<noteq> NEW" by blast
    then show ?thesis by (simp add: moves_def)
  qed
  have "db_ok (committed s2)" using ev by (simp add: reaches_def sound_def)
  then show ?thesis
    using gateway_ack_without_effect [where send = send', OF m again, of s2 w'] still i ty
    by (auto simp: success_target_def)
qed

text \<open>The sample ticket is sent, cancelled by the provider, and its frame delivered again.\<close>

definition sample_frame_body :: dict where
  "sample_frame_body = message_dump ref_codec (sample_ticket_message\<lparr>m_ticket_id := Some 100\<rparr>)"

definition sample_accepts :: "message \<Rightarrow> exn + ack_payload" where
  "sample_accepts m = Inr \<lparr>ack_of = m_message_id m, ack_status = ACK_OK, ack_error_code = None, ack_error_detail = None\<rparr>"

theorem ticket_counts_as_sent_once_witness:
  "\<exists>s1 s3. send_to_provider ref_codec sample_accepts (sample_ambient 0 id) 0 0 sample_frame_body
      (session_on sample_stored) = (Inr (), s1) \<and>
    (let s2 = perform ref_codec (sample_ambient 0 id)
        (Consume sample_client 0 0 (sample_cancelled CANCELLATION_APPLIED)) (session_on (committed s1))
     in send_to_provider ref_codec sample_accepts (sample_ambient 0 id) 5 5 sample_frame_body s2 = (Inr (), s3) \<and>
        committed s3 = committed s2)"
proof -
  let ?m = "sample_ticket_message\<lparr>m_ticket_id := Some 100\<rparr>"
  have m: "message_validate ref_codec f a sample_frame_body = Some ?m" for f a
    unfolding sample_frame_body_def by (rule codec_reads(1) [OF ref_codec_ok])
  have ty: "m_type ?m = TICKET" "m_ticket_id ?m = Some 100" by (simp_all add: sample_ticket_message_def)
  have run: "runs ref_codec empty_db (committed (session_on sample_stored))" by (simp add: sample_stored_runs)
  have known: "100 \<in> t_id ` set (tickets (committed (session_on sample_stored)))" using sample_stored_rows by auto
  obtain s1 where s1: "send_to_provider ref_codec sample_accepts (sample_ambient 0 id) 0 0 sample_frame_body
      (session_on sample_stored) = (Inr (), s1)"
  proof -
    have "\<exists>s'. move_ticket (sample_ambient 0 id) 100 SENT_TO_PROVIDER (session_on sample_stored) = (Inr (Some NEW), s')"
      using move_ticket_effect [of "session_on sample_stored" 100 _ SENT_TO_PROVIDER "sample_ambient 0 id"]
        sample_stored_rows reachable_sound [OF sample_stored_runs] by (force simp: select_by_def moves_def sound_def)
    then have "\<exists>s1. send_to_provider ref_codec sample_accepts (sample_ambient 0 id) 0 0 sample_frame_body
        (session_on sample_stored) = (Inr (), s1)"
      by (auto simp: send_to_provider_ok [where send = sample_accepts, OF m sample_accepts_def]
          handle_message_success_ack_def ty success_target_def py_bind_def inc_def py_modify_def)
    then show ?thesis using that by blast
  qed
  have later: "runs ref_codec (committed s1) (committed (perform ref_codec (sample_ambient 0 id)
      (Consume sample_client 0 0 (sample_cancelled CANCELLATION_APPLIED)) (session_on (committed s1))))"
    by (rule sample_runs)
  from ticket_counts_as_sent_once [where send = sample_accepts and send' = sample_accepts,
      OF run m ty known sample_accepts_def s1 later sample_accepts_def, of "sample_ambient 0 id" 5 5] s1
  show ?thesis by (auto simp: Let_def)
qed

section \<open>Two sample journeys\<close>

text \<open>The provider accepts the ticket of the sample request.\<close>

theorem accepted_ticket_is_answered_witness:
  "\<exists>body reply answer t.
    let w = sample_ambient (1 / 2) id;
        send = (\<lambda>m. fst (mock_send sample_settings (1 / 2) PROVIDER_BUSY m mock_provider_new));
        s1 = perform ref_codec w (Post sample_settings (Some ''secret-key'') (Some ''k1'') sample_payload) (session_on empty_db);
        s2 = perform ref_codec w (Produce 50 (\<lambda>_. False) open_broker) s1;
        s3 = perform ref_codec w (Transmit send 0 0 body) s2;
        s4 = perform ref_codec w (Consume sample_client 0 0 (message_dump ref_codec reply)) s3;
        s5 = perform ref_codec w (Produce 50 (\<lambda>_. False) open_broker) s4;
        s6 = perform ref_codec w (Transmit send 0 0 answer) s5
    in on_the_way body s2 \<and> on_the_way answer s5 \<and>
       select_by t_id 100 (tickets (committed s6)) = [t] \<and> t_status t = CONFIRMED"
proof -
  have rates: "provider_mock_transport_error_rate sample_settings = 5 / 100"
    "provider_mock_ack_error_rate sample_settings = 5 / 100" "provider_mock_accept_probability sample_settings = 7 / 10"
    by (simp_all add: sample_settings_def default_settings_def)
  have k: "require_api_key sample_settings (Some ''secret-key'') = Inr ()"
    using right_key [of sample_settings] by simp
  have run: "runs ref_codec empty_db (committed (session_on empty_db))" by (simp add: idle)
  show ?thesis
    using accepted_ticket_is_answered [where w = "\<lambda>_. sample_ambient (1 / 2) id" and n = 50 and roll = "1 / 2"
        and draw = 0 and f = 0 and a = 0 and fresh = 900 and p = mock_provider_new and code = PROVIDER_BUSY
        and now = 0 and stamp = 0 and client = sample_client and idem = "''k1''",
        OF ref_codec_ok run _ k sample_payload_valid _ _ _ _ _ _ _ _ _ _ refl]
    by (simp add: rates claimed_ids_def pending_events_def Let_def del: perform.simps) blast
qed

text \<open>A minute and more after the sample request nobody has sent its ticket.\<close>

theorem stuck_ticket_is_cancelled_witness:
  "\<exists>body reply t.
    let w = (sample_ambient (1 / 2) id)\<lparr>clock := \<lambda>n. 100000000, uuid4 := \<lambda>n. 500\<rparr>;
        send = (\<lambda>m. fst (mock_send sample_settings (1 / 2) PROVIDER_BUSY m mock_provider_new));
        s1 = perform ref_codec w (Reconcile sample_client (reconciler_worker (default_settings ''k'')) (\<lambda>_. False))
               (session_on sample_stored);
        s2 = perform ref_codec w (Produce 50 (\<lambda>_. False) open_broker) s1;
        s3 = perform ref_codec w (Transmit send 0 0 body) s2;
        s4 = perform ref_codec w (Consume sample_client 0 0 (message_dump ref_codec reply)) s3
    in on_the_way body s2 \<and> select_by t_id 100 (tickets (committed s4)) = [t] \<and> t_status t = CANCELLED"
proof -
  let ?w = "(sample_ambient (1 / 2) id)\<lparr>clock := \<lambda>n. 100000000, uuid4 := \<lambda>n. 500\<rparr>"
  let ?rc = "reconciler_worker (default_settings ''k'')"
  have rates: "provider_mock_transport_error_rate sample_settings = 5 / 100"
    "provider_mock_ack_error_rate sample_settings = 5 / 100"
    by (simp_all add: sample_settings_def default_settings_def)
  have rc: "rc_stuck_after_sec ?rc = 60" "rc_batch_size ?rc = 100" by (simp_all add: reconciler_worker_def)
  obtain t e where t: "tickets sample_stored = [t]" "t_id t = 100" "t_status t = NEW" "t_updated_at t = 2000"
    and e: "outbox_events sample_stored = [e]" "e_id e = 102" and "processed sample_stored = []"
    using sample_stored_rows by blast
  have rs: "[t] = stuck_rows (clock ?w 0 - timedelta_seconds (rc_stuck_after_sec ?rc)) (rc_batch_size ?rc) (\<lambda>_. False)
        (committed (session_on sample_stored))"
    using t by (simp add: rc stuck_rows_def select_ordered_def timedelta_seconds_def stuck_def)
  have run: "runs ref_codec empty_db (committed (session_on sample_stored))" by (simp add: sample_stored_runs)
  have quiet: "quiet ?w" by (simp add: quiet_def)
  have fresh: "fresh_ids (later 1 ?w) (length [t]) (event_ids (committed (session_on sample_stored)))"
    using e by (simp add: fresh_ids_def later_def)
  have "length (pending_events sample_stored) \<le> 1" by (simp add: pending_events_def e)
  then show ?thesis
    using stuck_ticket_is_cancelled [where w = "\<lambda>_. ?w" and st = sample_settings and n = 50 and roll = "1 / 2" and rs = "[t]" and r = t
        and f = 0 and a = 0 and fresh = 900 and p = mock_provider_new and code = PROVIDER_BUSY and draw = 0
        and now = 0 and stamp = 0 and client = sample_client, OF ref_codec_ok run quiet rs _ fresh _ _ _ _ refl]
      \<open>processed sample_stored = []\<close> t(2)
    by (simp add: rates claimed_ids_def Let_def del: perform.simps) blast
qed

end
