(* ===== verification/Producers.thy ===== *)
theory Producers
  imports Outbox_Properties
begin

text \<open>
  Several outbox producers at work on one table, with the row locks \<^verbatim>\<open>fetch_pending\<close> takes. The
  batch of \<^verbatim>\<open>OutboxService.send_batch\<close> is cut into the steps between which other processes can
  run: the query, each publication, the commit, and the loss of the transaction. The theory
  shows that the steps of one producer amount to \<open>send_batch\<close>, that no two producers ever hold
  the same entry, and how often an entry can be given to the broker.
\<close>

section \<open>State and steps\<close>

text \<open>
  A running batch: the entries fetched, those still to be published, the identifiers
  published and the failures with their text.
\<close>

record running =
  rb_batch :: "outbox_event list"
  rb_todo :: "outbox_event list"
  rb_oks :: "uuid list"
  rb_failed :: "(uuid \<times> string) list"

record producers =
  pd_db :: database
  pd_locks :: "uuid set"
  pd_running :: "nat \<Rightarrow> running option"
  pd_sent :: "(nat \<times> frame) list"

definition producers_start :: "database \<Rightarrow> producers" where
  "producers_start db = \<lparr>pd_db = db, pd_locks = {}, pd_running = (\<lambda>_. None), pd_sent = []\<rparr>"

definition batch_ids :: "running \<Rightarrow> uuid set" where
  "batch_ids b = e_id ` set (rb_batch b)"

text \<open>The marks at the end of a batch, on the tables as they are then.\<close>

definition mark_batch :: "instant \<Rightarrow> instant \<Rightarrow> running \<Rightarrow> database \<Rightarrow> database" where
  "mark_batch now db_now b db =
     view (snd (py_bind (mark_published_many now db_now (rb_oks b))
       (\<lambda>_. mark_failures db_now (rb_failed b)) (session_on db)))"

definition fetched :: "nat \<Rightarrow> outbox_event list \<Rightarrow> producers \<Rightarrow> producers" where
  "fetched p batch st =
     st\<lparr>pd_locks := pd_locks st \<union> e_id ` set batch,
        pd_running := (pd_running st)(p \<mapsto> \<lparr>rb_batch = batch, rb_todo = batch, rb_oks = [], rb_failed = []\<rparr>)\<rparr>"

definition offered :: "nat \<Rightarrow> (frame \<Rightarrow> string + unit) \<Rightarrow> running \<Rightarrow> outbox_event \<Rightarrow> producers \<Rightarrow> producers" where
  "offered p publish b e st =
     (case publish (event_frame e) of
        Inr _ \<Rightarrow>
          st\<lparr>pd_running := (pd_running st)(p \<mapsto> b\<lparr>rb_todo := tl (rb_todo b), rb_oks := rb_oks b @ [e_id e]\<rparr>),
             pd_sent := pd_sent st @ [(p, event_frame e)]\<rparr>
      | Inl text \<Rightarrow>
          st\<lparr>pd_running := (pd_running st)(p \<mapsto>
               b\<lparr>rb_todo := tl (rb_todo b), rb_failed := rb_failed b @ [(e_id e, text)]\<rparr>)\<rparr>)"

definition released :: "nat \<Rightarrow> running \<Rightarrow> producers \<Rightarrow> producers" where
  "released p b st =
     st\<lparr>pd_locks := pd_locks st - batch_ids b, pd_running := (pd_running st)(p := None)\<rparr>"

text \<open>
  \<open>Abort\<close>: the producer dies, or an exception leaves \<^verbatim>\<open>send_batch\<close>; the database drops its
  transaction. \<open>Others\<close>: another process commits; none but the producers changes an entry, the
  others add pending ones.
\<close>

datatype producer_label =
    Fetch nat nat
  | Offer nat "frame \<Rightarrow> string + unit"
  | Finish nat instant instant
  | Abort nat
  | Others "outbox_event list" database

inductive producer_step :: "producers \<Rightarrow> producer_label \<Rightarrow> producers \<Rightarrow> bool" where
  fetch: "pd_running st p = None \<Longrightarrow> batch = batch_of n (\<lambda>i. i \<in> pd_locks st) (pd_db st) \<Longrightarrow> batch \<noteq> [] \<Longrightarrow>
    producer_step st (Fetch p n) (fetched p batch st)"
| offer: "pd_running st p = Some b \<Longrightarrow> rb_todo b = e # es \<Longrightarrow>
    producer_step st (Offer p publish) (offered p publish b e st)"
| finish: "pd_running st p = Some b \<Longrightarrow> rb_todo b = [] \<Longrightarrow>
    producer_step st (Finish p now db_now)
      ((released p b st)\<lparr>pd_db := mark_batch now db_now b (pd_db st)\<rparr>)"
| abort: "pd_running st p = Some b \<Longrightarrow> producer_step st (Abort p) (released p b st)"
| others: "outbox_events db = outbox_events (pd_db st) @ new \<Longrightarrow> unique_by e_id (outbox_events db) \<Longrightarrow>
    list_all (\<lambda>e. e_status e = PENDING) new \<Longrightarrow>
    producer_step st (Others new db) (st\<lparr>pd_db := db\<rparr>)"

code_pred (modes: i \<Rightarrow> i \<Rightarrow> o \<Rightarrow> bool as after_step) producer_step .

inductive_cases fetch_cases: "producer_step st (Fetch p n) st'"
inductive_cases offer_cases: "producer_step st (Offer p publish) st'"
inductive_cases finish_cases: "producer_step st (Finish p now db_now) st'"
inductive_cases abort_cases: "producer_step st (Abort p) st'"
inductive_cases others_cases: "producer_step st (Others new db) st'"

inductive producer_steps :: "producers \<Rightarrow> producer_label list \<Rightarrow> producers \<Rightarrow> bool" where
  stay: "producer_steps st [] st"
| go: "producer_steps st ls st' \<Longrightarrow> producer_step st' l st'' \<Longrightarrow> producer_steps st (ls @ [l]) st''"

section \<open>What a batch writes\<close>

definition batch_row :: "instant \<Rightarrow> instant \<Rightarrow> running \<Rightarrow> outbox_event \<Rightarrow> outbox_event" where
  "batch_row now db_now b e =
     failed_row db_now (rb_failed b) (if e_id e \<in> set (rb_oks b) then mark_published_row now db_now e else e)"

lemma mark_batch_eq:
  assumes "distinct (map fst (rb_failed b))"
  shows "mark_batch now db_now b db = db\<lparr>outbox_events := map (batch_row now db_now b) (outbox_events db)\<rparr>"
proof -
  have none: "update_where (\<lambda>e. False) f r = r" for f and r :: "outbox_event list"
    by (simp add: update_where_def map_idI)
  have "snd (mark_published_many now db_now (rb_oks b) (session_on db)) =
      (session_on db)\<lparr>view := db\<lparr>outbox_events :=
        update_where (\<lambda>e. e_id e \<in> set (rb_oks b)) (mark_published_row now db_now) (outbox_events db)\<rparr>\<rparr>"
    and "fst (mark_published_many now db_now (rb_oks b) (session_on db)) = Inr ()"
    by (cases "rb_oks b = []";
        simp add: mark_published_many_def py_return_def update_outbox_view none session_on_def)+
  then show ?thesis
    by (cases "mark_published_many now db_now (rb_oks b) (session_on db)")
      (simp add: mark_batch_def py_bind_def mark_failures_eq [OF assms] update_where_def batch_row_def comp_def)
qed

lemma batch_row_id [simp]: "e_id (batch_row now db_now b e) = e_id e"
  by (simp add: batch_row_def failed_row_def split: option.split)

lemma batch_row_other:
  "e_id e \<notin> set (rb_oks b) \<Longrightarrow> e_id e \<notin> fst ` set (rb_failed b) \<Longrightarrow> batch_row now db_now b e = e"
  using map_of_eq_None_iff [of "rb_failed b" "e_id e"] by (simp add: batch_row_def failed_row_def)

lemma batch_row_published:
  assumes "set (rb_oks b) \<inter> fst ` set (rb_failed b) = {}" and "e_status e = PENDING"
  shows "e_status (batch_row now db_now b e) = PUBLISHED \<longleftrightarrow> e_id e \<in> set (rb_oks b)"
proof (cases "e_id e \<in> set (rb_oks b)")
  case True
  then have "map_of (rb_failed b) (e_id e) = None" using assms(1) by (auto simp: map_of_eq_None_iff)
  with True show ?thesis by (simp add: batch_row_def failed_row_def mark_published_row_def)
next
  case False
  with assms(2) show ?thesis
    by (simp add: batch_row_def failed_row_def mark_failed_row_def Let_def split: option.split)
qed

section \<open>No entry is held twice\<close>

text \<open>
  A batch divides its entries into those published, failed and still to come; they are
  pending rows of the table, and the rows of two batches are different ones.
\<close>

definition running_ok :: "database \<Rightarrow> running \<Rightarrow> bool" where
  "running_ok db b \<longleftrightarrow>
     set (rb_batch b) \<subseteq> {e \<in> set (outbox_events db). e_status e = PENDING} \<and>
     set (rb_todo b) \<subseteq> set (rb_batch b) \<and>
     distinct (rb_oks b @ map fst (rb_failed b) @ map e_id (rb_todo b)) \<and>
     set (rb_oks b) \<union> fst ` set (rb_failed b) \<union> e_id ` set (rb_todo b) = batch_ids b"

definition producers_ok :: "producers \<Rightarrow> bool" where
  "producers_ok st \<longleftrightarrow>
     unique_by e_id (outbox_events (pd_db st)) \<and>
     (\<forall>p b. pd_running st p = Some b \<longrightarrow> running_ok (pd_db st) b \<and> batch_ids b \<subseteq> pd_locks st) \<and>
     (\<forall>p q b b'. pd_running st p = Some b \<longrightarrow> pd_running st q = Some b' \<longrightarrow> p \<noteq> q \<longrightarrow>
        batch_ids b \<inter> batch_ids b' = {})"

lemma producers_start_ok: "unique_by e_id (outbox_events db) \<Longrightarrow> producers_ok (producers_start db)"
  by (simp add: producers_ok_def producers_start_def)

lemma producers_okD:
  assumes "producers_ok st" and "pd_running st p = Some b"
  shows "running_ok (pd_db st) b" and "batch_ids b \<subseteq> pd_locks st"
    and "\<And>q b'. pd_running st q = Some b' \<Longrightarrow> q \<noteq> p \<Longrightarrow> batch_ids b \<inter> batch_ids b' = {}"
  using assms unfolding producers_ok_def by blast+

lemma running_fetched:
  assumes "unique_by e_id (outbox_events db)" and "batch = batch_of n locked db"
  shows "running_ok db \<lparr>rb_batch = batch, rb_todo = batch, rb_oks = [], rb_failed = []\<rparr>"
  using batch_of_set [of n locked db] batch_of_distinct [OF assms(1), of n locked]
  by (auto simp: running_ok_def batch_ids_def pending_def assms(2))

lemma running_offered:
  assumes "running_ok db b" and "rb_todo b = e # es"
  shows "running_ok db (b\<lparr>rb_todo := es, rb_oks := rb_oks b @ [e_id e]\<rparr>)"
    and "running_ok db (b\<lparr>rb_todo := es, rb_failed := rb_failed b @ [(e_id e, text)]\<rparr>)"
  using assms by (auto simp: running_ok_def batch_ids_def)

lemma running_grows:
  "running_ok db b \<Longrightarrow> set (outbox_events db) \<subseteq> set (outbox_events db') \<Longrightarrow> running_ok db' b"
  by (auto simp: running_ok_def)

lemma running_marked:
  assumes "running_ok db b'" and "running_ok db b" and "batch_ids b \<inter> batch_ids b' = {}"
  shows "running_ok (mark_batch now db_now b db) b'"
proof -
  have dist: "distinct (map fst (rb_failed b))" using assms(2) by (simp add: running_ok_def)
  have "batch_row now db_now b e = e" if "e \<in> set (rb_batch b')" for e
  proof -
    have "e_id e \<notin> batch_ids b" using that assms(3) by (auto simp: batch_ids_def)
    then show ?thesis using assms(2) by (intro batch_row_other) (auto simp: running_ok_def)
  qed
  then have "set (rb_batch b') \<subseteq> batch_row now db_now b ` set (rb_batch b')" by (metis image_eqI subsetI)
  moreover have "set (rb_batch b') \<subseteq> set (outbox_events db)" using assms(1) by (auto simp: running_ok_def)
  ultimately have "set (rb_batch b') \<subseteq> set (outbox_events (mark_batch now db_now b db))"
    by (simp add: mark_batch_eq [OF dist]) (blast intro: order_trans image_mono)
  with assms(1) show ?thesis by (auto simp: running_ok_def)
qed

lemma producers_ok_put:
  assumes "producers_ok st" and "running_ok (pd_db st) b" and "batch_ids b \<subseteq> L" and "pd_locks st \<subseteq> L"
    and "\<And>q c. pd_running st q = Some c \<Longrightarrow> q \<noteq> p \<Longrightarrow> batch_ids b \<inter> batch_ids c = {}"
  shows "producers_ok (st\<lparr>pd_locks := L, pd_running := (pd_running st)(p \<mapsto> b), pd_sent := sent\<rparr>)"
proof -
  have "batch_ids c \<inter> batch_ids b = {}" if "pd_running st q = Some c" "q \<noteq> p" for q c
    using assms(5) [OF that] by (simp add: Int_commute)
  moreover have "batch_ids c \<subseteq> L" if "pd_running st q = Some c" for q c
    using producers_okD(2) [OF assms(1) that] assms(4) by (rule subset_trans)
  ultimately show ?thesis
    using assms producers_okD(1,3) [OF assms(1)] by (simp add: producers_ok_def)
qed

lemma producers_ok_drop:
  assumes "producers_ok st" and "pd_running st p = Some b"
  shows "producers_ok (released p b st)"
proof -
  have "batch_ids c \<subseteq> pd_locks st - batch_ids b" if "pd_running st q = Some c" "q \<noteq> p" for q c
    using producers_okD(2) [OF assms(1) that(1)] producers_okD(3) [OF assms that] by auto
  then show ?thesis using assms(1) by (auto simp: producers_ok_def released_def)
qed

text \<open>Another set of rows that still has those of the running batches.\<close>

lemma producers_ok_db:
  assumes "producers_ok st" and "unique_by e_id (outbox_events db)"
    and "\<And>q c. pd_running st q = Some c \<Longrightarrow> running_ok db c"
  shows "producers_ok (st\<lparr>pd_db := db\<rparr>)"
  using assms by (simp add: producers_ok_def)

lemma producer_step_ok:
  assumes "producer_step st l st'" and "producers_ok st"
  shows "producers_ok st'"
  using assms
proof cases
  case (fetch p batch n)
  let ?b = "\<lparr>rb_batch = batch, rb_todo = batch, rb_oks = [], rb_failed = []\<rparr>"
  have uniq: "unique_by e_id (outbox_events (pd_db st))" using assms(2) by (simp add: producers_ok_def)
  have free: "batch_ids ?b \<inter> pd_locks st = {}"
    using batch_of_set [of n "\<lambda>i. i \<in> pd_locks st" "pd_db st"]
    by (auto simp: batch_ids_def fetch(4) pending_def)
  have "producers_ok (st\<lparr>pd_locks := pd_locks st \<union> e_id ` set batch, pd_running := (pd_running st)(p \<mapsto> ?b),
      pd_sent := pd_sent st\<rparr>)"
  proof (rule producers_ok_put [OF assms(2) running_fetched [OF uniq fetch(4)]])
    fix q c assume "pd_running st q = Some c" "q \<noteq> p"
    with producers_okD(2) [OF assms(2)] free show "batch_ids ?b \<inter> batch_ids c = {}" by blast
  qed (auto simp: batch_ids_def)
  then show ?thesis by (simp add: fetch(2) fetched_def)
next
  case (offer p b e es publish)
  note b = producers_okD [OF assms(2) offer(3)]
  have put: "producers_ok (st\<lparr>pd_locks := pd_locks st, pd_running := (pd_running st)(p \<mapsto> b'), pd_sent := sent\<rparr>)"
    if "running_ok (pd_db st) b'" "rb_batch b' = rb_batch b" for b' sent
    using producers_ok_put [OF assms(2) that(1), of "pd_locks st" p sent] b(2,3) that(2)
    by (simp add: batch_ids_def)
  show ?thesis
    using put [OF running_offered(1) [OF b(1) offer(4)]]
      put [OF running_offered(2) [OF b(1) offer(4)], of _ "pd_sent st"]
    by (simp add: offer(2,4) offered_def split: sum.split)
next
  case (finish p b now db_now)
  note b = producers_okD [OF assms(2) finish(3)]
  have dist: "distinct (map fst (rb_failed b))" using b(1) by (simp add: running_ok_def)
  show ?thesis
    unfolding finish(2)
  proof (rule producers_ok_db [OF producers_ok_drop [OF assms(2) finish(3)]])
    show "unique_by e_id (outbox_events (mark_batch now db_now b (pd_db st)))"
      using assms(2) by (simp add: producers_ok_def mark_batch_eq [OF dist] unique_by_def comp_def)
    fix q c assume "pd_running (released p b st) q = Some c"
    then have "pd_running st q = Some c" "q \<noteq> p" by (auto simp: released_def split: if_splits)
    then show "running_ok (mark_batch now db_now b (pd_db st)) c"
      using running_marked [OF _ b(1) b(3)] producers_okD(1) [OF assms(2)] by blast
  qed
next
  case (abort p b)
  then show ?thesis using producers_ok_drop [OF assms(2)] by simp
next
  case (others db new)
  have "running_ok db c" if "pd_running st q = Some c" for q c
    using producers_okD(1) [OF assms(2) that] by (rule running_grows) (simp add: others(3))
  then show ?thesis using producers_ok_db [OF assms(2) others(4)] by (simp add: others(2))
qed

lemma producer_steps_ok:
  "producer_steps st ls st' \<Longrightarrow> producers_ok st \<Longrightarrow> producers_ok st'"
  by (induction rule: producer_steps.induct) (simp_all add: producer_step_ok)

text \<open>
  C8: however the producers interleave, crash and are joined by other writers, an entry is in
  the batch of one producer at most, and as long as it is, it is a pending row of the table
  as it was read.
\<close>

theorem producers_never_share:
  assumes "unique_by e_id (outbox_events db)" and "producer_steps (producers_start db) ls st"
    and "pd_running st p = Some b" and "pd_running st q = Some b'" and "p \<noteq> q"
  shows "batch_ids b \<inter> batch_ids b' = {} \<and>
    (\<forall>e \<in> set (rb_batch b). e \<in> set (outbox_events (pd_db st)) \<and> e_status e = PENDING)"
proof -
  have ok: "producers_ok st" using producer_steps_ok [OF assms(2) producers_start_ok] assms(1) by simp
  show ?thesis
    using producers_okD [OF ok assms(3)] assms(4,5) by (auto simp: running_ok_def)
qed

section \<open>How often an entry is sent\<close>

text \<open>The frames of the entry \<open>i\<close> among those given to the broker, and the transactions lost.\<close>

definition sendings :: "uuid \<Rightarrow> producers \<Rightarrow> nat" where
  "sendings i st = length (filter (\<lambda>(p, f). f_message_id f = uuid_str i) (pd_sent st))"

definition published_ids :: "database \<Rightarrow> uuid set" where
  "published_ids db = e_id ` {e \<in> set (outbox_events db). e_status e = PUBLISHED}"

definition aborts :: "producer_label list \<Rightarrow> nat" where
  "aborts ls = length (filter (\<lambda>l. case l of Abort _ \<Rightarrow> True | _ \<Rightarrow> False) ls)"

text \<open>The entries that are published, or will be when the running batches commit.\<close>

definition settled_ids :: "producers \<Rightarrow> uuid set" where
  "settled_ids st = published_ids (pd_db st) \<union> {i. \<exists>p b. pd_running st p = Some b \<and> i \<in> set (rb_oks b)}"

lemma uuid_str_inject: "uuid_str i = uuid_str j \<longleftrightarrow> i = j"
  by (metis uuid_parse_str option.inject)

text \<open>What \<open>p\<close> has published in its batch, and what the others have.\<close>

definition others_oks :: "nat \<Rightarrow> (nat \<Rightarrow> running option) \<Rightarrow> uuid set" where
  "others_oks p run = {i. \<exists>q b. q \<noteq> p \<and> run q = Some b \<and> i \<in> set (rb_oks b)}"

lemma others_oks_upd [simp]: "others_oks p (run(p := x)) = others_oks p run"
  by (auto simp: others_oks_def)

lemma settled_split:
  "settled_ids st = published_ids (pd_db st) \<union>
     (case pd_running st p of None \<Rightarrow> {} | Some b \<Rightarrow> set (rb_oks b)) \<union> others_oks p (pd_running st)"
proof -
  have "(\<exists>q b. pd_running st q = Some b \<and> i \<in> set (rb_oks b)) \<longleftrightarrow>
      (\<exists>b. pd_running st p = Some b \<and> i \<in> set (rb_oks b)) \<or> i \<in> others_oks p (pd_running st)" for i
    unfolding others_oks_def mem_Collect_eq by metis
  then show ?thesis by (auto simp: settled_ids_def split: option.splits)
qed

lemma settled_drop:
  assumes "pd_running st p = Some b"
  shows "settled_ids st \<subseteq> settled_ids (released p b st) \<union> set (rb_oks b)"
    and "settled_ids (released p b st) \<subseteq> settled_ids st"
  using assms by (auto simp: settled_split [of _ p] released_def)

text \<open>An entry that is fetched and not yet published counts as settled nowhere.\<close>

lemma todo_unsettled:
  assumes ok: "producers_ok st" and b: "pd_running st p = Some b" and e: "e \<in> set (rb_todo b)"
  shows "e_id e \<notin> settled_ids st"
proof
  note run = producers_okD [OF ok b]
  have mem: "e \<in> set (outbox_events (pd_db st))" "e_status e = PENDING" "e_id e \<in> batch_ids b"
    "e_id e \<notin> set (rb_oks b)"
    using run(1) e by (auto simp: running_ok_def batch_ids_def)
  have uniq: "unique_by e_id (outbox_events (pd_db st))" using ok by (simp add: producers_ok_def)
  assume "e_id e \<in> settled_ids st"
  then consider e' where "e' \<in> set (outbox_events (pd_db st))" "e_id e' = e_id e" "e_status e' = PUBLISHED"
    | q c where "pd_running st q = Some c" "e_id e \<in> set (rb_oks c)"
    by (auto simp: settled_ids_def published_ids_def)
  then show False
  proof cases
    case 1
    with same_row [OF uniq 1(1) mem(1)] mem(2) show False by simp
  next
    case 2
    then have "q \<noteq> p" using b mem(4) by auto
    moreover have "e_id e \<in> batch_ids c" using producers_okD(1) [OF ok 2(1)] 2(2) by (auto simp: running_ok_def)
    ultimately show False using run(3) [OF 2(1)] mem(3) by auto
  qed
qed

text \<open>
  One step settles at most the entry it gives to the broker, and only a lost transaction
  takes entries out again.
\<close>

lemma published_after_finish:
  assumes ok: "producers_ok st" and b: "pd_running st p = Some b" and all: "rb_todo b = []"
  shows "published_ids (mark_batch now db_now b (pd_db st)) = published_ids (pd_db st) \<union> set (rb_oks b)"
proof -
  note run = producers_okD(1) [OF ok b, unfolded running_ok_def]
  have uniq: "unique_by e_id (outbox_events (pd_db st))" using ok by (simp add: producers_ok_def)
  have dist: "distinct (map fst (rb_failed b))" and apart: "set (rb_oks b) \<inter> fst ` set (rb_failed b) = {}"
    using run by auto
  have row: "e_status (batch_row now db_now b e) = PUBLISHED \<longleftrightarrow> e_status e = PUBLISHED \<or> e_id e \<in> set (rb_oks b)"
    if e: "e \<in> set (outbox_events (pd_db st))" for e
  proof (cases "e_id e \<in> batch_ids b")
    case True
    then obtain e' where "e' \<in> set (rb_batch b)" "e_id e = e_id e'" by (auto simp: batch_ids_def)
    moreover from this have "e' = e" using run same_row [OF uniq _ e, of e'] by auto
    ultimately have "e_status e = PENDING" using run by auto
    then show ?thesis using batch_row_published [OF apart] by simp
  next
    case False
    then have "e_id e \<notin> set (rb_oks b)" "e_id e \<notin> fst ` set (rb_failed b)" using run by auto
    then show ?thesis by (simp add: batch_row_other)
  qed
  have known: "set (rb_oks b) \<subseteq> e_id ` set (outbox_events (pd_db st))"
  proof -
    have "set (rb_oks b) \<subseteq> batch_ids b" using run by auto
    also have "\<dots> \<subseteq> e_id ` set (outbox_events (pd_db st))" using run unfolding batch_ids_def by (intro image_mono) auto
    finally show ?thesis .
  qed
  have "published_ids (mark_batch now db_now b (pd_db st)) =
      e_id ` {e \<in> set (outbox_events (pd_db st)). e_status (batch_row now db_now b e) = PUBLISHED}"
    by (auto simp: published_ids_def mark_batch_eq [OF dist] image_iff) (metis batch_row_id)
  also have "\<dots> = e_id ` {e \<in> set (outbox_events (pd_db st)). e_status e = PUBLISHED \<or> e_id e \<in> set (rb_oks b)}"
    using row by (intro arg_cong [where f = "image e_id"]) blast
  also have "\<dots> = published_ids (pd_db st) \<union> set (rb_oks b)" using known by (auto simp: published_ids_def)
  finally show ?thesis .
qed

lemma offered_sendings:
  "sendings i (offered p publish b e st) =
     sendings i st + (if accepted publish e \<and> e_id e = i then 1 else 0)"
  by (auto simp: sendings_def offered_def event_frame_def uuid_str_inject split: sum.splits)

text \<open>
  The count of one entry against its being settled: a step either leaves both, or moves both
  by one, or takes an entry out because its transaction was lost.
\<close>

lemma producer_step_counts:
  assumes "producer_step st l st'" and "producers_ok st"
  shows "sendings i st' + (if i \<in> settled_ids st then 1 else 0) \<le>
      sendings i st + (if i \<in> settled_ids st' then 1 else 0) + aborts [l]"
    and "sendings i st \<le> sendings i st'"
    and "i \<in> settled_ids st' \<Longrightarrow> i \<notin> settled_ids st \<Longrightarrow> 1 \<le> sendings i st'"
proof -
  have "sendings i st' + (if i \<in> settled_ids st then 1 else 0) \<le>
      sendings i st + (if i \<in> settled_ids st' then 1 else 0) + aborts [l] \<and>
    sendings i st \<le> sendings i st' \<and>
    (i \<in> settled_ids st' \<longrightarrow> i \<notin> settled_ids st \<longrightarrow> 1 \<le> sendings i st')"
    using assms
  proof cases
    case (fetch p batch n)
    have "settled_ids st' = settled_ids st"
      using fetch(3) by (simp add: settled_split [of _ p] fetch(2) fetched_def)
    moreover have "sendings i st' = sendings i st" by (simp add: fetch fetched_def sendings_def)
    ultimately show ?thesis by simp
  next
    case (offer p b e es publish)
    have new: "e_id e \<notin> settled_ids st" using todo_unsettled [OF assms(2) offer(3)] offer(4) by simp
    have "settled_ids st' = settled_ids st \<union> (if accepted publish e then {e_id e} else {})"
      using offer(3) by (simp add: settled_split [of _ p] offer(2) offered_def split: sum.split)
    then show ?thesis using new offered_sendings [of i p publish b e st] offer(2) by auto
  next
    case (finish p b now db_now)
    have "settled_ids st' = settled_ids st"
      using finish(3) published_after_finish [OF assms(2) finish(3,4), of now db_now]
      by (auto simp: settled_split [of _ p] finish(2) released_def)
    moreover have "sendings i st' = sendings i st" by (simp add: finish released_def sendings_def)
    ultimately show ?thesis by simp
  next
    case (abort p b)
    have "settled_ids st' \<subseteq> settled_ids st" using settled_drop(2) [OF abort(3)] by (simp add: abort(2))
    moreover have "sendings i st' = sendings i st" by (simp add: abort released_def sendings_def)
    ultimately show ?thesis by (auto simp: abort(1) aborts_def)
  next
    case (others db new)
    have "published_ids db = published_ids (pd_db st)"
      using others(5) by (auto simp: published_ids_def others(3) list_all_iff)
    then have "settled_ids st' = settled_ids st" by (simp add: settled_ids_def others(2))
    moreover have "sendings i st' = sendings i st" by (simp add: others sendings_def)
    ultimately show ?thesis by simp
  qed
  then show "sendings i st' + (if i \<in> settled_ids st then 1 else 0) \<le>
      sendings i st + (if i \<in> settled_ids st' then 1 else 0) + aborts [l]"
    and "sendings i st \<le> sendings i st'"
    and "i \<in> settled_ids st' \<Longrightarrow> i \<notin> settled_ids st \<Longrightarrow> 1 \<le> sendings i st'"
    by blast+
qed

lemma producer_steps_counts:
  assumes "producer_steps st ls st'" and "producers_ok st"
  shows "sendings i st' + (if i \<in> settled_ids st then 1 else 0) \<le>
      sendings i st + (if i \<in> settled_ids st' then 1 else 0) + aborts ls"
    and "i \<in> settled_ids st' \<Longrightarrow> i \<notin> settled_ids st \<Longrightarrow> 1 \<le> sendings i st'"
  using assms
proof (induction rule: producer_steps.induct)
  case (go st ls st' l st'')
  case 1
  show ?case
    using go.IH(1) [OF 1] producer_step_counts(1) [OF go.hyps(2) producer_steps_ok [OF go.hyps(1) 1], of i]
    by (simp add: aborts_def)
next
  case (go st ls st' l st'')
  case 2
  then show ?case
    using go.IH(2) producer_step_counts(2,3) [OF go.hyps(2) producer_steps_ok [OF go.hyps(1) 2(3)], of i]
    by (cases "i \<in> settled_ids st'") auto
qed (simp_all add: aborts_def)

text \<open>
  C7: with any number of producers an entry is given to the broker at most once, and once more
  for each transaction that was lost; an entry that has become published was given to it.
\<close>

theorem producers_send_once:
  assumes "unique_by e_id (outbox_events db)" and "producer_steps (producers_start db) ls st"
  shows "sendings i st \<le> 1 + aborts ls \<and>
    (i \<in> published_ids (pd_db st) - published_ids db \<longrightarrow> 1 \<le> sendings i st)"
proof -
  have ok: "producers_ok (producers_start db)" by (rule producers_start_ok [OF assms(1)])
  have start: "sendings i (producers_start db) = 0" "settled_ids (producers_start db) = published_ids db"
    by (simp_all add: producers_start_def sendings_def settled_ids_def)
  have "published_ids (pd_db st) \<subseteq> settled_ids st" by (auto simp: settled_ids_def)
  then show ?thesis
    using producer_steps_counts [OF assms(2) ok, of i] start by (auto split: if_splits)
qed

section \<open>Samples\<close>

lemma producer_steps_Cons:
  "producer_steps st' ls st'' \<Longrightarrow> producer_step st l st' \<Longrightarrow> producer_steps st (l # ls) st''"
proof (induction rule: producer_steps.induct)
  case (stay st')
  then show ?case using producer_steps.go [OF producer_steps.stay] by fastforce
next
  case (go st' ls st2 l' st3)
  then show ?case using producer_steps.go [of st "l # ls" st2 l' st3] by simp
qed

definition takes_all :: "frame \<Rightarrow> string + unit" where
  "takes_all f = Inr ()"

lemma sample_batches:
  "batch_of 1 (\<lambda>i. False) sample_outbox = [sample_event 2 10]"
  "batch_of 1 (\<lambda>i. i = 2) sample_outbox = [sample_event 1 20]"
  by (simp_all add: batch_of_def select_ordered_def pending_def One_nat_def)

definition fetched_twice :: producers where
  "fetched_twice = fetched 1 [sample_event 1 20] (fetched 0 [sample_event 2 10] (producers_start sample_outbox))"

lemma sample_fetch:
  "producer_step (producers_start sample_outbox) (Fetch 0 1) (fetched 0 [sample_event 2 10] (producers_start sample_outbox))"
  by (rule producer_step.fetch) (simp_all add: producers_start_def sample_batches)

lemma sample_fetch_twice:
  "producer_steps (producers_start sample_outbox) [Fetch 0 1, Fetch 1 1] fetched_twice"
proof (rule producer_steps_Cons [OF _ sample_fetch], rule producer_steps_Cons [OF producer_steps.stay])
  show "producer_step (fetched 0 [sample_event 2 10] (producers_start sample_outbox)) (Fetch 1 1) fetched_twice"
    unfolding fetched_twice_def
    by (rule producer_step.fetch) (simp_all add: producers_start_def fetched_def sample_batches)
qed

theorem producers_never_share_witness:
  "\<exists>b b'. pd_running fetched_twice 0 = Some b \<and> pd_running fetched_twice 1 = Some b' \<and>
    batch_ids b = {2} \<and> batch_ids b' = {1} \<and> batch_ids b \<inter> batch_ids b' = {}"
proof -
  obtain b b' where run: "pd_running fetched_twice 0 = Some b" "pd_running fetched_twice 1 = Some b'"
    and ids: "batch_ids b = {2}" "batch_ids b' = {1}"
    by (simp add: fetched_twice_def fetched_def batch_ids_def)
  show ?thesis
    using producers_never_share [OF _ sample_fetch_twice run] run ids by simp
qed

text \<open>The bound is reached: an entry sent by a transaction that is lost is sent again.\<close>

definition lost_and_sent :: "producer_label list" where
  "lost_and_sent = [Fetch 0 1, Offer 0 takes_all, Abort 0, Fetch 0 1, Offer 0 takes_all]"

lemma sample_lost_and_sent:
  "\<exists>st. producer_steps (producers_start sample_outbox) lost_and_sent st \<and> sendings 2 st = 2"
proof -
  let ?e = "sample_event 2 10"
  define b where "b = \<lparr>rb_batch = [?e], rb_todo = [?e], rb_oks = [], rb_failed = []\<rparr>"
  define b1 where "b1 = b\<lparr>rb_todo := [], rb_oks := [2]\<rparr>"
  define s1 where "s1 = fetched 0 [?e] (producers_start sample_outbox)"
  define s2 where "s2 = offered 0 takes_all b ?e s1"
  define s3 where "s3 = released 0 b1 s2"
  define s4 where "s4 = fetched 0 [?e] s3"
  define s5 where "s5 = offered 0 takes_all b ?e s4"
  note states = s1_def s2_def s3_def s4_def s5_def b_def b1_def fetched_def offered_def released_def
    takes_all_def producers_start_def batch_ids_def
  have "producer_step s1 (Offer 0 takes_all) s2"
    unfolding s2_def by (rule producer_step.offer) (simp_all add: states)
  moreover have "producer_step s2 (Abort 0) s3"
    unfolding s3_def by (rule producer_step.abort) (simp add: states)
  moreover have "producer_step s3 (Fetch 0 1) s4"
    unfolding s4_def by (rule producer_step.fetch) (simp_all add: states sample_batches)
  moreover have "producer_step s4 (Offer 0 takes_all) s5"
    unfolding s5_def by (rule producer_step.offer) (simp_all add: states)
  ultimately have "producer_steps (producers_start sample_outbox) lost_and_sent s5"
    using sample_fetch [folded s1_def] unfolding lost_and_sent_def
    by (blast intro: producer_steps_Cons producer_steps.stay)
  moreover have "sendings 2 s5 = 2" by (simp add: states sendings_def event_frame_def)
  ultimately show ?thesis by blast
qed

theorem producers_send_once_witness:
  "\<exists>st. sendings 2 st = 2 \<and> sendings 2 st \<le> 1 + aborts lost_and_sent"
  using producers_send_once [of sample_outbox lost_and_sent _ 2] sample_lost_and_sent by auto

end
