(* ===== verification/Producer_Runs.thy ===== *)
theory Producer_Runs
  imports Producers
begin

text \<open>
  The steps of one producer of \<open>Producers\<close>, however the others run in between, against the
  definition of \<^verbatim>\<open>send_batch\<close> in \<open>Outbox_Service\<close>.
\<close>

section \<open>One producer among the others\<close>

text \<open>Between its query and its commit the producer \<open>p\<close> publishes, and the broker answers \<open>publish\<close>.\<close>

fun only_offers :: "nat \<Rightarrow> (frame \<Rightarrow> string + unit) \<Rightarrow> producer_label \<Rightarrow> bool" where
  "only_offers p publish (Fetch q n) \<longleftrightarrow> q \<noteq> p"
| "only_offers p publish (Offer q answer) \<longleftrightarrow> q = p \<longrightarrow> answer = publish"
| "only_offers p publish (Finish q now db_now) \<longleftrightarrow> q \<noteq> p"
| "only_offers p publish (Abort q) \<longleftrightarrow> q \<noteq> p"
| "only_offers p publish (Others new db) \<longleftrightarrow> True"

definition frames_of :: "nat \<Rightarrow> producers \<Rightarrow> frame list" where
  "frames_of p st = map snd (filter (\<lambda>x. fst x = p) (pd_sent st))"

text \<open>The batch of \<open>p\<close> when it has published some of its entries, and its frames by then.\<close>

definition halfway ::
  "nat \<Rightarrow> (frame \<Rightarrow> string + unit) \<Rightarrow> outbox_event list \<Rightarrow> frame list \<Rightarrow> producers \<Rightarrow> bool" where
  "halfway p publish batch before st \<longleftrightarrow>
     (\<exists>past todo. batch = past @ todo \<and>
        pd_running st p = Some \<lparr>rb_batch = batch, rb_todo = todo,
          rb_oks = map e_id (filter (accepted publish) past),
          rb_failed = map (\<lambda>e. (e_id e, refusal publish e)) (filter (\<lambda>e. \<not> accepted publish e) past)\<rparr> \<and>
        frames_of p st = before @ map event_frame (filter (accepted publish) past))"

lemma halfway_step:
  assumes "halfway p publish batch before st" and "producer_step st l st'" and "only_offers p publish l"
  shows "halfway p publish batch before st'"
proof -
  have same: "halfway p publish batch before st'"
    if "pd_running st' p = pd_running st p" "frames_of p st' = frames_of p st"
    using assms(1) that by (simp add: halfway_def)
  show ?thesis
    using assms(2)
  proof cases
    case (fetch q b n)
    with assms(3) show ?thesis by (intro same) (auto simp: fetched_def frames_of_def)
  next
    case (offer q b e es answer)
    show ?thesis
    proof (cases "q = p")
      case False
      then show ?thesis
        by (intro same) (auto simp: offer(2) offered_def frames_of_def split: sum.split)
    next
      case True
      with assms(3) offer(1) have a: "answer = publish" by simp
      obtain past todo where d: "batch = past @ todo" "b = \<lparr>rb_batch = batch, rb_todo = todo,
          rb_oks = map e_id (filter (accepted publish) past),
          rb_failed = map (\<lambda>e. (e_id e, refusal publish e)) (filter (\<lambda>e. \<not> accepted publish e) past)\<rparr>"
          "frames_of p st = before @ map event_frame (filter (accepted publish) past)"
        using assms(1) offer(3) by (auto simp: halfway_def True)
      with offer(4) have "batch = (past @ [e]) @ es" by simp
      then show ?thesis
        unfolding halfway_def
        using d(2,3) offer(4)
        by (intro exI [of _ "past @ [e]"] exI [of _ es])
          (auto simp: True a offer(2) offered_def frames_of_def refusal_def split: sum.split)
    qed
  next
    case (finish q b now db_now)
    with assms(3) show ?thesis by (intro same) (auto simp: released_def frames_of_def)
  next
    case (abort q b)
    with assms(3) show ?thesis by (intro same) (auto simp: released_def frames_of_def)
  next
    case (others db new)
    then show ?thesis by (intro same) (auto simp: frames_of_def)
  qed
qed

lemma halfway_steps:
  "producer_steps st ls st' \<Longrightarrow> halfway p publish batch before st \<Longrightarrow> list_all (only_offers p publish) ls \<Longrightarrow>
   halfway p publish batch before st'"
  by (induction rule: producer_steps.induct) (auto intro: halfway_step)

text \<open>The locks hold: whatever the steps of the others were, the rows of the batch are as they were read.\<close>

lemma batch_rows_kept:
  assumes "producers_ok st" and "pd_running st p = Some b"
    and "unique_by e_id (outbox_events db)" and "set (rb_batch b) \<subseteq> set (outbox_events db)"
  shows "respects_locks (batch_ids b) (\<lambda>_. pd_db st) db"
proof -
  have uniq: "unique_by e_id (outbox_events (pd_db st))" using assms(1) by (simp add: producers_ok_def)
  have "select_by e_id (e_id e) (outbox_events (pd_db st)) = select_by e_id (e_id e) (outbox_events db)"
    if "e \<in> set (rb_batch b)" for e
  proof -
    have "e \<in> set (outbox_events (pd_db st))" "e \<in> set (outbox_events db)"
      using producers_okD(1) [OF assms(1,2)] assms(4) that by (auto simp: running_ok_def)
    then show ?thesis using select_by_unique [OF uniq] select_by_unique [OF assms(3)] by simp
  qed
  then show ?thesis using uniq by (auto simp: respects_locks_def batch_ids_def)
qed

lemma marked_is_sent:
  assumes uniq: "unique_by e_id (outbox_events db0)" and locks: "respects_locks (e_id ` set batch) (\<lambda>_. db) db0"
    and sub: "set batch \<subseteq> set (outbox_events db0)" and dist: "distinct (map e_id batch)"
    and b: "rb_oks b = map e_id (filter (accepted publish) batch)"
      "rb_failed b = map (\<lambda>e. (e_id e, refusal publish e)) (filter (\<lambda>e. \<not> accepted publish e) batch)"
  shows "mark_batch now db_now b db = sent_db publish now db_now batch db"
proof -
  have "distinct (map e_id (filter (\<lambda>e. \<not> accepted publish e) batch))" using dist by (rule distinct_map_filter)
  then have d: "distinct (map fst (rb_failed b))" by (simp add: b(2) comp_def)
  have "batch_row now db_now b e = (if e_id e \<in> e_id ` set batch then sent_row publish now db_now e else e)"
    if "e \<in> set (outbox_events db)" for e
    unfolding batch_row_def b
    by (rule marked_rows [OF uniq locks sub dist that refl refl])
  then show ?thesis by (simp add: mark_batch_eq [OF d] sent_db_def update_where_def)
qed

text \<open>
  C9: the steps of one producer, from its query to its commit, amount to one run of
  \<^verbatim>\<open>send_batch\<close>, whatever the others do in between: the batch is the one \<^verbatim>\<open>send_batch\<close> reads
  past the locked rows, the tables after the commit and the frames given to the broker are
  those it computes, and the condition it needs of the others (that the rows it holds stay as
  they are) is met because of the locks.
\<close>

theorem producer_run_is_send_batch:
  assumes "unique_by e_id (outbox_events db)" and "producer_steps (producers_start db) ls st0"
    and "producer_step st0 (Fetch p n) st1"
    and "producer_steps st1 during st2" and "list_all (only_offers p publish) during"
    and "producer_step st2 (Finish p now db_now) st3"
  shows "\<exists>k s'. send_batch n (\<lambda>i. i \<in> pd_locks st0) publish (\<lambda>_. pd_db st2) now db_now
        (session_on (pd_db st0)) = (Inr k, s') \<and>
      committed s' = pd_db st3 \<and> frames_of p st3 = frames_of p st0 @ published s' \<and> k = length (published s')"
proof -
  have ok0: "producers_ok st0" using producer_steps_ok [OF assms(2) producers_start_ok [OF assms(1)]] .
  then have uniq: "unique_by e_id (outbox_events (pd_db st0))" by (simp add: producers_ok_def)
  let ?batch = "batch_of n (\<lambda>i. i \<in> pd_locks st0) (pd_db st0)"
  have st1: "st1 = fetched p ?batch st0" and some: "?batch \<noteq> []"
    using assms(3) by (auto elim: fetch_cases)
  have ok2: "producers_ok st2"
    using producer_steps_ok [OF assms(4)] producer_step_ok [OF assms(3) ok0] by blast
  have "halfway p publish ?batch (frames_of p st0) st1"
    unfolding halfway_def st1 by (rule exI [of _ "[]"]) (simp add: fetched_def frames_of_def)
  then have half: "halfway p publish ?batch (frames_of p st0) st2"
    using halfway_steps [OF assms(4) _ assms(5)] by blast
  obtain b where b: "pd_running st2 p = Some b" "rb_todo b = []"
    and st3: "st3 = (released p b st2)\<lparr>pd_db := mark_batch now db_now b (pd_db st2)\<rparr>"
    using assms(6) by (auto elim: finish_cases)
  have all: "rb_batch b = ?batch" "rb_oks b = map e_id (filter (accepted publish) ?batch)"
      "rb_failed b = map (\<lambda>e. (e_id e, refusal publish e)) (filter (\<lambda>e. \<not> accepted publish e) ?batch)"
      "frames_of p st2 = frames_of p st0 @ map event_frame (filter (accepted publish) ?batch)"
    using half b by (auto simp: halfway_def)
  have sub: "set ?batch \<subseteq> set (outbox_events (pd_db st0))" using batch_of_set by blast
  have locks: "respects_locks (e_id ` set ?batch) (\<lambda>_. pd_db st2) (pd_db st0)"
    using batch_rows_kept [OF ok2 b(1) uniq] sub by (simp add: all(1) batch_ids_def)
  have "pd_db st3 = sent_db publish now db_now ?batch (pd_db st2)"
    using marked_is_sent [OF uniq locks sub batch_of_distinct [OF uniq] all(2,3)] by (simp add: st3)
  moreover have "frames_of p st3 = frames_of p st2" by (simp add: st3 released_def frames_of_def)
  ultimately show ?thesis
    using send_batch_effect [of "session_on (pd_db st0)" _ n "\<lambda>i. i \<in> pd_locks st0" "\<lambda>_. pd_db st2" _ publish now db_now]
      uniq some locks all(4) by simp
qed

lemma sample_run:
  "producer_steps (producers_start sample_outbox) [] (producers_start sample_outbox)"
  by (rule producer_steps.stay)

theorem producer_run_is_send_batch_witness:
  "\<exists>st k s'. send_batch 1 (\<lambda>i. False) takes_all (\<lambda>_. sample_outbox) 30 40 (session_on sample_outbox) = (Inr k, s') \<and>
    frames_of 0 st = published s' \<and> k = length (published s')"
proof -
  let ?e = "sample_event 2 10"
  define b where "b = \<lparr>rb_batch = [?e], rb_todo = [?e], rb_oks = [], rb_failed = []\<rparr>"
  define b1 where "b1 = b\<lparr>rb_todo := [], rb_oks := [2]\<rparr>"
  define s1 where "s1 = fetched 0 [?e] (producers_start sample_outbox)"
  define s2 where "s2 = offered 0 takes_all b ?e s1"
  note states = s1_def s2_def b_def b1_def fetched_def offered_def takes_all_def producers_start_def
  have offer: "producer_step s1 (Offer 0 takes_all) s2"
    unfolding s2_def by (rule producer_step.offer) (simp_all add: states)
  have finish: "producer_step s2 (Finish 0 30 40) ((released 0 b1 s2)\<lparr>pd_db := mark_batch 30 40 b1 (pd_db s2)\<rparr>)"
    by (rule producer_step.finish) (simp_all add: states)
  have db: "pd_db s2 = sample_outbox" "frames_of 0 (producers_start sample_outbox) = []"
    by (simp_all add: states frames_of_def)
  show ?thesis
    using producer_run_is_send_batch [OF _ sample_run sample_fetch [folded s1_def]
        producer_steps_Cons [OF producer_steps.stay offer] _ finish] db
    by (auto simp: producers_start_def)
qed

end
