(* ===== verification/Reconcilers.thy ===== *)
theory Reconcilers
  imports Reconciler_Properties
begin

text \<open>
  Two reconcilers. \<^verbatim>\<open>find_stuck\<close> locks the rows it selects and skips those that are locked, so
  that two passes divide the tickets; but the first request of a pass commits and with that
  gives up the locks on the tickets still to come.
\<close>

section \<open>A pass that is interrupted\<close>

lemma recovered_ok:
  assumes "db_ok db" and "fresh_ids w (length rs) (event_ids db)"
  shows "db_ok (recovered_db c w rs db)"
  using assms
proof (induction rs arbitrary: w db)
  case (Cons r rs)
  let ?db = "held_cancelled_db c w r (stuck_reason (t_status r)) db"
  have new: "uuid4 w 1 \<notin> event_ids db" and rest: "fresh_ids (later 2 w) (length rs) (insert (uuid4 w 1) (event_ids db))"
    using fresh_ids_step [of w "length rs" "event_ids db"] Cons.prems(2) by simp_all
  have "event_ids ?db = insert (uuid4 w 1) (event_ids db)"
    by (simp add: held_cancelled_db_def set_insert_row new_outbox_event_def)
  then show ?case using Cons.IH [of ?db "later 2 w"] held_cancelled_ok [OF Cons.prems(1) new] rest by simp
qed simp

text \<open>One request of a pass, for a ticket whose row may have changed since it was loaded.\<close>

lemma recover_one_held:
  assumes obj: "objs s (t_id x) = Some (x, x)" and clean: "all_clean (objs s)"
    and row: "select_by t_id (t_id x) (tickets (view s)) = [r]" and ok: "db_ok (view s)"
    and fresh: "uuid4 w 1 \<notin> event_ids (view s)"
  shows "\<exists>s'. recover_one c client w (t_id x) s = (Inr (), s') \<and>
    committed s' = held_cancelled_db c w x (stuck_reason (t_status x)) (view s) \<and> view s' = committed s' \<and>
    all_clean (objs s') \<and> (\<forall>j. j \<noteq> t_id x \<longrightarrow> objs s' j = objs s j)"
proof -
  have "clean_except (t_id x) s" using clean by (auto simp: all_clean_def clean_except_def)
  then obtain s1 where run: "request_cancellation c client w (t_id x) (stuck_reason (t_status x)) s = (Inr (), s1)"
    and s1: "committed s1 = held_cancelled_db c w x (stuck_reason (t_status x)) (view s)" "view s1 = committed s1"
      "objs s1 = (objs s)(t_id x \<mapsto> flushed_object (db_clock w 0)
         (x, cancelled_ticket w (stuck_reason (t_status x)) x))"
    using request_cancellation_held_state [OF obj _ refl row ok fresh, of c client "stuck_reason (t_status x)"] by auto
  have "all_clean (objs s1)" using clean by (simp add: s1(3) flushed_object_def Let_def)
  then show ?thesis
    by (simp add: recover_one_def py_bind_def attributes_def obj py_try_def run inc_def py_modify_def Let_def s1)
qed

lemma held_cancelled_events:
  "outbox_events (held_cancelled_db c w x reason db) = outbox_events db @
     [outbound_event c (uuid4 w 1) (db_clock w 0) (t_id x)
        (build_cancellation_message c (uuid4 w 0) (clock w 1) (t_id x) reason)]"
  by (simp add: held_cancelled_db_def insert_row_def)

text \<open>Two tickets, with \<open>env\<close> between their requests.\<close>

lemma recover_pair:
  assumes w: "others w 0 = env" "others w 2 = id"
    and s: "view s = committed s" "all_clean (objs s)" "db_ok (committed s)"
    and rows: "t_id r1 \<noteq> t_id r2" "\<forall>r \<in> {r1, r2}. objs s (t_id r) = Some (r, r)"
      "select_by t_id (t_id r1) (tickets (committed s)) = [r1]"
    and db1: "db1 = held_cancelled_db c w r1 (stuck_reason (t_status r1)) (committed s)"
    and db2: "db_ok (env db1)" "select_by t_id (t_id r2) (tickets (env db1)) = [q]"
    and fresh: "uuid4 w 1 \<notin> event_ids (committed s)" "uuid4 w 3 \<notin> event_ids (env db1)"
  shows "\<exists>s'. recover_each c client w [t_id r1, t_id r2] s = (Inr (), s') \<and>
    committed s' = held_cancelled_db c (later 2 w) r2 (stuck_reason (t_status r2)) (env db1)"
proof -
  have obj: "objs s (t_id r1) = Some (r1, r1)" "objs s (t_id r2) = Some (r2, r2)" using rows(2) by auto
  obtain s1 where one: "recover_one c client w (t_id r1) s = (Inr (), s1)" and s1: "committed s1 = db1"
      "view s1 = db1" "all_clean (objs s1)" "\<forall>j. j \<noteq> t_id r1 \<longrightarrow> objs s1 j = objs s j"
    using recover_one_held [OF obj(1) s(2), of r1 w c client] s rows(3) fresh(1) db1 by auto
  define s2 where "s2 = s1\<lparr>committed := env db1, view := env db1\<rparr>"
  have gap: "interfere (others w 0) s1 = (Inr (), s2)"
    by (simp add: interfere_def py_modify_def w(1) s1 s2_def)
  have obj2: "objs s2 (t_id r2) = Some (r2, r2)" using s1(4) rows(1) obj(2) by (simp add: s2_def)
  have draws: "uuid4 (later 2 w) 1 = uuid4 w 3" "others (later 2 w) 0 = id"
    using w(2) by (simp add: later_def, simp add: later_def numeral_2_eq_2)
  obtain s3 where two: "recover_one c client (later 2 w) (t_id r2) s2 = (Inr (), s3)" and s3: "view s3 = committed s3"
      "committed s3 = held_cancelled_db c (later 2 w) r2 (stuck_reason (t_status r2)) (env db1)"
    using recover_one_held [OF obj2, of q "later 2 w" c client] s1(3) db2 fresh(2) draws(1) by (auto simp: s2_def)
  have "interfere (others (later 2 w) 0) s3 = (Inr (), s3)"
    using s3(1) by (cases s3) (simp add: interfere_def py_modify_def draws(2))
  then show ?thesis using s3(2) by (simp add: py_bind_def py_return_def one gap two)
qed

section \<open>The other reconciler\<close>

definition other_pass :: "codec \<Rightarrow> fake_monolith \<Rightarrow> reconciler \<Rightarrow> ambient \<Rightarrow> database \<Rightarrow> database" where
  "other_pass c client rc w db =
     committed (snd (recover_stuck_tickets c client rc w (\<lambda>_. False) (session_on db)))"

lemma other_pass_db:
  assumes "db_ok db" and "quiet w"
    and "rs = stuck_rows (clock w 0 - timedelta_seconds (rc_stuck_after_sec rc)) (rc_batch_size rc) (\<lambda>_. False) db"
    and "fresh_ids (later 1 w) (length rs) (event_ids db)"
  shows "other_pass c client rc w db = recovered_db c (later 1 w) rs db"
  using pass_state [of "session_on db" w rs rc "\<lambda>_. False" c client] assms by (auto simp: other_pass_def)

lemma other_pass_effect:
  assumes ok: "db_ok db" and q: "quiet w"
    and rs: "rs = stuck_rows (clock w 0 - timedelta_seconds (rc_stuck_after_sec rc)) (rc_batch_size rc)
                    (\<lambda>_. False) db"
    and fresh: "fresh_ids (later 1 w) (length rs) (event_ids db)" and r: "r \<in> set rs"
  shows "db_ok (other_pass c client rc w db) \<and>
    (\<exists>r'. select_by t_id (t_id r) (tickets (other_pass c client rc w db)) = [r']) \<and>
    (\<exists>es. outbox_events (other_pass c client rc w db) = outbox_events db @ es \<and> map e_entity_id es = map t_id rs \<and>
       (\<forall>e \<in> set es. cancel_request c e))"
proof -
  have uniq: "unique_by t_id (tickets db)" using ok by (simp add: db_ok_def)
  note known = stuck_rows_known [OF uniq rs]
  note db = other_pass_db [OF ok q rs fresh, of c client]
  show ?thesis
    unfolding db
    using recovered_ok [OF ok fresh] recovered_select [OF known(1), of db r c "later 1 w"] known(2) r
      recovered_events [of c "later 1 w" rs db] by blast
qed

lemma requests_for_one:
  assumes "distinct (map t_id rs)" and "map e_entity_id es = map t_id rs" and "r \<in> set rs"
    and "\<forall>e \<in> set es. cancel_request c e"
  shows "length (filter (\<lambda>e. cancel_request c e \<and> e_entity_id e = t_id r) es) = 1"
proof -
  have "filter (\<lambda>e. cancel_request c e \<and> e_entity_id e = t_id r) es = filter (\<lambda>e. e_entity_id e = t_id r) es"
    using assms(4) by (intro filter_cong) auto
  moreover have "\<exists>e \<in> set es. e_entity_id e = t_id r" using assms(2,3) by (metis imageE image_eqI list.set_map)
  moreover have "unique_by e_entity_id es" using assms(1,2) by (simp add: unique_by_def)
  ultimately show ?thesis using select_by_unique [of e_entity_id es] unfolding select_by_def
    by (metis One_nat_def length_Cons list.size(3))
qed

text \<open>
  C29: the locks of \<^verbatim>\<open>find_stuck\<close> do not keep two reconcilers apart. One has selected two
  tickets and committed the request for the first; the second ticket is then free for the
  other reconciler, which requests its cancellation, and after that the first one does so
  again from the ticket object it holds: two pending requests for one ticket.
\<close>

theorem reconcilers_request_twice:
  assumes ok: "db_ok (committed s)"
    and rs: "[r1, r2] = stuck_rows (clock w 0 - timedelta_seconds (rc_stuck_after_sec rc)) (rc_batch_size rc)
                    locked (committed s)"
    and db1: "db1 = held_cancelled_db c (later 1 w) r1 (stuck_reason (t_status r1)) (committed s)"
    and gaps: "others w 1 = other_pass c client rc' w'" "others w 3 = id"
    and other: "quiet w'" "rs' = stuck_rows (clock w' 0 - timedelta_seconds (rc_stuck_after_sec rc')) (rc_batch_size rc')
                    (\<lambda>_. False) db1" "r2 \<in> set rs'" "fresh_ids (later 1 w') (length rs') (event_ids db1)"
    and fresh: "uuid4 w 2 \<notin> event_ids (committed s)" "uuid4 w 4 \<notin> event_ids (other_pass c client rc' w' db1)"
  shows "\<exists>s' es. recover_stuck_tickets c client rc w locked s = (Inr (), s') \<and>
    outbox_events (committed s') = outbox_events (committed s) @ es \<and>
    length (filter (\<lambda>e. cancel_request c e \<and> e_entity_id e = t_id r2) es) = 2"
proof -
  let ?s0 = "(open_session s)\<lparr>objs := loaded_rows [r1, r2]\<rparr>" and ?env = "other_pass c client rc' w'"
  have uniq: "unique_by t_id (tickets (committed s))" using ok by (simp add: db_ok_def)
  note known = stuck_rows_known [OF uniq rs]
  have apart: "t_id r1 \<noteq> t_id r2" using known(1) by simp
  have draws: "others (later 1 w) 0 = ?env" "others (later 1 w) 2 = id" "uuid4 (later 1 w) 1 = uuid4 w 2"
    "uuid4 (later 1 w) 3 = uuid4 w 4"
    using gaps by (simp_all add: later_def)
  have ok1: "db_ok db1"
    using held_cancelled_ok [OF ok, of "later 1 w" c r1] fresh(1) draws(3) by (simp add: db1)
  have dist': "distinct (map t_id rs')" using stuck_rows_known(1) [OF _ other(2)] ok1 by (simp add: db_ok_def)
  obtain es q where pass: "db_ok (?env db1)" "select_by t_id (t_id r2) (tickets (?env db1)) = [q]"
      "outbox_events (?env db1) = outbox_events db1 @ es" "map e_entity_id es = map t_id rs'"
      "\<forall>e \<in> set es. cancel_request c e"
    using other_pass_effect [OF ok1 other(1,2,4,3), of c client] by auto
  obtain s1 where run: "recover_each c client (later 1 w) [t_id r1, t_id r2] ?s0 = (Inr (), s1)"
    and s1: "committed s1 = held_cancelled_db c (later 2 (later 1 w)) r2 (stuck_reason (t_status r2)) (?env db1)"
    using recover_pair [OF draws(1,2), of ?s0 r1 r2 db1 c q client] known ok db1 pass(1,2) fresh draws(3,4) apart
    by (auto simp: loaded_rows_clean)
  obtain s' where s': "recover_stuck_tickets c client rc w locked s = (Inr (), s')" "committed s' = committed s1"
    using session_scope_commits [of "recover_batch c client rc w locked
        (clock w 0 - timedelta_seconds (rc_stuck_after_sec rc))" s s1] run
    by (auto simp: recover_stuck_tickets_def recover_batch_def Let_def py_bind_def find_loads [OF ok rs])
  have "length (filter (\<lambda>e. cancel_request c e \<and> e_entity_id e = t_id r2) es) = 1"
    by (rule requests_for_one [OF dist' pass(4) other(3) pass(5)])
  moreover obtain e1 where "outbox_events db1 = outbox_events (committed s) @ [e1]" "e_entity_id e1 = t_id r1"
    by (simp add: db1 held_cancelled_events) (simp add: new_outbox_event_def)
  moreover obtain e2 where "outbox_events (committed s1) = outbox_events (?env db1) @ [e2]"
      "e_entity_id e2 = t_id r2" "cancel_request c e2"
    using new_cancel_request by (simp add: s1 held_cancelled_events) (simp add: new_outbox_event_def)
  ultimately show ?thesis
    using s' pass(3) apart by (intro exI [of _ s'] exI [of _ "e1 # es @ [e2]"]) simp
qed

section \<open>A sample\<close>

definition second_ticket :: ticket where
  "second_ticket = (sample_ticket SENT_TO_PROVIDER)\<lparr>t_id := 8, t_idempotency_key := ''k2'', t_updated_at := 20\<rparr>"

definition pair_db :: database where
  "pair_db = \<lparr>tickets = [sample_ticket SENT_TO_PROVIDER, second_ticket], outbox_events = [], processed = []\<rparr>"

definition numbered :: "uuid \<Rightarrow> ambient" where
  "numbered first =
     \<lparr>uuid4 = (\<lambda>n. first + of_nat n), clock = (\<lambda>_. 100000000), rolls = (\<lambda>_. 0), db_clock = (\<lambda>_. 100000000),
      others = (\<lambda>_. id)\<rparr>"

definition pair_ambient :: ambient where
  "pair_ambient = (numbered 100)\<lparr>others := (\<lambda>n. if n = 1
     then other_pass ref_codec sample_client (reconciler_worker (default_settings ''k'')) (numbered 200) else id)\<rparr>"

lemma pair_rows:
  "stuck 40000000 (\<lambda>_. False) (sample_ticket SENT_TO_PROVIDER)" "stuck 40000000 (\<lambda>_. False) second_ticket"
  by (simp_all add: stuck_def second_ticket_def) (simp_all add: sample_ticket_def)

lemma pair_ok: "db_ok pair_db"
  by (simp add: db_ok_def pair_db_def unique_by_def second_ticket_def ticket_columns_fit_def
      stake_amount_positive_def varchar_fits_def numeric_fits_def) (simp add: sample_ticket_def)

definition pair_after_first :: database where
  "pair_after_first = held_cancelled_db ref_codec (later 1 pair_ambient) (sample_ticket SENT_TO_PROVIDER)
     (stuck_reason SENT_TO_PROVIDER) pair_db"

lemma pair_after_first:
  "event_ids pair_after_first = {102}"
  "stuck_rows 40000000 100 (\<lambda>_. False) pair_after_first = [second_ticket]"
  "db_ok pair_after_first"
proof -
  have draws: "uuid4 (later 1 pair_ambient) 1 = 102" "db_clock (later 1 pair_ambient) 0 = 100000000"
    by (simp_all add: pair_ambient_def numbered_def later_def)
  show "event_ids pair_after_first = {102}"
    by (simp add: pair_after_first_def held_cancelled_events draws pair_db_def) (simp add: new_outbox_event_def)
  let ?t = "sample_ticket SENT_TO_PROVIDER"
  let ?r = "write_back 100000000 ?t (cancelled_ticket (later 1 pair_ambient) (stuck_reason SENT_TO_PROVIDER) ?t) ?t"
  have "cancelled_ticket (later 1 pair_ambient) (stuck_reason SENT_TO_PROVIDER) ?t \<noteq> ?t"
    by (simp add: cancelled_ticket_def) (simp add: sample_ticket_def)
  then have "t_updated_at ?r = 100000000" by (simp add: write_back_def)
  moreover have "tickets pair_after_first = [?r, second_ticket]"
    by (simp add: pair_after_first_def held_cancelled_db_def draws pair_db_def update_where_def second_ticket_def)
  ultimately show "stuck_rows 40000000 100 (\<lambda>_. False) pair_after_first = [second_ticket]"
    using pair_rows(2) by (simp add: stuck_rows_def select_ordered_def stuck_def)
  show "db_ok pair_after_first"
    unfolding pair_after_first_def using pair_ok by (rule held_cancelled_ok) (simp add: pair_db_def)
qed

theorem reconcilers_request_twice_witness:
  "\<exists>s'. recover_stuck_tickets ref_codec sample_client (reconciler_worker (default_settings ''k'')) pair_ambient
      (\<lambda>_. False) (session_on pair_db) = (Inr (), s') \<and>
    length (filter (\<lambda>e. cancel_request ref_codec e \<and> e_entity_id e = 8) (outbox_events (committed s'))) = 2"
proof -
  let ?rc = "reconciler_worker (default_settings ''k'')" and ?t = "sample_ticket SENT_TO_PROVIDER"
  let ?w = "numbered 200" and ?pass = "other_pass ref_codec sample_client ?rc (numbered 200)"
  have rc: "rc_stuck_after_sec ?rc = 60" "rc_batch_size ?rc = 100" by (simp_all add: reconciler_worker_def)
  have time: "clock ?w 0 - timedelta_seconds 60 = 40000000" "clock pair_ambient 0 - timedelta_seconds 60 = 40000000"
    by (simp_all add: pair_ambient_def numbered_def timedelta_seconds_def)
  have rs: "[?t, second_ticket] = stuck_rows (clock pair_ambient 0 - timedelta_seconds (rc_stuck_after_sec ?rc))
      (rc_batch_size ?rc) (\<lambda>_. False) (committed (session_on pair_db))"
    using pair_rows by (simp add: rc time stuck_rows_def select_ordered_def pair_db_def second_ticket_def)
      (simp add: sample_ticket_def)
  have draws: "uuid4 (later 1 ?w) 1 = 202" "uuid4 pair_ambient 2 = 102" "uuid4 pair_ambient 4 = 104"
      "others pair_ambient 1 = ?pass" "others pair_ambient 3 = id"
    by (simp_all add: pair_ambient_def numbered_def later_def)
  have q: "quiet ?w" by (simp add: quiet_def numbered_def)
  have rs': "[second_ticket] = stuck_rows (clock ?w 0 - timedelta_seconds (rc_stuck_after_sec ?rc))
      (rc_batch_size ?rc) (\<lambda>_. False) pair_after_first"
    by (simp add: rc time pair_after_first)
  have new: "fresh_ids (later 1 ?w) (length [second_ticket]) (event_ids pair_after_first)"
    by (simp add: fresh_ids_def draws pair_after_first)
  have "event_ids (?pass pair_after_first) = {102, 202}"
    using other_pass_db [OF pair_after_first(3) q rs' new, of ref_codec sample_client] pair_after_first(1)
    by (simp add: held_cancelled_events draws) (simp add: new_outbox_event_def insert_commute)
  then have new': "uuid4 pair_ambient 4 \<notin> event_ids (?pass pair_after_first)" by (simp add: draws)
  have old: "uuid4 pair_ambient 2 \<notin> event_ids (committed (session_on pair_db))" by (simp add: pair_db_def)
  have db1: "pair_after_first = held_cancelled_db ref_codec (later 1 pair_ambient) ?t (stuck_reason (t_status ?t))
      (committed (session_on pair_db))"
    by (simp add: pair_after_first_def)
  show ?thesis
    using reconcilers_request_twice [OF _ rs db1 draws(4,5) q rs' _ new old new'] pair_ok
    by (auto simp: pair_db_def second_ticket_def)
qed

end
