(* ===== verification/Migration_Env.thy ===== *)
theory Migration_Env
  imports Schema Config
begin

text \<open>
  The migration environment, \<^verbatim>\<open>src/alembic/env.py\<close>, which \<^verbatim>\<open>alembic upgrade head\<close> runs: it writes
  the address of the database into the configuration of alembic (a \<^verbatim>\<open>ConfigParser\<close> of the
  standard library, which interpolates), and runs the revisions, offline as a script or online
  in one transaction on a connection it opens and disposes of.
\<close>

section \<open>Values of a ConfigParser\<close>

text \<open>
  \<^verbatim>\<open>BasicInterpolation\<close>. A reference is \<^verbatim>\<open>%(name)s\<close>, a doubled percent sign stands for one. A
  value with any other percent sign cannot be set.
\<close>

abbreviation percent :: char where
  "percent \<equiv> CHR ''%''"

fun drop_pairs :: "string \<Rightarrow> string" where
  "drop_pairs (c # d # s) = (if c = percent \<and> d = percent then drop_pairs s else c # drop_pairs (d # s))"
| "drop_pairs s = s"

fun key_reference :: "string \<Rightarrow> (string \<times> string) option" where
  "key_reference (c # d # s) =
     (if c = percent \<and> d = CHR ''(''
      then (case (takeWhile (\<lambda>x. x \<noteq> CHR '')'') s, dropWhile (\<lambda>x. x \<noteq> CHR '')'') s) of
              (k # ks, _ # e # rest) \<Rightarrow> if e = CHR ''s'' then Some (k # ks, rest) else None
            | _ \<Rightarrow> None)
      else None)"
| "key_reference s = None"

lemma key_reference_shorter: "key_reference s = Some (n, rest) \<Longrightarrow> length rest < length s"
proof (induction s rule: key_reference.induct)
  case (1 c d s)
  have "length (dropWhile (\<lambda>x. x \<noteq> CHR '')'') s) \<le> length s" by (rule length_dropWhile_le)
  with 1 show ?case by (auto split: if_splits list.splits)
qed simp_all

function drop_references :: "string \<Rightarrow> string" where
  "drop_references [] = []"
| "drop_references (c # s) =
     (case key_reference (c # s) of Some (n, rest) \<Rightarrow> drop_references rest | None \<Rightarrow> c # drop_references s)"
  by pat_completeness auto
termination
  by (relation "measure length") (auto dest: key_reference_shorter)

definition before_set :: "string \<Rightarrow> exn + string" where
  "before_set value =
     (if percent \<in> set (drop_references (drop_pairs value)) then Inl ValueError else Inr value)"

text \<open>\<^verbatim>\<open>optionxform\<close>: names of options are compared in lower case.\<close>

definition ascii_lower :: "char \<Rightarrow> char" where
  "ascii_lower ch = (let n = of_char ch :: nat in if 65 \<le> n \<and> n \<le> 90 then char_of (n + 32) else ch)"

text \<open>
  Reading. The first argument counts down from \<^verbatim>\<open>MAX_INTERPOLATION_DEPTH\<close> with each option
  whose own value is interpolated.
\<close>

definition prepend :: "string \<Rightarrow> exn + string \<Rightarrow> exn + string" where
  "prepend s r = (case r of Inl e \<Rightarrow> Inl e | Inr rest \<Rightarrow> Inr (s @ rest))"

function interpolate :: "nat \<Rightarrow> (string \<Rightarrow> string option) \<Rightarrow> string \<Rightarrow> exn + string" where
  "interpolate 0 options s = Inl (OtherError ''InterpolationDepthError'')"
| "interpolate (Suc d) options [] = Inr []"
| "interpolate (Suc d) options (c # s) =
     (if c \<noteq> percent then prepend [c] (interpolate (Suc d) options s)
      else if s \<noteq> [] \<and> hd s = percent then prepend [percent] (interpolate (Suc d) options (tl s))
      else (case key_reference (c # s) of
              None \<Rightarrow> Inl (OtherError ''InterpolationSyntaxError'')
            | Some (n, rest) \<Rightarrow>
                (case options (map ascii_lower n) of
                   None \<Rightarrow> Inl (OtherError ''InterpolationMissingOptionError'')
                 | Some v \<Rightarrow>
                     (case (if percent \<in> set v then interpolate d options v else Inr v) of
                        Inl e \<Rightarrow> Inl e
                      | Inr text \<Rightarrow> prepend text (interpolate (Suc d) options rest)))))"
  by pat_completeness auto
termination
  by (relation "measures [\<lambda>(d, _, s). d, \<lambda>(d, _, s). length s]")
    (auto dest: key_reference_shorter simp: less_Suc_eq_le split: list.splits)

definition max_interpolation_depth :: nat where
  "max_interpolation_depth = 10"

section \<open>The configuration\<close>

text \<open>
  The section of \<^verbatim>\<open>alembic.ini\<close> with the address in it; \<open>here\<close> is the directory of the file,
  which alembic adds.
\<close>

definition alembic_section :: "string \<Rightarrow> string \<Rightarrow> (string \<times> string) list" where
  "alembic_section here url =
     [(''here'', here),
      (''script_location'', ''alembic''),
      (''prepend_sys_path'', ''.''),
      (''file_template'', ''%%(year)d%%(month).2d%%(day).2d_%%(hour).2d%%(minute).2d_%%(rev)s_%%(slug)s''),
      (''timezone'', ''UTC''),
      (''version_path_separator'', ''os''),
      (''sqlalchemy.url'', url)]"

text \<open>\<^verbatim>\<open>get_section\<close> is a dict of all options of the section, each interpolated.\<close>

fun interpolate_items :: "(string \<Rightarrow> string option) \<Rightarrow> (string \<times> string) list \<Rightarrow> exn + (string \<times> string) list" where
  "interpolate_items options [] = Inr []"
| "interpolate_items options ((k, v) # items) =
     (case interpolate max_interpolation_depth options v of
        Inl e \<Rightarrow> Inl e
      | Inr text \<Rightarrow>
          (case interpolate_items options items of Inl e \<Rightarrow> Inl e | Inr rest \<Rightarrow> Inr ((k, text) # rest)))"

definition get_section :: "string \<Rightarrow> string \<Rightarrow> exn + (string \<times> string) list" where
  "get_section here url =
     (let items = alembic_section here url in interpolate_items (map_of items) items)"

text \<open>The address \<^verbatim>\<open>async_engine_from_config\<close> reads from it.\<close>

definition engine_url :: "string \<Rightarrow> string \<Rightarrow> exn + string" where
  "engine_url here url =
     (case get_section here url of
        Inl e \<Rightarrow> Inl e
      | Inr section \<Rightarrow>
          (case map_of section ''sqlalchemy.url'' of
             None \<Rightarrow> Inl (OtherError ''KeyError'') | Some text \<Rightarrow> Inr text))"

section \<open>Revisions\<close>

record revision =
  rev_id :: string
  rev_down :: "string option"
  rev_upgrade :: "operation list"
  rev_downgrade :: "operation list"

definition revision_0001 :: revision where
  "revision_0001 =
     \<lparr>rev_id = ''0001_init'', rev_down = None, rev_upgrade = upgrade_0001, rev_downgrade = downgrade_0001\<rparr>"

definition revision_0002 :: revision where
  "revision_0002 =
     \<lparr>rev_id = ''0002_provider_inbox'', rev_down = Some ''0001_init'',
      rev_upgrade = upgrade_0002, rev_downgrade = downgrade_0002\<rparr>"

definition script_directory :: "revision list" where
  "script_directory = [revision_0001, revision_0002]"

text \<open>From the version of the database to the head, along \<^verbatim>\<open>down_revision\<close>; one step for each revision at most.\<close>

fun upgrade_path :: "nat \<Rightarrow> string option \<Rightarrow> revision list" where
  "upgrade_path 0 version = []"
| "upgrade_path (Suc n) version =
     (case find (\<lambda>r. rev_down r = version) script_directory of
        None \<Rightarrow> []
      | Some r \<Rightarrow> r # upgrade_path n (Some (rev_id r)))"

definition to_head :: "string option \<Rightarrow> revision list" where
  "to_head version = upgrade_path (length script_directory) version"

text \<open>The statement of an operation; PostgreSQL refuses to create what exists and to drop what does not.\<close>

definition index_names :: "schema \<Rightarrow> string list" where
  "index_names sc = concat (map (\<lambda>t. map ix_name (tab_indexes t)) sc)"

fun possible :: "operation \<Rightarrow> schema \<Rightarrow> bool" where
  "possible (Create_table t) sc \<longleftrightarrow> tab_name t \<notin> tab_name ` set sc"
| "possible (Create_index tab ix) sc \<longleftrightarrow> tab \<in> tab_name ` set sc \<and> ix_name ix \<notin> set (index_names sc)"
| "possible (Drop_index ix tab) sc \<longleftrightarrow> ix \<in> set (index_names sc)"
| "possible (Drop_table tab) sc \<longleftrightarrow> tab \<in> tab_name ` set sc"

section \<open>Running them\<close>

text \<open>
  The state: the schema and the row of \<^verbatim>\<open>alembic_version\<close> in the database, the script an
  offline run has written, and whether the engine of an online run was disposed of.
\<close>

datatype statement = Run operation | Set_version string

record migration_state =
  ms_schema :: schema
  ms_version :: "string option"
  ms_script :: "statement list"
  ms_disposed :: bool

type_synonym 'a migration = "(exn, migration_state, 'a) py"

fun execute :: "statement \<Rightarrow> unit migration" where
  "execute (Run oper) = (\<lambda>s.
     if possible oper (ms_schema s) then (Inr (), s\<lparr>ms_schema := run_operation oper (ms_schema s)\<rparr>)
     else (Inl (OtherError ''ProgrammingError''), s))"
| "execute (Set_version v) = py_modify (\<lambda>s. s\<lparr>ms_version := Some v\<rparr>)"

fun execute_all :: "statement list \<Rightarrow> unit migration" where
  "execute_all [] = py_return ()"
| "execute_all (x # xs) = py_bind (execute x) (\<lambda>_. execute_all xs)"

definition revision_statements :: "revision \<Rightarrow> statement list" where
  "revision_statements r = map Run (rev_upgrade r) @ [Set_version (rev_id r)]"

definition path_statements :: "revision list \<Rightarrow> statement list" where
  "path_statements path = concat (map revision_statements path)"

text \<open>\<^verbatim>\<open>context.begin_transaction\<close> on a connection: what a body that raises has done is undone.\<close>

definition begin_transaction :: "unit migration \<Rightarrow> unit migration" where
  "begin_transaction body = (\<lambda>s.
     case body s of
       (Inr x, s') \<Rightarrow> (Inr x, s')
     | (Inl e, s') \<Rightarrow> (Inl e, s'\<lparr>ms_schema := ms_schema s, ms_version := ms_version s\<rparr>))"

definition run_migrations_offline :: "unit migration" where
  "run_migrations_offline =
     py_modify (\<lambda>s. s\<lparr>ms_script := ms_script s @ path_statements (to_head None)\<rparr>)"

definition do_run_migrations :: "unit migration" where
  "do_run_migrations =
     begin_transaction (\<lambda>s. execute_all (path_statements (to_head (ms_version s))) s)"

text \<open>\<open>connect\<close>: what connecting to an address does. The engine is disposed of after the \<^verbatim>\<open>async with\<close>.\<close>

definition run_migrations_online :: "string \<Rightarrow> string \<Rightarrow> (string \<Rightarrow> exn + unit) \<Rightarrow> unit migration" where
  "run_migrations_online here url connect =
     py_bind (py_lift (engine_url here url)) (\<lambda>address.
     py_bind (py_lift (connect address)) (\<lambda>_.
     py_bind do_run_migrations (\<lambda>_.
     py_modify (\<lambda>s. s\<lparr>ms_disposed := True\<rparr>))))"

definition migration_env ::
  "settings \<Rightarrow> string \<Rightarrow> bool \<Rightarrow> (string \<Rightarrow> exn + unit) \<Rightarrow> unit migration" where
  "migration_env st here offline connect =
     py_bind (py_lift (before_set (database_url st))) (\<lambda>url.
     if offline then run_migrations_offline else run_migrations_online here url connect)"

section \<open>The address\<close>

lemma key_reference_percent: "percent \<noteq> c \<Longrightarrow> key_reference (c # s) = None"
  by (cases s) auto

lemma drop_plain:
  assumes "percent \<notin> set s"
  shows "drop_pairs s = s" and "drop_references s = s"
proof -
  show "drop_pairs s = s" using assms by (induction s rule: drop_pairs.induct) auto
  show "drop_references s = s" using assms by (induction s) (simp_all add: key_reference_percent)
qed

lemma drop_pairs_split:
  "percent \<notin> set a \<Longrightarrow> drop_pairs (a @ percent # s) = a @ drop_pairs (percent # s)"
proof (induction a)
  case (Cons c a)
  then show ?case by (cases a) auto
qed simp

lemma drop_references_split:
  "percent \<notin> set a \<Longrightarrow> drop_references (a @ s) = a @ drop_references s"
  by (induction a) (simp_all add: key_reference_percent)

text \<open>A percent sign that neither is doubled nor opens a reference stays.\<close>

lemma before_set_stray:
  assumes "percent \<notin> set a" and "percent \<notin> set (c # b)" and "c \<noteq> CHR ''(''"
  shows "before_set (a @ percent # c # b) = Inl ValueError"
proof -
  have "drop_pairs (a @ percent # c # b) = a @ percent # c # b"
    using assms drop_plain(1) [of "c # b"] by (auto simp: drop_pairs_split)
  moreover have "percent \<in> set (drop_references (a @ percent # c # b))"
    using assms by (simp add: drop_references_split)
  ultimately show ?thesis by (simp add: before_set_def)
qed

lemma before_set_doubled:
  assumes "percent \<notin> set a" and "percent \<notin> set b"
  shows "before_set (a @ percent # percent # b) = Inr (a @ percent # percent # b)"
proof -
  have "drop_pairs (a @ percent # percent # b) = a @ b" using assms drop_plain(1) by (simp add: drop_pairs_split)
  then show ?thesis using assms drop_plain(2) [of "a @ b"] by (simp add: before_set_def)
qed

lemma interpolate_plain: "percent \<notin> set s \<Longrightarrow> interpolate (Suc d) options s = Inr s"
  by (induction s) (auto simp: prepend_def)

lemma interpolate_split:
  "percent \<notin> set a \<Longrightarrow> interpolate (Suc d) options (a @ s) = prepend a (interpolate (Suc d) options s)"
  by (induction a) (auto simp: prepend_def split: sum.split)

lemma engine_url_interpolated:
  assumes "percent \<notin> set here"
  shows "engine_url here url = interpolate max_interpolation_depth (map_of (alembic_section here url)) url"
proof -
  obtain d where depth: "max_interpolation_depth = Suc d"
    using not0_implies_Suc [of max_interpolation_depth] by (auto simp: max_interpolation_depth_def)
  have template: "interpolate (Suc d) options
      ''%%(year)d%%(month).2d%%(day).2d_%%(hour).2d%%(minute).2d_%%(rev)s_%%(slug)s'' =
      Inr ''%(year)d%(month).2d%(day).2d_%(hour).2d%(minute).2d_%(rev)s_%(slug)s''" for options
    by (simp add: prepend_def)
  show ?thesis
    unfolding engine_url_def get_section_def alembic_section_def Let_def depth
    by (simp add: depth interpolate_plain assms template del: interpolate.simps split: sum.split)
qed

section \<open>The revisions\<close>

text \<open>The database at each of its versions.\<close>

definition at_version :: "migration_state \<Rightarrow> bool" where
  "at_version s \<longleftrightarrow> (ms_schema s, ms_version s) \<in>
     {([], None), (run_operations upgrade_0001 [], Some ''0001_init''), (migrated, Some ''0002_provider_inbox'')}"

lemma execute_all_append:
  "execute_all (xs @ ys) = py_bind (execute_all xs) (\<lambda>_. execute_all ys)"
  by (induction xs) (simp_all add: py_bind_return_left py_bind_assoc)

lemma to_head_simps:
  "to_head None = [revision_0001, revision_0002]"
  "to_head (Some ''0001_init'') = [revision_0002]"
  "to_head (Some ''0002_provider_inbox'') = []"
  by (simp_all add: to_head_def script_directory_def revision_0001_def revision_0002_def)

lemma upgrade_0001_runs:
  "ms_schema s = [] \<Longrightarrow> execute_all (revision_statements revision_0001) s =
     (Inr (), s\<lparr>ms_schema := run_operations upgrade_0001 [], ms_version := Some ''0001_init''\<rparr>)"
  by (simp add: revision_statements_def revision_0001_def upgrade_0001_def run_operations_def
      named_def py_bind_def py_simps index_names_def)

lemma upgrade_0002_runs:
  "ms_schema s = run_operations upgrade_0001 [] \<Longrightarrow> execute_all (revision_statements revision_0002) s =
     (Inr (), s\<lparr>ms_schema := migrated, ms_version := Some ''0002_provider_inbox''\<rparr>)"
  by (simp add: revision_statements_def revision_0002_def upgrade_0001_def upgrade_0002_def migrated_def
      run_operations_def named_def py_bind_def py_simps index_names_def)

lemma path_runs:
  assumes "at_version s"
  shows "execute_all (path_statements (to_head (ms_version s))) s =
    (Inr (), s\<lparr>ms_schema := migrated, ms_version := Some ''0002_provider_inbox''\<rparr>)"
proof -
  consider "ms_schema s = []" "ms_version s = None"
    | "ms_schema s = run_operations upgrade_0001 []" "ms_version s = Some ''0001_init''"
    | "ms_schema s = migrated" "ms_version s = Some ''0002_provider_inbox''"
    using assms by (auto simp: at_version_def)
  then show ?thesis
  proof cases
    case 1
    then show ?thesis
      by (simp add: to_head_simps path_statements_def execute_all_append py_bind_def upgrade_0001_runs
          upgrade_0002_runs)
  next
    case 2
    then show ?thesis by (simp add: to_head_simps path_statements_def upgrade_0002_runs)
  next
    case 3
    then show ?thesis by (cases s) (simp add: to_head_simps path_statements_def py_simps)
  qed
qed

section \<open>What a run does\<close>

lemma show_nat_plain: "percent \<notin> set (show_nat n)"
proof (induction n rule: show_nat.induct)
  case (1 n)
  have digit: "percent \<noteq> digit_char k" if "k < 10" for k
    using that by (auto simp: digit_char_def eval_nat_numeral less_Suc_eq)
  show ?case using 1 digit by (subst show_nat.simps) auto
qed

definition plain_around_password :: "settings \<Rightarrow> bool" where
  "plain_around_password st \<longleftrightarrow>
     percent \<notin> set (postgres_user st) \<union> set (postgres_host st) \<union> set (postgres_db st)"

lemma before_set_plain: "percent \<notin> set url \<Longrightarrow> before_set url = Inr url"
  by (simp add: before_set_def drop_plain)

lemma execute_all_keeps:
  "execute_all xs s = (r, s') \<Longrightarrow> ms_script s' = ms_script s \<and> ms_disposed s' = ms_disposed s"
proof (induction xs arbitrary: s)
  case (Cons x xs)
  then show ?case by (cases x) (auto simp: py_bind_def py_simps split: if_splits)
qed (simp add: py_simps)

lemma do_run_migrations_at_version:
  "at_version s \<Longrightarrow> do_run_migrations s =
     (Inr (), s\<lparr>ms_schema := migrated, ms_version := Some ''0002_provider_inbox''\<rparr>)"
  by (simp add: do_run_migrations_def begin_transaction_def path_runs)

text \<open>
  C33: \<^verbatim>\<open>alembic upgrade head\<close>, when the address has no percent sign and the database can be
  reached: from an empty database, from the first revision and from the head alike the
  database ends at the head revision with the tables of the models (\<open>target_metadata\<close>, up to
  the server defaults and the name of the check that \<open>as_migrated\<close> spells out), and the engine
  is disposed of; a second run changes nothing.
\<close>

theorem migrate_reaches_head:
  assumes "percent \<notin> set (database_url st)" and "percent \<notin> set here"
    and "connect (database_url st) = Inr ()" and "at_version s"
    and "s' = s\<lparr>ms_schema := map as_migrated target_metadata, ms_version := Some ''0002_provider_inbox'',
               ms_disposed := True\<rparr>"
  shows "migration_env st here False connect s = (Inr (), s') \<and> migration_env st here False connect s' = (Inr (), s')"
proof -
  obtain d where depth: "max_interpolation_depth = Suc d"
    using not0_implies_Suc [of max_interpolation_depth] by (auto simp: max_interpolation_depth_def)
  have url: "engine_url here (database_url st) = Inr (database_url st)"
    using assms(1,2) by (simp add: engine_url_interpolated depth interpolate_plain)
  have run: "migration_env st here False connect q = (Inr (), q\<lparr>ms_schema := migrated,
      ms_version := Some ''0002_provider_inbox'', ms_disposed := True\<rparr>)" if "at_version q" for q
    using assms(1,3) that
    by (simp add: migration_env_def run_migrations_online_def before_set_plain url py_bind_def py_simps
        do_run_migrations_at_version)
  have "at_version s'" by (simp add: at_version_def assms(5) migrated_declared)
  then show ?thesis using run [OF assms(4)] run [of s'] by (simp add: assms(5) migrated_declared)
qed

text \<open>
  A run that fails, wherever it does, leaves the database, its version and the script as
  they were.
\<close>

theorem migration_all_or_nothing:
  assumes "migration_env st here offline connect s = (Inl e, s')"
  shows "s' = s"
proof -
  have tx: "q' = q" if "do_run_migrations q = (Inl x, q')" for q q' x
    using that execute_all_keeps [of "path_statements (to_head (ms_version q))" q]
    by (auto simp: do_run_migrations_def begin_transaction_def split: prod.splits sum.splits)
  show ?thesis
    using assms tx
    by (auto simp: migration_env_def run_migrations_offline_def run_migrations_online_def py_bind_def py_simps
        split: prod.splits sum.splits if_splits)
qed

text \<open>
  The script an offline run writes, executed on an empty database, gives what an online
  run makes of it.
\<close>

theorem offline_script_is_online_run:
  assumes "ms_schema s = []" and "ms_version s = None" and "ms_script s = []"
  shows "fst (execute_all (ms_script (snd (run_migrations_offline s))) s) = Inr () \<and>
    snd (execute_all (ms_script (snd (run_migrations_offline s))) s) = snd (do_run_migrations s) \<and>
    ms_schema (snd (do_run_migrations s)) = migrated"
proof -
  have at: "at_version s" using assms by (simp add: at_version_def)
  show ?thesis
    using path_runs [OF at] assms
    by (simp add: run_migrations_offline_def py_simps do_run_migrations_at_version [OF at])
qed

text \<open>
  C34: what a percent sign in the password does. Percent-encoding a character, which is how an
  address carries one that is special to it, makes every migration fail, in both modes and
  before the database is reached; a doubled percent sign is read back as one, so that the
  migrations use another password than the processes.
\<close>

theorem migration_password_percent:
  assumes "plain_around_password st" and "percent \<notin> set here" and "percent \<notin> set a" and "percent \<notin> set b"
  shows "(postgres_password st = a @ percent # c # b \<longrightarrow> c \<noteq> percent \<longrightarrow> c \<noteq> CHR ''('' \<longrightarrow>
      migration_env st here offline connect s = (Inl ValueError, s)) \<and>
    (postgres_password st = a @ percent # percent # b \<longrightarrow>
      before_set (database_url st) = Inr (database_url st) \<and>
      engine_url here (database_url st) = Inr (database_url (st\<lparr>postgres_password := a @ percent # b\<rparr>)))"
proof -
  let ?before = "''postgresql+asyncpg://'' @ postgres_user st @ '':''"
  let ?after = "''@'' @ postgres_host st @ '':'' @ show_nat (postgres_port st) @ ''/'' @ postgres_db st"
  have split: "database_url (st\<lparr>postgres_password := pw\<rparr>) = ?before @ pw @ ?after" for pw
    by (simp add: database_url_def)
  have plain: "percent \<notin> set (?before @ a)" "percent \<notin> set (b @ ?after)"
    using assms show_nat_plain [of "postgres_port st"] by (auto simp: plain_around_password_def)
  have url: "database_url st = ?before @ postgres_password st @ ?after" by (simp add: database_url_def)
  obtain d where depth: "max_interpolation_depth = Suc d"
    using not0_implies_Suc [of max_interpolation_depth] by (auto simp: max_interpolation_depth_def)
  have first: "migration_env st here offline connect s = (Inl ValueError, s)"
    if "postgres_password st = a @ percent # c # b" "c \<noteq> percent" "c \<noteq> CHR ''(''"
    using before_set_stray [OF plain(1), of c "b @ ?after"] plain(2) that
    by (simp add: migration_env_def url py_bind_def py_simps)
  have second: "before_set (database_url st) = Inr (database_url st) \<and>
      engine_url here (database_url st) = Inr (database_url (st\<lparr>postgres_password := a @ percent # b\<rparr>))"
    if "postgres_password st = a @ percent # percent # b"
  proof -
    have "interpolate (Suc d) options ((?before @ a) @ percent # percent # b @ ?after) =
        Inr ((?before @ a) @ percent # b @ ?after)" for options
      using interpolate_plain [OF plain(2)]
      by (subst interpolate_split [OF plain(1)]) (simp add: prepend_def)
    then show ?thesis
      using before_set_doubled [OF plain] that
      by (simp add: url split engine_url_interpolated assms(2) depth)
  qed
  show ?thesis using first second by blast
qed

section \<open>Samples\<close>

definition empty_migration :: migration_state where
  "empty_migration = \<lparr>ms_schema = [], ms_version = None, ms_script = [], ms_disposed = False\<rparr>"

lemma default_plain:
  "plain_around_password (default_settings key)" "percent \<notin> set (database_url (default_settings key))"
  using show_nat_plain [of 5432] by (auto simp: plain_around_password_def default_settings_def database_url_def)

theorem migrate_reaches_head_witness:
  "\<exists>s. migration_env (default_settings ''secret'') ''/app'' False (\<lambda>_. Inr ()) empty_migration = (Inr (), s) \<and>
    migration_env (default_settings ''secret'') ''/app'' False (\<lambda>_. Inr ()) s = (Inr (), s) \<and> ms_schema s = map as_migrated target_metadata"
  using migrate_reaches_head [OF default_plain(2), of "''/app''" "\<lambda>_. Inr ()" _ empty_migration]
  by (simp add: at_version_def empty_migration_def)

text \<open>A table that is there already, in a database alembic knows nothing of.\<close>

theorem migration_all_or_nothing_witness:
  "let s = empty_migration\<lparr>ms_schema := [ticket_model]\<rparr> in
   migration_env (default_settings ''secret'') ''/app'' False (\<lambda>_. Inr ()) s =
     (Inl (OtherError ''ProgrammingError''), s)"
proof -
  let ?s = "empty_migration\<lparr>ms_schema := [ticket_model]\<rparr>"
  obtain d where depth: "max_interpolation_depth = Suc d"
    using not0_implies_Suc [of max_interpolation_depth] by (auto simp: max_interpolation_depth_def)
  have "engine_url ''/app'' (database_url (default_settings key)) = Inr (database_url (default_settings key))" for key
    using interpolate_plain [OF default_plain(2)] by (simp add: engine_url_interpolated depth)
  moreover have "fst (do_run_migrations ?s) = Inl (OtherError ''ProgrammingError'')"
    by (simp add: do_run_migrations_def begin_transaction_def empty_migration_def to_head_simps path_statements_def
        revision_statements_def revision_0001_def upgrade_0001_def py_bind_def py_simps index_names_def ticket_model_def)
  ultimately have "fst (migration_env (default_settings ''secret'') ''/app'' False (\<lambda>_. Inr ()) ?s) =
      Inl (OtherError ''ProgrammingError'')"
    by (auto simp: migration_env_def run_migrations_online_def before_set_plain default_plain py_bind_def py_simps
        split: prod.splits)
  then show ?thesis
    using migration_all_or_nothing [of "default_settings ''secret''" "''/app''" False "\<lambda>_. Inr ()" ?s]
    by (cases "migration_env (default_settings ''secret'') ''/app'' False (\<lambda>_. Inr ()) ?s") (simp add: Let_def)
qed

theorem offline_script_is_online_run_witness:
  "ms_schema (snd (execute_all (ms_script (snd (run_migrations_offline empty_migration))) empty_migration)) = migrated"
  using offline_script_is_online_run [of empty_migration] by (simp add: empty_migration_def)

theorem migration_password_percent_witness:
  "migration_env ((default_settings ''secret'')\<lparr>postgres_password := ''p%40ss''\<rparr>) ''/app'' True (\<lambda>_. Inr ())
     empty_migration = (Inl ValueError, empty_migration)"
  using migration_password_percent [of "(default_settings ''secret'')\<lparr>postgres_password := ''p%40ss''\<rparr>" "''/app''"
      "''p''" "''0ss''" "CHR ''4''" True "\<lambda>_. Inr ()" empty_migration] default_plain(1) [of "''secret''"]
  by (simp add: plain_around_password_def)

end
