(* ===== verification/Logging.thy ===== *)
theory Logging
  imports Config
begin

text \<open>
  \<^verbatim>\<open>backend/logging.py\<close>: the root logger of a process, configured from the setting
  \<^verbatim>\<open>log_level\<close>. The level is an attribute of the module \<^verbatim>\<open>logging\<close> of the standard library,
  looked up by its name in upper case.
\<close>

section \<open>The module logging\<close>

text \<open>
  The attributes of the module whose names have no lower case letter: the levels, and two
  that are no levels.
\<close>

datatype log_attribute = Level nat | Text_attribute | Table_attribute

definition logging_attributes :: "(string \<times> log_attribute) list" where
  "logging_attributes =
     [(''CRITICAL'', Level 50), (''FATAL'', Level 50), (''ERROR'', Level 40), (''WARNING'', Level 30),
      (''WARN'', Level 30), (''INFO'', Level 20), (''DEBUG'', Level 10), (''NOTSET'', Level 0),
      (''BASIC_FORMAT'', Text_attribute), (''_STYLES'', Table_attribute)]"

definition ascii_upper :: "char \<Rightarrow> char" where
  "ascii_upper ch = (let n = of_char ch :: nat in if 97 \<le> n \<and> n \<le> 122 then char_of (n - 32) else ch)"

record log_handler =
  lh_stream :: string
  lh_format :: string

record root_logger =
  rl_handlers :: "log_handler list"
  rl_level :: nat

type_synonym 'a logging = "(exn, root_logger, 'a) py"

text \<open>\<^verbatim>\<open>setLevel\<close>: a text must be the name of a level, anything but a text or a number is refused.\<close>

definition set_level :: "log_attribute \<Rightarrow> unit logging" where
  "set_level level =
     (case level of
        Level n \<Rightarrow> py_modify (\<lambda>r. r\<lparr>rl_level := n\<rparr>)
      | Text_attribute \<Rightarrow> py_raise ValueError
      | Table_attribute \<Rightarrow> py_raise (OtherError ''TypeError''))"

section \<open>configure_logging\<close>

definition log_level_of :: "settings \<Rightarrow> log_attribute" where
  "log_level_of st =
     (case map_of logging_attributes (map ascii_upper (log_level st)) of
        Some level \<Rightarrow> level | None \<Rightarrow> Level 20)"

definition stdout_handler :: log_handler where
  "stdout_handler =
     \<lparr>lh_stream = ''stdout'', lh_format = ''%(asctime)s %(levelname)s %(name)s %(message)s''\<rparr>"

definition configure_logging :: "settings \<Rightarrow> unit logging" where
  "configure_logging st =
     py_bind (py_modify (\<lambda>r. r\<lparr>rl_handlers := [stdout_handler]\<rparr>)) (\<lambda>_. set_level (log_level_of st))"

text \<open>The records the root logger writes: one line for each handler.\<close>

definition lines_for :: "nat \<Rightarrow> root_logger \<Rightarrow> log_handler list" where
  "lines_for level r = (if rl_level r \<le> level then rl_handlers r else [])"

section \<open>What it configures\<close>

definition level_names :: "string set" where
  "level_names = {''CRITICAL'', ''FATAL'', ''ERROR'', ''WARNING'', ''WARN'', ''INFO'', ''DEBUG'', ''NOTSET''}"

lemma attribute_cases:
  "map_of logging_attributes n = None \<and> n \<notin> level_names \<or>
   (\<exists>k. map_of logging_attributes n = Some (Level k) \<and> k \<le> 50) \<or>
   map_of logging_attributes n \<in> {Some Text_attribute, Some Table_attribute} \<and> n \<in> {''BASIC_FORMAT'', ''_STYLES''}"
  by (auto simp: logging_attributes_def level_names_def)

text \<open>
  The level named in the settings, in letters of either case, is the one set, an unknown
  name stands for \<^verbatim>\<open>INFO\<close>, and however often it is configured there is one handler, so that no
  line is written twice. Two names are attributes of the module but no levels; with these
  the configuration raises.
\<close>

theorem logging_configured:
  "let name = map ascii_upper (log_level st) in
   if name \<in> {''BASIC_FORMAT'', ''_STYLES''}
   then (\<exists>e. configure_logging st r = (Inl e, r\<lparr>rl_handlers := [stdout_handler]\<rparr>))
   else (\<exists>k \<le> 50. configure_logging st r = (Inr (), \<lparr>rl_handlers = [stdout_handler], rl_level = k\<rparr>) \<and>
      (name \<notin> level_names \<longrightarrow> k = 20) \<and>
      configure_logging st (snd (configure_logging st r)) = configure_logging st r \<and>
      (\<forall>level. length (lines_for level (snd (configure_logging st r))) = (if k \<le> level then 1 else 0)))"
proof -
  define name where "name = map ascii_upper (log_level st)"
  have run: "configure_logging st q = set_level (log_level_of st) (q\<lparr>rl_handlers := [stdout_handler]\<rparr>)" for q
    by (simp add: configure_logging_def py_bind_def py_simps)
  consider (no_level) "name \<in> {''BASIC_FORMAT'', ''_STYLES''}"
    | (level) k where "name \<notin> {''BASIC_FORMAT'', ''_STYLES''}" "log_level_of st = Level k" "k \<le> 50"
        "name \<notin> level_names \<longrightarrow> k = 20"
    using attribute_cases [of name]
    by (auto simp: log_level_of_def name_def [symmetric] logging_attributes_def level_names_def split: if_splits)
  then show ?thesis
  proof cases
    case no_level
    then have "log_level_of st \<in> {Text_attribute, Table_attribute}"
      by (auto simp: log_level_of_def name_def [symmetric] logging_attributes_def)
    with no_level show ?thesis
      by (auto simp: run set_level_def py_simps name_def [symmetric] Let_def)
  next
    case (level k)
    have set: "configure_logging st q = (Inr (), \<lparr>rl_handlers = [stdout_handler], rl_level = k\<rparr>)" for q
      by (cases q) (simp add: run set_level_def level(2) py_simps)
    show ?thesis
      unfolding Let_def name_def [symmetric] set
      using level(1,3,4) by (auto simp: lines_for_def One_nat_def)
  qed
qed

theorem logging_configured_witness:
  "configure_logging ((default_settings ''secret-key'')\<lparr>log_level := ''verbose''\<rparr>) \<lparr>rl_handlers = [], rl_level = 30\<rparr> =
     (Inr (), \<lparr>rl_handlers = [stdout_handler], rl_level = 20\<rparr>)"
proof -
  have "map ascii_upper ''verbose'' = ''VERBOSE''" by code_simp
  then show ?thesis
    using logging_configured [of "(default_settings ''secret-key'')\<lparr>log_level := ''verbose''\<rparr>"
        "\<lparr>rl_handlers = [], rl_level = 30\<rparr>"]
    by (auto simp: level_names_def Let_def)
qed

end
