(* ===== verification/Routes.thy ===== *)
theory Routes
  imports Api_Properties Entry_Points
begin

text \<open>
  The application of \<^verbatim>\<open>api/app.py\<close> as a whole: the routes that \<^verbatim>\<open>create_app\<close>, \<^verbatim>\<open>api/v1/router.py\<close>
  and \<^verbatim>\<open>api/v1/tickets.py\<close> register, which of them a method and a path reach, what the
  dependencies of \<^verbatim>\<open>api/deps.py\<close> take from the request, and what the endpoint does to the state
  of the process and to the database. The body of a request is parsed JSON already.
\<close>

section \<open>The routes\<close>

text \<open>A path is matched whole; the parameter of a route is one segment, not empty.\<close>

datatype template = Fixed string | With_segment string

fun template_match :: "template \<Rightarrow> string \<Rightarrow> string option" where
  "template_match (Fixed t) p = (if p = t then Some '''' else None)"
| "template_match (With_segment t) p =
     (let x = drop (length t) p
      in if take (length t) p = t \<and> x \<noteq> '''' \<and> CHR ''/'' \<notin> set x then Some x else None)"

datatype endpoint =
    Create_ticket | Get_ticket | Health_live | Health_ready | Health_startup | Health_legacy | Metrics_page

record route =
  rt_method :: string
  rt_template :: template
  rt_endpoint :: endpoint

text \<open>\<^verbatim>\<open>APIRouter(prefix="/api/v1")\<close> includes the router of the tickets with its own prefix.\<close>

definition api_prefix :: string where
  "api_prefix = ''/api/v1''"

definition tickets_prefix :: string where
  "tickets_prefix = ''/tickets''"

definition tickets_router :: "string \<Rightarrow> route list" where
  "tickets_router prefix =
     [\<lparr>rt_method = ''POST'', rt_template = Fixed (prefix @ tickets_prefix), rt_endpoint = Create_ticket\<rparr>,
      \<lparr>rt_method = ''GET'', rt_template = With_segment (prefix @ tickets_prefix @ ''/''), rt_endpoint = Get_ticket\<rparr>]"

definition api_router :: "route list" where
  "api_router = tickets_router api_prefix"

definition create_app :: "route list" where
  "create_app = api_router @
     [\<lparr>rt_method = ''GET'', rt_template = Fixed ''/health/live'', rt_endpoint = Health_live\<rparr>,
      \<lparr>rt_method = ''GET'', rt_template = Fixed ''/health/ready'', rt_endpoint = Health_ready\<rparr>,
      \<lparr>rt_method = ''GET'', rt_template = Fixed ''/health/startup'', rt_endpoint = Health_startup\<rparr>,
      \<lparr>rt_method = ''GET'', rt_template = Fixed ''/health'', rt_endpoint = Health_legacy\<rparr>,
      \<lparr>rt_method = ''GET'', rt_template = Fixed ''/metrics'', rt_endpoint = Metrics_page\<rparr>]"

text \<open>
  Of the routes whose template matches, the first one with the method is taken; without one
  the answer is 405, and 404 when no template matches. (FastAPI's own pages for its schema,
  and its redirection of a path with a slash too many, are left out: both come before or in
  place of a 404 and touch no state of the program.)
\<close>

datatype routed = To endpoint string | Method_not_allowed | Not_found

definition route_request :: "route list \<Rightarrow> string \<Rightarrow> string \<Rightarrow> routed" where
  "route_request routes method path =
     (let fits = filter (\<lambda>r. template_match (rt_template r) path \<noteq> None) routes
      in case filter (\<lambda>r. rt_method r = method) fits of
           r # _ \<Rightarrow> To (rt_endpoint r) (the (template_match (rt_template r) path))
         | [] \<Rightarrow> if fits = [] then Not_found else Method_not_allowed)"

section \<open>Requests\<close>

text \<open>The names of the headers as they are in the ASGI scope, in lower case.\<close>

record http_request =
  hr_method :: string
  hr_path :: string
  hr_headers :: "(string \<times> string) list"
  hr_body :: json

definition api_key_header :: "http_request \<Rightarrow> string option" where
  "api_key_header rq = map_of (hr_headers rq) ''x-api-key''"

definition idempotency_header :: "http_request \<Rightarrow> string option" where
  "idempotency_header rq = map_of (hr_headers rq) ''idempotency-key''"

text \<open>The state of the process, \<^verbatim>\<open>app.state\<close> and the gauges, next to the session on the database.\<close>

record 'w app_state =
  as_sess :: sess
  as_registry :: "'w probe_registry"
  as_gauges :: gauges

datatype http_response =
    Api_response response
  | Probe_response probe_response
  | Metrics_text gauges metrics

definition error_answer :: "nat \<Rightarrow> string \<Rightarrow> http_response" where
  "error_answer code detail = Api_response (error_response (HTTPException code detail))"

fun post_body ::
  "codec \<Rightarrow> settings \<Rightarrow> ambient \<Rightarrow> string option \<Rightarrow> string option \<Rightarrow> json \<Rightarrow> sess \<Rightarrow> response \<times> sess" where
  "post_body c st w key idem (JObj payload) s = post_tickets c st w key idem payload s"
| "post_body c st w key idem _ s =
     respond (py_bind (py_lift (require_api_key st key)) (\<lambda>_. py_raise request_validation_error)) s"

fun run_endpoint ::
  "codec \<Rightarrow> settings \<Rightarrow> ambient \<Rightarrow> 'w \<Rightarrow> instant \<Rightarrow> http_request \<Rightarrow> endpoint \<Rightarrow> string \<Rightarrow> 'w app_state \<Rightarrow>
   http_response \<times> 'w app_state" where
  "run_endpoint c st w x now rq Create_ticket arg a =
     (let (r, s) = post_body c st w (api_key_header rq) (idempotency_header rq) (hr_body rq) (as_sess a)
      in (Api_response r, a\<lparr>as_sess := s\<rparr>))"
| "run_endpoint c st w x now rq Get_ticket arg a =
     (let (r, s) = get_tickets st (api_key_header rq) (uuid_load c (JStr arg)) (as_sess a)
      in (Api_response r, a\<lparr>as_sess := s\<rparr>))"
| "run_endpoint c st w x now rq Health_live arg a = (Probe_response (health_live (as_registry a)), a)"
| "run_endpoint c st w x now rq Health_ready arg a =
     (let (r, reg, g) = health_ready x now (as_registry a, as_gauges a)
      in (Probe_response r, a\<lparr>as_registry := reg, as_gauges := g\<rparr>))"
| "run_endpoint c st w x now rq Health_startup arg a =
     (let (r, reg) = health_startup x now (as_registry a) in (Probe_response r, a\<lparr>as_registry := reg\<rparr>))"
| "run_endpoint c st w x now rq Health_legacy arg a = (Probe_response health_legacy, a)"
| "run_endpoint c st w x now rq Metrics_page arg a = (Metrics_text (as_gauges a) (counters (as_sess a)), a)"

definition handle_request ::
  "codec \<Rightarrow> settings \<Rightarrow> ambient \<Rightarrow> 'w \<Rightarrow> instant \<Rightarrow> http_request \<Rightarrow> 'w app_state \<Rightarrow>
   http_response \<times> 'w app_state" where
  "handle_request c st w x now rq a =
     (case route_request create_app (hr_method rq) (hr_path rq) of
        To e arg \<Rightarrow> run_endpoint c st w x now rq e arg a
      | Method_not_allowed \<Rightarrow> (error_answer 405 ''Method Not Allowed'', a)
      | Not_found \<Rightarrow> (error_answer 404 ''Not Found'', a))"

section \<open>Which route a request reaches\<close>

lemma segment_match:
  "template_match (With_segment t) p = Some x \<longleftrightarrow> p = t @ x \<and> x \<noteq> '''' \<and> CHR ''/'' \<notin> set x"
proof
  assume m: "template_match (With_segment t) p = Some x"
  then have "take (length t) p = t" "x = drop (length t) p" "x \<noteq> ''''" "CHR ''/'' \<notin> set x"
    by (auto simp: Let_def split: if_splits)
  then show "p = t @ x \<and> x \<noteq> '''' \<and> CHR ''/'' \<notin> set x" by (metis append_take_drop_id)
qed (simp add: Let_def)

lemmas app_routes = create_app_def api_router_def tickets_router_def api_prefix_def tickets_prefix_def

text \<open>The pages of one path, and the method each takes.\<close>

definition fixed_pages :: "(string \<times> string \<times> endpoint) list" where
  "fixed_pages =
     [(''/api/v1/tickets'', ''POST'', Create_ticket), (''/health/live'', ''GET'', Health_live),
      (''/health/ready'', ''GET'', Health_ready), (''/health/startup'', ''GET'', Health_startup),
      (''/health'', ''GET'', Health_legacy), (''/metrics'', ''GET'', Metrics_page)]"

lemma app_routing:
  "route_request create_app method path =
    (if \<exists>x. path = ''/api/v1/tickets/'' @ x \<and> x \<noteq> '''' \<and> CHR ''/'' \<notin> set x
     then (if method = ''GET'' then To Get_ticket (drop (length ''/api/v1/tickets/'') path) else Method_not_allowed)
     else (case map_of fixed_pages path of
             None \<Rightarrow> Not_found
           | Some (m, e) \<Rightarrow> if method = m then To e '''' else Method_not_allowed))"
proof (cases "\<exists>x. path = ''/api/v1/tickets/'' @ x \<and> x \<noteq> '''' \<and> CHR ''/'' \<notin> set x")
  case True
  then obtain x where x: "path = ''/api/v1/tickets/'' @ x" "x \<noteq> ''''" "CHR ''/'' \<notin> set x" by blast
  then have "template_match (With_segment ''/api/v1/tickets/'') path = Some x" by (simp only: segment_match) simp
  moreover have "drop (length ''/api/v1/tickets/'') path = x" by (simp add: x(1))
  ultimately show ?thesis
    using True x(1) by (simp add: route_request_def app_routes del: template_match.simps(2))
next
  case False
  then have none: "template_match (With_segment ''/api/v1/tickets/'') path = None"
    using segment_match [of "''/api/v1/tickets/''" path] by (metis not_Some_eq)
  have list: "template_match (With_segment ''/api/v1/tickets/'') ''/api/v1/tickets'' = None" by simp
  have "route_request create_app method path =
      (case map_of fixed_pages path of
         None \<Rightarrow> Not_found
       | Some (m, e) \<Rightarrow> if method = m then To e '''' else Method_not_allowed)"
    by (simp add: route_request_def app_routes fixed_pages_def none list del: template_match.simps(2))
  then show ?thesis by (simp only: False if_False)
qed

text \<open>
  The routing of the interface. A creation is reached by \<^verbatim>\<open>POST /api/v1/tickets\<close> only, a
  ticket by \<^verbatim>\<open>GET\<close> of that path, a slash and one segment, the health pages and the metrics by
  \<^verbatim>\<open>GET\<close> of their paths; a known path with another method is answered 405, any other path 404.
\<close>

theorem routes_of_app:
  "route_request create_app method path =
    (if \<exists>x. path = ''/api/v1/tickets/'' @ x \<and> x \<noteq> '''' \<and> CHR ''/'' \<notin> set x
     then (if method = ''GET'' then To Get_ticket (drop (length ''/api/v1/tickets/'') path) else Method_not_allowed)
     else (case map_of fixed_pages path of
             None \<Rightarrow> Not_found
           | Some (m, e) \<Rightarrow> if method = m then To e '''' else Method_not_allowed))"
  by (rule app_routing)

section \<open>Which requests change the database\<close>

lemma post_body_without_key:
  "key \<noteq> Some (api_key st) \<Longrightarrow> ascii (api_key st) \<Longrightarrow> snd (post_body c st w key idem body s) = s"
  using wrong_key [of key st]
  by (cases body)
    (auto simp: post_tickets_def respond_def create_endpoint_def py_bind_def py_lift_def)

lemma post_body_no_object:
  "\<nexists>d. body = JObj d \<Longrightarrow> snd (post_body c st w key idem body s) = s"
  by (cases body; cases "require_api_key st key") (auto simp: respond_def py_bind_def py_lift_def py_raise_def)

text \<open>
  C28: whatever request the API answers, with whatever method, path, headers and body: when
  the database is another one afterwards, it was a \<^verbatim>\<open>POST\<close> to \<^verbatim>\<open>/api/v1/tickets\<close> with the right
  key and an object for a body. The other pages, the health checks among them, need no key
  and change nothing.
\<close>

theorem database_changes_by_creation_only:
  assumes "ascii (api_key st)"
    and "committed (as_sess (snd (handle_request c st w x now rq a))) \<noteq> committed (as_sess a)"
  shows "hr_method rq = ''POST'' \<and> hr_path rq = ''/api/v1/tickets'' \<and>
    api_key_header rq = Some (api_key st) \<and> (\<exists>d. hr_body rq = JObj d)"
proof -
  obtain e arg where route: "route_request create_app (hr_method rq) (hr_path rq) = To e arg"
    using assms(2) by (auto simp: handle_request_def split: routed.splits)
  have get: "committed q = committed (as_sess a)" if "get_tickets st key i (as_sess a) = (x, q)" for key i x q
    using get_tickets_committed [of st key i "as_sess a"] that by simp
  have e: "e = Create_ticket"
    using assms(2) get
    by (cases e) (auto simp: handle_request_def route split: prod.splits)
  have "hr_method rq = ''POST'' \<and> hr_path rq = ''/api/v1/tickets''"
    using route unfolding e app_routing
    by (auto simp: fixed_pages_def split: if_splits)
  moreover have "post_body c st w (api_key_header rq) (idempotency_header rq) (hr_body rq) (as_sess a) \<noteq>
      (r, as_sess a)" for r
    using assms(2) by (auto simp: handle_request_def route e)
  then have "snd (post_body c st w (api_key_header rq) (idempotency_header rq) (hr_body rq) (as_sess a)) \<noteq> as_sess a"
    by (metis prod.collapse)
  ultimately show ?thesis
    using post_body_without_key [OF _ assms(1)] post_body_no_object by blast
qed

definition sample_post :: http_request where
  "sample_post =
     \<lparr>hr_method = ''POST'', hr_path = ''/api/v1/tickets'',
      hr_headers = [(''x-api-key'', ''secret-key''), (''idempotency-key'', ''k2'')], hr_body = JObj sample_payload\<rparr>"

definition sample_app :: "bool app_state" where
  "sample_app = \<lparr>as_sess = session_on empty_db, as_registry = sample_registry, as_gauges = sample_gauges\<rparr>"

theorem database_changes_by_creation_only_witness:
  "committed (as_sess (snd (handle_request ref_codec sample_settings (sample_ambient 0 id) True 5 sample_post sample_app))) \<noteq>
     committed (as_sess sample_app) \<and> api_key_header sample_post = Some (api_key sample_settings)"
proof -
  let ?post = "post_tickets ref_codec sample_settings (sample_ambient 0 id) (Some ''secret-key'') (Some ''k2'')
      sample_payload (session_on empty_db)"
  have key: "require_api_key sample_settings (Some ''secret-key'') = Inr ()"
    using right_key [of sample_settings] by simp
  obtain r s' m where post: "?post = (r, s')" and s': "committed s' = with_ticket ref_codec (sample_ambient 0 id)
      (new_ticket 100 ''k2'' (service_request ref_codec sample_create_request) (tcr_currency sample_create_request)) m empty_db"
    using post_stores [OF ref_codec_ok key sample_payload_valid, of "''k2''" "sample_ambient 0 id" "session_on empty_db"]
    by auto
  have route: "route_request create_app ''POST'' ''/api/v1/tickets'' = To Create_ticket ''''"
    by (simp add: app_routing fixed_pages_def)
  have "tickets (committed s') \<noteq> tickets empty_db" by (simp add: s' with_ticket_def insert_row_def)
  then have new: "committed s' \<noteq> empty_db" by (rule contrapos_nn) simp
  have changed: "committed (as_sess (snd (handle_request ref_codec sample_settings (sample_ambient 0 id) True 5
      sample_post sample_app))) \<noteq> committed (as_sess sample_app)"
    by (simp add: handle_request_def sample_post_def sample_app_def route api_key_header_def idempotency_header_def
        post new)
  show ?thesis
    using changed database_changes_by_creation_only [OF _ changed] by simp
qed

end
