(* ===== verification/State_Machine.thy ===== *)
theory State_Machine
  imports System_Properties Reconciler_Properties
begin

text \<open>
  The state machine of a ticket. \<open>documented\<close> is the diagram of the README; \<open>follows\<close> is what a
  call of a process can do to the status of a ticket when no other call interferes with it.
  The theory shows that every call of every process keeps to \<open>follows\<close>, so that a final ticket
  stays final in every history of calls one after the other, and which of the changes are not
  in the diagram.
\<close>

section \<open>The changes of a status\<close>

definition documented :: "(ticket_status \<times> ticket_status) set" where
  "documented =
     {(NEW, SENT_TO_PROVIDER), (SENT_TO_PROVIDER, RECOMMENDED_CONFIRM), (SENT_TO_PROVIDER, RECOMMENDED_DECLINE),
      (RECOMMENDED_CONFIRM, SETTLED), (RECOMMENDED_DECLINE, SETTLED), (SETTLED, CONFIRMED), (SETTLED, DECLINED),
      (CANCELLATION_REQUESTED, CANCELLED)} \<union>
     {(st, CANCELLATION_REQUESTED) | st. \<not> terminal st}"

definition answered :: "ticket_status set" where
  "answered = {RECOMMENDED_CONFIRM, RECOMMENDED_DECLINE, SETTLED, CONFIRMED, DECLINED, CANCELLATION_REQUESTED}"

definition follows :: "ticket_status \<Rightarrow> ticket_status \<Rightarrow> bool" where
  "follows st st' \<longleftrightarrow>
     st' = st \<or> st' = CANCELLED \<or> (\<not> terminal st \<and> st' \<in> answered) \<or> (st = NEW \<and> st' = SENT_TO_PROVIDER)"

lemma follows_refl [simp]: "follows st st" "follows st CANCELLED"
  by (simp_all add: follows_def)

lemma follows_final: "follows st st' \<Longrightarrow> terminal st \<Longrightarrow> terminal st'"
  by (auto simp: follows_def)

lemma follows_answered: "follows st st' \<Longrightarrow> \<not> terminal st' \<Longrightarrow> to \<in> answered \<Longrightarrow> follows st to"
  by (auto simp: follows_def)

lemma follows_sent: "follows st NEW \<Longrightarrow> follows st SENT_TO_PROVIDER"
  by (auto simp: follows_def answered_def)

lemma answered_simps [simp]:
  "RECOMMENDED_CONFIRM \<in> answered" "RECOMMENDED_DECLINE \<in> answered" "SETTLED \<in> answered"
  "CONFIRMED \<in> answered" "DECLINED \<in> answered" "CANCELLATION_REQUESTED \<in> answered"
  by (simp_all add: answered_def)

section \<open>One unit of work\<close>

text \<open>
  \<open>may d0 i st\<close>: from its status in \<open>d0\<close> the ticket \<open>i\<close> may come to \<open>st\<close>. Rows and objects hold
  such statuses only.
\<close>

definition may :: "database \<Rightarrow> uuid \<Rightarrow> ticket_status \<Rightarrow> bool" where
  "may d0 i st \<longleftrightarrow> (\<forall>r0 \<in> set (tickets d0). t_id r0 = i \<longrightarrow> follows (t_status r0) st)"

abbreviation tracks :: "database \<Rightarrow> ticket \<Rightarrow> bool" where
  "tracks d0 r \<equiv> may d0 (t_id r) (t_status r)"

definition objects_in_step :: "database \<Rightarrow> (uuid \<Rightarrow> (ticket \<times> ticket) option) \<Rightarrow> bool" where
  "objects_in_step d0 os \<longleftrightarrow>
     (\<forall>i l x. os i = Some (l, x) \<longrightarrow>
        t_id l = i \<and> t_id x = i \<and> may d0 i (t_status l) \<and> may d0 i (t_status x))"

definition in_step :: "database \<Rightarrow> sess \<Rightarrow> bool" where
  "in_step d0 s \<longleftrightarrow>
     (\<forall>r \<in> set (tickets (view s)). tracks d0 r) \<and> (\<forall>r \<in> set (tickets (committed s)). tracks d0 r) \<and>
     objects_in_step d0 (objs s)"

lemma objects_empty [simp]: "objects_in_step d0 Map.empty"
  by (simp add: objects_in_step_def)

lemma objectsD:
  assumes "objects_in_step d0 os" and "os i = Some (l, x)"
  shows "t_id l = i" and "t_id x = i" and "may d0 i (t_status l)" and "may d0 i (t_status x)"
  using assms by (auto simp: objects_in_step_def)

lemma objects_put:
  "objects_in_step d0 os \<Longrightarrow> t_id l = i \<Longrightarrow> t_id x = i \<Longrightarrow> tracks d0 l \<Longrightarrow> tracks d0 x \<Longrightarrow>
   objects_in_step d0 (os(i \<mapsto> (l, x)))"
  by (auto simp: objects_in_step_def)

lemma may_simps [simp]: "may d0 i CANCELLED"
  by (simp add: may_def)

lemma may_answered: "may d0 i st \<Longrightarrow> \<not> terminal st \<Longrightarrow> to \<in> answered \<Longrightarrow> may d0 i to"
  unfolding may_def using follows_answered by blast

lemma may_sent: "may d0 i NEW \<Longrightarrow> may d0 i SENT_TO_PROVIDER"
  unfolding may_def using follows_sent by blast

lemma in_step_open:
  assumes "unique_by t_id (tickets (committed s))"
  shows "in_step (committed s) (open_session s)"
proof -
  have "tracks (committed s) r" if "r \<in> set (tickets (committed s))" for r
    unfolding may_def using same_row [OF assms that] follows_refl(1) by metis
  then show ?thesis by (simp add: in_step_def)
qed

lemma step_assign [keeps_intros]:
  assumes "\<And>x. t_id x = i \<Longrightarrow> tracks d0 x \<Longrightarrow> t_id (f x) = i \<and> tracks d0 (f x)"
  shows "keeps (in_step d0) (assign i f)"
proof (rule keepsI)
  fix s assume s: "in_step d0 s"
  show "in_step d0 (snd (assign i f s))"
  proof (cases "objs s i")
    case None
    with s show ?thesis by (simp add: assign_def)
  next
    case (Some lx)
    then obtain l x where o: "objs s i = Some (l, x)" by (cases lx) simp
    have os: "objects_in_step d0 (objs s)" using s by (simp add: in_step_def)
    have "objects_in_step d0 ((objs s)(i \<mapsto> (l, f x)))"
      using objectsD [OF os o] assms [of x] by (intro objects_put [OF os]) auto
    with s o show ?thesis by (simp add: assign_def in_step_def)
  qed
qed

lemma step_attributes [keeps_intros]: "keeps (in_step d0) (attributes i)"
  by (auto simp: keeps_def attributes_def split: option.splits)

lemma step_inc [keeps_intros]: "keeps (in_step d0) (inc m)"
  by (simp add: keeps_def in_step_def inc_def py_modify_def)

lemma step_interfere [keeps_intros]: "quiet w \<Longrightarrow> keeps (in_step d0) (interfere (others w n))"
  by (auto simp: keeps_def in_step_def interfere_def py_modify_def quiet_id)

lemma write_back_tracks:
  assumes "t_id l = t_id r" and "t_id x = t_id r" and "tracks d0 x" and "tracks d0 r"
  shows "tracks d0 (write_back now l x r)"
  using assms by (simp add: write_back_columns changed_def)

lemma step_flush [keeps_intros]: "keeps (in_step d0) (flush now)"
proof (rule keepsI)
  fix s assume s: "in_step d0 s"
  have row: "tracks d0 (flush_row (objs s) now r)" if "r \<in> set (tickets (view s))" for r
  proof (cases "objs s (t_id r)")
    case None
    with s that show ?thesis by (simp add: in_step_def flush_row_def)
  next
    case (Some lx)
    then obtain l x where o: "objs s (t_id r) = Some (l, x)" by (cases lx) simp
    have os: "objects_in_step d0 (objs s)" "tracks d0 r" using s that by (simp_all add: in_step_def)
    show ?thesis
      using write_back_tracks [of l r x d0] objectsD [OF os(1) o] os(2) o by (simp add: flush_row_def)
  qed
  have "objects_in_step d0 (\<lambda>i. map_option (flushed_object now) (objs s i))"
    using s by (auto simp: in_step_def objects_in_step_def flushed_object_def Let_def)
  with s row show "in_step d0 (snd (flush now s))" by (auto simp: flush_def in_step_def)
qed

lemma step_commit [keeps_intros]: "keeps (in_step d0) (commit now)"
  unfolding commit_def
  by (intro keeps_intros) (simp add: keeps_def in_step_def py_modify_def session_options_def)

lemma step_change_status [keeps_intros]:
  "may d0 i to \<Longrightarrow> keeps (in_step d0) (change_status i to do_commit now)"
  unfolding change_status_def Let_def by (intro keeps_intros) simp

text \<open>What changes no ticket.\<close>

lemma step_same_tickets:
  assumes "\<And>s. tickets (view (snd (m s))) = tickets (view s)" and "\<And>s. committed (snd (m s)) = committed s"
    and "\<And>s. objs (snd (m s)) = objs s"
  shows "keeps (in_step d0) m"
  using assms by (simp add: keeps_def in_step_def)

lemma step_outbox_message [keeps_intros]: "keeps (in_step d0) (outbox_message c fresh now i m)"
proof -
  have "keeps (in_step d0) (\<lambda>s. case insert_outbox_event e (view s) of
      Inl x \<Rightarrow> (Inl x, s) | Inr db \<Rightarrow> (Inr (), s\<lparr>view := db\<rparr>))" for e
    by (rule step_same_tickets) (auto dest: insert_outbox_event_ok(1) split: sum.split)
  then show ?thesis unfolding outbox_message_def outbox_add_def by (intro keeps_intros)
qed

text \<open>Reading a ticket: the object has a status the ticket may have come to.\<close>

lemma step_get [keeps_intros]:
  assumes none: "keeps (in_step d0) (f None)"
    and some: "\<And>t. t_id t = i \<Longrightarrow> tracks d0 t \<Longrightarrow> keeps (in_step d0) (f (Some t))"
  shows "keeps (in_step d0) (py_bind (get_by_id_for_update i) f)"
proof (rule keepsI)
  fix s assume s: "in_step d0 s"
  consider (none) "select_by t_id i (tickets (view s)) = []"
    | (one) r where "select_by t_id i (tickets (view s)) = [r]"
    | (more) r q qs where "select_by t_id i (tickets (view s)) = r # q # qs"
    by (metis neq_Nil_conv)
  then show "in_step d0 (snd (py_bind (get_by_id_for_update i) f s))"
  proof cases
    case none
    with keepsD [OF assms(1) s] show ?thesis
      by (simp add: py_bind_def get_by_id_for_update_def scalar_one_or_none_def)
  next
    case (one r)
    note r = select_member [OF one]
    show ?thesis
    proof (cases "objs s i")
      case None
      let ?s = "s\<lparr>objs := (objs s)(i \<mapsto> (r, r))\<rparr>"
      have "get_by_id_for_update i s = (Inr (Some r), ?s)" using get_fresh [of i s r] one r None by simp
      moreover have "tracks d0 r" using s r(1) by (auto simp: in_step_def)
      moreover from this have "in_step d0 ?s" using s r by (simp add: in_step_def objects_put)
      ultimately show ?thesis using keepsD [OF some [OF r(2)]] by (simp add: py_bind_def)
    next
      case (Some lx)
      then obtain l x where o: "objs s i = Some (l, x)" by (cases lx) simp
      have "get_by_id_for_update i s = (Inr (Some x), s)" using get_held [of i s r l x] one r o by simp
      moreover have "t_id x = i" "tracks d0 x"
        using objectsD [of d0 "objs s" i l x] o s by (auto simp: in_step_def)
      ultimately show ?thesis using keepsD [OF some s] by (simp add: py_bind_def)
    qed
  next
    case more
    with s show ?thesis by (simp add: py_bind_def get_by_id_for_update_def scalar_one_or_none_def)
  qed
qed

section \<open>The operations\<close>

lemma step_cancel_locked [keeps_intros]:
  "may d0 i CANCELLATION_REQUESTED \<Longrightarrow> keeps (in_step d0) (cancel_locked c w i reason)"
  unfolding cancel_locked_def by (intro keeps_intros) simp_all

lemma step_request_cancellation [keeps_intros]:
  "may d0 i CANCELLATION_REQUESTED \<Longrightarrow> keeps (in_step d0) (request_cancellation c client w i reason)"
  unfolding request_cancellation_eq by (intro keeps_intros) (auto intro: keeps_intros)

lemma step_mark_cancellation_applied [keeps_intros]: "keeps (in_step d0) (mark_cancellation_applied w i)"
  unfolding mark_cancellation_applied_def by (intro keeps_intros) (auto intro!: keeps_intros)

lemma step_settle [keeps_intros]: "keeps (in_step d0) (settle c w i action)"
proof -
  have "keeps (in_step d0) (settle_locked c w t action)" if "\<not> terminal (t_status t)" "tracks d0 t" for t
    unfolding settle_locked_def
    using may_answered [OF that(2,1)] by (intro keeps_intros) simp_all
  then show ?thesis unfolding settle_def by (intro keeps_intros) (auto intro!: keeps_intros)
qed

lemma step_apply_recommendation [keeps_intros]:
  assumes "quiet w"
  shows "keeps (in_step d0) (apply_recommendation c client w p)"
proof -
  have recorded: "keeps (in_step d0) (record_recommendation w i p)" and cancel: "may d0 i CANCELLATION_REQUESTED"
    if "\<not> terminal st" "may d0 i st" for i st
    unfolding record_recommendation_def recommendation_target_def
    using may_answered [OF that(2,1)] by ((intro keeps_intros)?; simp)+
  show ?thesis
    unfolding apply_recommendation_def
    using assms recorded cancel by (intro step_get) (auto intro!: keeps_intros)
qed

lemma step_try_claim [keeps_intros]: "keeps (in_step d0) (try_claim now i ty tid)"
  by (rule step_same_tickets) (simp_all add: try_claim_def)

lemma step_handle_claimed [keeps_intros]: "quiet w \<Longrightarrow> keeps (in_step d0) (handle_claimed c client w m)"
  unfolding handle_claimed_def dispatch_def by (intro keeps_intros)

lemma step_assign_target [keeps_intros]:
  "may d0 i target \<Longrightarrow> keeps (in_step d0) (assign_target w i target)"
  unfolding assign_target_def by (intro keeps_intros) simp_all

lemma step_moved:
  assumes "target \<in> {SENT_TO_PROVIDER, CONFIRMED, DECLINED}"
  shows "keeps (in_step d0) (py_bind (get_by_id_for_update i) (\<lambda>ticket.
     case ticket of
       None \<Rightarrow> py_return None
     | Some t \<Rightarrow>
         if t_status t \<in> TERMINAL_TICKET_STATUSES then py_return None
         else if target = SENT_TO_PROVIDER \<and> t_status t \<noteq> NEW then py_return None
         else
           py_bind (assign_target w (t_id t) target) (\<lambda>_.
           py_bind (commit (db_clock w 0)) (\<lambda>_.
           py_return (Some (t_status t))))))"
proof -
  have "may d0 (t_id t) target"
    if "\<not> terminal (t_status t)" "tracks d0 t" "target = SENT_TO_PROVIDER \<longrightarrow> t_status t = NEW" for t
    using that assms may_answered [OF that(2,1), of target] may_sent [of d0 "t_id t"] by auto
  then show ?thesis by (intro keeps_intros) (auto intro!: keeps_intros)
qed

lemma step_load_each: "keeps (in_step d0) (recover_each c client w ids)"
  if "quiet w" and "\<forall>i \<in> set ids. may d0 i CANCELLATION_REQUESTED"
  using that
proof (induction ids arbitrary: w)
  case (Cons i ids)
  have "keeps (in_step d0) (recover_one c client w i)"
    unfolding recover_one_def Let_def using Cons.prems(2) by (intro keeps_intros) simp_all
  with Cons show ?case by (auto intro!: keeps_intros later_quiet)
qed (simp add: keeps_return)

section \<open>The calls\<close>

lemma scope_in_step:
  assumes "keeps (in_step (committed s)) body" and "unique_by t_id (tickets (committed s))"
    and "r \<in> set (tickets (committed (snd (session_scope body s))))"
  shows "tracks (committed s) r"
  using keepsD [OF assms(1) in_step_open [OF assms(2)]] assms(3)
  by (simp add: session_scope_committed in_step_def)

lemma same_tickets_track:
  assumes "unique_by t_id (tickets d)" and "r \<in> set (tickets d)"
  shows "tracks d r"
  unfolding may_def using same_row [OF assms] follows_refl(1) by metis

lemma consume_tracks:
  assumes "quiet w" and "unique_by t_id (tickets (committed s))"
    and "r \<in> set (tickets (committed (snd (consumer_handle c client w fresh arrival body s))))"
  shows "tracks (committed s) r"
  using assms scope_in_step [OF step_handle_claimed [OF assms(1)] assms(2)] same_tickets_track [OF assms(2)]
  by (auto simp: consumer_handle_def py_bind_def py_lift_def py_return_def split: sum.splits if_splits)

lemma move_tracks:
  assumes "target \<in> {SENT_TO_PROVIDER, CONFIRMED, DECLINED}" and "unique_by t_id (tickets (committed s))"
    and "r \<in> set (tickets (committed (snd (move_ticket w i target s))))"
  shows "tracks (committed s) r"
  using scope_in_step [OF step_moved [OF assms(1)] assms(2)] assms(3) unfolding move_ticket_def by blast

lemma transmit_tracks:
  assumes uniq: "unique_by t_id (tickets (committed s))"
    and r: "r \<in> set (tickets (committed (snd (send_to_provider c send w fresh arrival body s))))"
  shows "tracks (committed s) r"
proof -
  have target: "success_target ty = Some target \<Longrightarrow> target \<in> {SENT_TO_PROVIDER, CONFIRMED, DECLINED}" for ty target
    by (auto simp: success_target_def split: if_splits)
  have "tracks (committed s) q"
    if "q \<in> set (tickets (committed (snd (handle_message_success_ack w m s))))" for q m
    using that move_tracks [OF target uniq, of "m_type m"] same_tickets_track [OF uniq]
    by (auto simp: handle_message_success_ack_def py_bind_def py_return_def inc_def py_modify_def
        split: option.splits prod.splits sum.splits) (metis snd_conv)+
  with r show ?thesis
    using same_tickets_track [OF uniq]
    by (auto simp: send_to_provider_def py_bind_def py_lift_def py_try_def handle_message_rejection_def
        py_return_def py_raise_def split: sum.splits exn.splits)
qed

lemma reconcile_tracks:
  assumes q: "quiet w" and ok: "db_ok (committed s)"
    and r: "r \<in> set (tickets (committed (snd (recover_stuck_tickets c client rc w locked s))))"
  shows "tracks (committed s) r"
proof -
  let ?d = "committed s" and ?threshold = "clock w 0 - timedelta_seconds (rc_stuck_after_sec rc)"
  have uniq: "unique_by t_id (tickets ?d)" using ok by (simp add: db_ok_def)
  define rs where "rs = stuck_rows ?threshold (rc_batch_size rc) locked ?d"
  note find = find_loads [OF ok rs_def]
  have sub: "x \<in> set (tickets ?d)" "\<not> terminal (t_status x)" if "x \<in> set rs" for x
    using that set_select_ordered [of "stuck ?threshold locked" t_updated_at "rc_batch_size rc" "tickets ?d"]
    by (auto simp: rs_def stuck_rows_def stuck_def)
  have "tracks ?d x" if "x \<in> set rs" for x by (rule same_tickets_track [OF uniq sub(1) [OF that]])
  moreover have "may ?d (t_id x) CANCELLATION_REQUESTED" if "x \<in> set rs" for x
    using may_answered [OF same_tickets_track [OF uniq sub(1) [OF that]] sub(2) [OF that]] by simp
  then have may: "\<forall>i \<in> set (map t_id rs). may ?d i CANCELLATION_REQUESTED" by simp
  ultimately have "objects_in_step ?d (loaded_rows rs)"
    by (auto simp: objects_in_step_def loaded_rows_def select_by_def filter_eq_Cons_iff split: list.splits)
  then have loaded: "in_step ?d ((open_session s)\<lparr>objs := loaded_rows rs\<rparr>)"
    using in_step_open [OF uniq] by (simp add: in_step_def)
  have "in_step ?d (snd (recover_batch c client rc w locked ?threshold (open_session s)))"
    using keepsD [OF step_load_each [OF later_quiet [OF q] may] loaded] find
    by (simp add: recover_batch_def py_bind_def)
  with r show ?thesis by (simp add: recover_stuck_tickets_def Let_def session_scope_committed in_step_def)
qed

lemma batch_tracks:
  assumes q: "quiet w" and uniq: "unique_by t_id (tickets (committed s))"
    and r: "r \<in> set (tickets (committed (snd (send_batch n locked publish (others w 0) now db_now s))))"
  shows "tracks (committed s) r"
proof -
  have same: "keeps (in_step d0) (publish_events publish es)" "keeps (in_step d0) (fetch_pending n locked)"
    "keeps (in_step d0) (mark_published_many now db_now ids)" "keeps (in_step d0) (mark_failed k db_now i err)"
    for d0 es ids k i err
    by (rule step_same_tickets;
        simp add: publish_events_eq fetch_pending_def mark_published_many_def mark_failed_def update_outbox_view py_return_def)+
  have fails: "keeps (in_step d0) (mark_failures db_now failed)" for d0 failed
    by (induction failed) (auto intro!: keeps_intros same)
  have "keeps (in_step (committed s)) (py_bind (fetch_pending n locked) (\<lambda>pending.
      if pending = [] then py_return 0 else deliver publish (others w 0) now db_now pending))"
    unfolding deliver_def by (intro keeps_intros same fails keeps_pair q)
  from scope_in_step [OF this uniq] r show ?thesis unfolding send_batch_def by blast
qed

lemma post_tracks:
  assumes q: "quiet w" and uniq: "unique_by t_id (tickets (committed s))"
    and r: "r \<in> set (tickets (committed (snd (post_tickets c st w key idem body s))))"
  shows "tracks (committed s) r"
proof -
  have create: "tracks (committed s) r"
    if "r \<in> set (tickets (committed (snd (create_ticket c w k req (open_session s)))))" for k req
  proof -
    have fresh: "fresh_session (open_session s)" by (simp add: fresh_session_def)
    from fresh refl show ?thesis
    proof (cases rule: create_ticket_commits [where c = c and w = w and key = k and request = req])
      case nothing
      with that same_tickets_track [OF uniq] show ?thesis by (simp add: quiet_id [OF q])
    next
      case (stored cur m)
      let ?new = "\<lambda>now. stored_ticket now (new_ticket (uuid4 w 0) k req cur)"
      have "tracks (committed s) (?new now)" for now
        using stored(3) by (simp add: may_def quiet_id [OF q] stored_ticket_def new_ticket_def) (metis image_eqI)
      then have "tracks (committed s) q" if "q = ?new now \<or> q \<in> set (tickets (committed s))" for q now
        using that same_tickets_track [OF uniq] by blast
      with that stored(1) show ?thesis
        by (auto simp: with_ticket_def set_insert_row quiet_id [OF q])
    qed
  qed
  have "committed (snd (py_bind (create_ticket c w k req) f s1)) = committed (snd (create_ticket c w k req s1))"
    if "\<And>x s. committed (snd (f x s)) = committed s" for k req s1 and f :: "_ \<Rightarrow> response op"
    using that by (simp add: py_bind_def split: prod.split sum.split)
  then show ?thesis
    using r create same_tickets_track [OF uniq]
    by (auto simp: post_tickets_def respond_committed create_endpoint_def py_bind_def py_lift_def py_raise_def
        py_return_def session_scope_committed Let_def split: sum.splits option.splits)
qed

lemma status_change:
  assumes "quiet w" and "db_ok (committed s)"
    and "r \<in> set (tickets (committed s))" and "r' \<in> set (tickets (committed (perform c w a s)))" and "t_id r' = t_id r"
  shows "follows (t_status r) (t_status r')"
proof -
  have uniq: "unique_by t_id (tickets (committed s))" using assms(2) by (simp add: db_ok_def)
  have "tracks (committed s) r'"
    using assms(4) post_tracks [OF assms(1) uniq] consume_tracks [OF assms(1) uniq] transmit_tracks [OF uniq]
      batch_tracks [OF assms(1) uniq] reconcile_tracks [OF assms(1,2)] same_tickets_track [OF uniq]
    by (cases a) (auto simp: get_tickets_committed receive_committed)
  with assms(3,5) show ?thesis by (simp add: may_def)
qed

text \<open>
  C13: a call of any process, with whatever arguments, that no other call interferes with, on a
  database whose keys are unique: each ticket that was there keeps its status, or becomes
  \<open>CANCELLED\<close>, or, when it was not final, takes one of the statuses of an answer, or leaves
  \<open>NEW\<close> for \<open>SENT_TO_PROVIDER\<close>; its status changes in no other way.
\<close>

theorem status_changes_of_a_call:
  assumes "quiet w" and "db_ok (committed s)"
    and "r \<in> set (tickets (committed s))" and "r' \<in> set (tickets (committed (perform c w a s)))" and "t_id r' = t_id r"
  shows "follows (t_status r) (t_status r')"
  using assms by (rule status_change)

theorem status_changes_of_a_call_witness:
  "\<exists>r'. select_by t_id 7 (tickets (committed (perform ref_codec (sample_ambient 0 id)
      (Consume sample_client 0 0 (sample_body (CancellationAppliedPayload \<lparr>ca_ticket_id = 7\<rparr>)))
      (session_on (sample_db CONFIRMED))))) = [r'] \<and> t_status r' = CANCELLED \<and> follows CONFIRMED (t_status r')"
proof -
  let ?s = "session_on (sample_db CONFIRMED)" and ?w = "sample_ambient 0 id"
  let ?a = "Consume sample_client 0 0 (sample_body (CancellationAppliedPayload \<lparr>ca_ticket_id = 7\<rparr>))"
  obtain r' where r': "select_by t_id 7 (tickets (committed (perform ref_codec ?w ?a ?s))) = [r']" "t_status r' = CANCELLED"
    using consumer_applies_cancellation [OF sample_body_message, of "CancellationAppliedPayload \<lparr>ca_ticket_id = 7\<rparr>"
        "\<lparr>ca_ticket_id = 7\<rparr>" ?s "sample_ticket CONFIRMED" sample_client ?w 0 0]
      ref.cancellation_applied_payload_roundtrip [of "\<lparr>ca_ticket_id = 7\<rparr>"]
    by (auto simp: claimed_ids_def)
  with status_changes_of_a_call [of ?w ?s "sample_ticket CONFIRMED" r' ref_codec ?a] select_member [OF r'(1)]
  show ?thesis by (simp del: perform.simps)
qed

section \<open>Calls one after the other\<close>

inductive serial :: "codec \<Rightarrow> database \<Rightarrow> database \<Rightarrow> bool" for c where
  start: "serial c d d"
| call: "serial c d (committed s) \<Longrightarrow> quiet w \<Longrightarrow> serial c d (committed (perform c w a s))"

lemma serial_runs: "serial c d d' \<Longrightarrow> runs c d d'"
  by (induction rule: serial.induct) (auto intro: runs.intros quiet_runs)

lemma follows_trans: "follows a b \<Longrightarrow> follows b x \<Longrightarrow> follows a x"
  by (auto simp: follows_def answered_def)

lemma serial_follows:
  assumes "serial c d d'" and "sound c d" and "r \<in> set (tickets d)"
  shows "\<exists>r' \<in> set (tickets d'). t_id r' = t_id r \<and> follows (t_status r) (t_status r')"
  using assms
proof (induction rule: serial.induct)
  case (start d)
  then show ?case using follows_refl(1) by blast
next
  case (call d s w a)
  from call.IH call.prems obtain q where q: "q \<in> set (tickets (committed s))" "t_id q = t_id r"
    "follows (t_status r) (t_status q)" by blast
  have before: "reaches c d (committed s)"
    by (rule runs_reaches [OF serial_runs [OF call.hyps(1)] call.prems(1)])
  then have ok: "db_ok (committed s)" "sound c (committed s)" by (simp_all add: reaches_def sound_def)
  have "reaches c (committed s) (committed (perform c w a s))"
    by (rule runs_reaches [OF runs_one [OF quiet_runs [OF call.hyps(2)]] ok(2)])
  then obtain r' where r': "r' \<in> set (tickets (committed (perform c w a s)))" "t_id r' = t_id q"
    using q(1) by (auto simp: reaches_def db_evolves_def ticket_evolves_def same_order_def)
  have "follows (t_status q) (t_status r')"
    using status_change [OF call.hyps(2) ok(1) q(1) r'] .
  with r' q show ?case using follows_trans by metis
qed

text \<open>
  In every history of calls one after the other, from any reachable state, a final ticket
  stays as it is: the only change is a late confirmation of a cancellation, which makes it
  \<open>CANCELLED\<close>. A ticket that was sent to the provider is never sent for a second time, and no
  ticket expires. (\<open>apply_recommendation_overwrites_concurrent_status\<close> shows that calls that
  interfere with each other do not promise this.)
\<close>

theorem final_ticket_stays:
  assumes "runs c empty_db d" and "serial c d d'" and "r \<in> set (tickets d)"
  shows "\<exists>r' \<in> set (tickets d'). t_id r' = t_id r \<and>
    (terminal (t_status r) \<longrightarrow> t_status r' \<in> {t_status r, CANCELLED}) \<and>
    (t_status r' = SENT_TO_PROVIDER \<longrightarrow> t_status r \<in> {NEW, SENT_TO_PROVIDER}) \<and> t_status r' \<noteq> EXPIRED"
proof -
  have sound: "sound c d" by (rule reachable_sound [OF assms(1)])
  obtain r' where r': "r' \<in> set (tickets d')" "t_id r' = t_id r" "follows (t_status r) (t_status r')"
    using serial_follows [OF assms(2) sound assms(3)] by blast
  moreover have "t_status r' \<noteq> EXPIRED"
    using runs_reaches [OF serial_runs [OF assms(2)] sound] r'(1) by (simp add: reaches_def sound_def)
  ultimately show ?thesis by (intro bexI [of _ r']) (auto simp: follows_def answered_def)
qed

text \<open>The ticket of the sample request, its cancellation confirmed, and confirmed again.\<close>

definition sample_confirmed_cancellation :: "database \<Rightarrow> database" where
  "sample_confirmed_cancellation d = committed (perform ref_codec (sample_ambient 0 id)
     (Consume sample_client 0 0 (sample_cancelled CANCELLATION_APPLIED)) (session_on d))"

theorem final_ticket_stays_witness:
  "\<exists>r'. r' \<in> set (tickets (sample_confirmed_cancellation (sample_confirmed_cancellation sample_stored))) \<and>
     t_id r' = 100 \<and> t_status r' = CANCELLED"
proof -
  let ?w = "sample_ambient 0 id" and ?d = "sample_confirmed_cancellation sample_stored"
  obtain t where t: "tickets sample_stored = [t]" "t_id t = 100" "t_status t = NEW" "processed sample_stored = []"
    using sample_stored_rows by blast
  have ok: "db_ok sample_stored" using reachable_sound [OF sample_stored_runs] by (simp add: sound_def)
  obtain s1 r where s1: "consumer_handle ref_codec sample_client ?w 0 0 (sample_cancelled CANCELLATION_APPLIED)
      (session_on sample_stored) = (Inr (), s1)" "select_by t_id 100 (tickets (committed s1)) = [r]" "t_status r = CANCELLED"
    using consumer_applies_cancellation [OF sample_cancelled_message, of CANCELLATION_APPLIED "\<lparr>ca_ticket_id = 100\<rparr>"
        "session_on sample_stored" t sample_client ?w 0 0] t ok
      ref.cancellation_applied_payload_roundtrip [of "\<lparr>ca_ticket_id = 100\<rparr>"]
    by (auto simp: claimed_ids_def select_by_def)
  then have r: "r \<in> set (tickets ?d)" "t_id r = 100"
    using select_member [OF s1(2)] by (simp_all add: sample_confirmed_cancellation_def)
  have "runs ref_codec empty_db ?d"
    unfolding sample_confirmed_cancellation_def by (rule runs_trans [OF sample_runs sample_stored_runs])
  moreover have "serial ref_codec ?d (sample_confirmed_cancellation ?d)"
    using serial.call [of ref_codec ?d "session_on ?d" ?w] serial.start [of ref_codec ?d]
    by (simp add: sample_confirmed_cancellation_def del: perform.simps)
  ultimately show ?thesis
    using final_ticket_stays [OF _ _ r(1), of ref_codec "sample_confirmed_cancellation ?d"] r(2) s1(3) by fastforce
qed

text \<open>
  C22: what is not in the diagram of the README. A confirmed cancellation makes a ticket
  \<open>CANCELLED\<close> from every status, the final ones and those never asked to be cancelled included; a
  recommendation settles every ticket that is not final, one that was never sent, one whose
  cancellation was requested and one already settled included. The diagram has the first from
  \<open>CANCELLATION_REQUESTED\<close> only, and the second from the two recommended statuses only.
\<close>

theorem answers_in_any_status:
  assumes q: "quiet w" and ok: "db_ok (committed s)" and r: "select_by t_id i (tickets (committed s)) = [r]"
    and m: "body_message c body m" and new: "m_message_id m \<notin> claimed_ids (committed s)"
    and answer: "m_type m = CANCELLATION_APPLIED \<and> t_status r \<noteq> CANCELLED \<and>
         cancellation_applied_payload_validate c (m_payload m) = Some \<lparr>ca_ticket_id = i\<rparr> \<and> to = CANCELLED \<or>
       m_type m = RECOMMENDATION \<and> \<not> terminal (t_status r) \<and> to = SETTLED \<and>
         recommendation_payload_validate c (m_payload m) = Some p \<and> rp_ticket_id p = i \<and>
         varchar_fits 512 (rp_reason p) \<and> \<not> rolls w 0 < error_rate client \<and> uuid4 w 1 \<notin> event_ids (committed s)"
  shows "(\<exists>r'. select_by t_id i (tickets (committed (perform c w (Consume client fresh arrival body) s))) = [r'] \<and>
      t_status r' = to) \<and>
    ((t_status r, to) \<in> documented \<longleftrightarrow>
       t_status r \<in> (if to = CANCELLED then {CANCELLATION_REQUESTED} else {RECOMMENDED_CONFIRM, RECOMMENDED_DECLINE}))"
proof -
  have "(t_status r, to) \<in> documented \<longleftrightarrow>
       t_status r \<in> (if to = CANCELLED then {CANCELLATION_REQUESTED} else {RECOMMENDED_CONFIRM, RECOMMENDED_DECLINE})"
    using answer by (auto simp: documented_def)
  moreover from answer have "\<exists>s' r'. consumer_handle c client w fresh arrival body s = (Inr (), s') \<and>
      select_by t_id i (tickets (committed s')) = [r'] \<and> t_status r' = to"
  proof (elim disjE conjE)
    assume "m_type m = CANCELLATION_APPLIED" "t_status r \<noteq> CANCELLED" "to = CANCELLED"
      "cancellation_applied_payload_validate c (m_payload m) = Some \<lparr>ca_ticket_id = i\<rparr>"
    with consumer_applies_cancellation [OF m _ _ new ok, of "\<lparr>ca_ticket_id = i\<rparr>" r client w fresh arrival] r
    show ?thesis by auto
  next
    assume a: "m_type m = RECOMMENDATION" "\<not> terminal (t_status r)" "to = SETTLED"
      "recommendation_payload_validate c (m_payload m) = Some p" "rp_ticket_id p = i"
      "varchar_fits 512 (rp_reason p)" "\<not> rolls w 0 < error_rate client" "uuid4 w 1 \<notin> event_ids (committed s)"
    with consumer_settles_recommendation [OF m a(1,4) new ok q _ a(2,6,7,8), of fresh arrival] r
    show ?thesis by auto
  qed
  ultimately show ?thesis by auto
qed

theorem answers_in_any_status_witness:
  "(\<exists>r'. select_by t_id 7 (tickets (committed (perform ref_codec (sample_ambient (1/2) id)
        (Consume sample_client 0 0 (sample_body (RecommendationPayload sample_recommendation)))
        (session_on (sample_db CANCELLATION_REQUESTED))))) = [r'] \<and> t_status r' = SETTLED) \<and>
   (CANCELLATION_REQUESTED, SETTLED) \<notin> documented"
  using answers_in_any_status [of "sample_ambient (1/2) id" "session_on (sample_db CANCELLATION_REQUESTED)" 7
      "sample_ticket CANCELLATION_REQUESTED" ref_codec _ _ SETTLED sample_recommendation sample_client 0 0,
      OF _ _ _ sample_body_message [of "RecommendationPayload sample_recommendation"]]
    ref.recommendation_payload_roundtrip [of sample_recommendation]
  by (auto simp: varchar_fits_def claimed_ids_def simp del: perform.simps)

end
