(* ===== verification/Signals.thy ===== *)
theory Signals
  imports Entry_Points Reconciler_Properties
begin

text \<open>
  The signals a worker ends on: \<^verbatim>\<open>_install_signal_handlers\<close> of the three \<^verbatim>\<open>main.py\<close> that have it,
  the flags their handlers set, and what the waiting main task makes of them.
\<close>

datatype os_signal = SIGTERM | SIGINT

text \<open>The event \<^verbatim>\<open>main\<close> waits for, and \<^verbatim>\<open>_stop\<close> of the reconciler, which \<^verbatim>\<open>request_stop\<close> sets.\<close>

record stop_flags =
  sf_stop_event :: bool
  sf_worker_stop :: bool

type_synonym signal_handlers = "os_signal \<Rightarrow> (stop_flags \<Rightarrow> stop_flags) option"

definition request_stop :: "stop_flags \<Rightarrow> stop_flags" where
  "request_stop fl = fl\<lparr>sf_worker_stop := True\<rparr>"

definition set_stop_event :: "stop_flags \<Rightarrow> stop_flags" where
  "set_stop_event fl = fl\<lparr>sf_stop_event := True\<rparr>"

text \<open>
  \<open>supported\<close>: whether \<^verbatim>\<open>add_signal_handler\<close> of the event loop exists on this platform for the
  signal; where it raises \<^verbatim>\<open>NotImplementedError\<close> the handler is left out.
\<close>

fun install_handlers ::
  "(os_signal \<Rightarrow> bool) \<Rightarrow> (stop_flags \<Rightarrow> stop_flags) \<Rightarrow> os_signal list \<Rightarrow> signal_handlers \<Rightarrow> signal_handlers" where
  "install_handlers supported f [] hs = hs"
| "install_handlers supported f (sig # sigs) hs =
     install_handlers supported f sigs (if supported sig then hs(sig \<mapsto> f) else hs)"

definition consumer_signal_handlers :: "(os_signal \<Rightarrow> bool) \<Rightarrow> signal_handlers" where
  "consumer_signal_handlers supported = install_handlers supported set_stop_event [SIGTERM, SIGINT] Map.empty"

definition gateway_signal_handlers :: "(os_signal \<Rightarrow> bool) \<Rightarrow> signal_handlers" where
  "gateway_signal_handlers supported = install_handlers supported set_stop_event [SIGTERM, SIGINT] Map.empty"

definition reconciler_signal_handlers :: "(os_signal \<Rightarrow> bool) \<Rightarrow> signal_handlers" where
  "reconciler_signal_handlers supported =
     install_handlers supported (request_stop \<circ> set_stop_event) [SIGTERM, SIGINT] Map.empty"

text \<open>
  A signal: its handler runs, or, where there is none, the interpreter's own action is taken
  (\<open>None\<close>). The task of the stop event is over when the event is set.
\<close>

definition deliver_signal :: "signal_handlers \<Rightarrow> os_signal \<Rightarrow> stop_flags \<Rightarrow> stop_flags option" where
  "deliver_signal hs sig fl = map_option (\<lambda>f. f fl) (hs sig)"

definition tasks_ended :: "stop_flags \<Rightarrow> (exn + unit) option \<Rightarrow> main_task \<Rightarrow> (exn + unit) option" where
  "tasks_ended fl work t = (case t of Work_task \<Rightarrow> work | Stop_task \<Rightarrow> if sf_stop_event fl then Some (Inr ()) else None)"

lemma install_handlers_eq:
  "install_handlers supported f sigs hs sig = (if sig \<in> set sigs \<and> supported sig then Some f else hs sig)"
  by (induction sigs arbitrary: hs) auto

lemma handlers_of_signal:
  "consumer_signal_handlers supported sig = (if supported sig then Some set_stop_event else None)"
  "gateway_signal_handlers supported sig = (if supported sig then Some set_stop_event else None)"
  "reconciler_signal_handlers supported sig = (if supported sig then Some (request_stop \<circ> set_stop_event) else None)"
  by (cases sig; simp add: consumer_signal_handlers_def gateway_signal_handlers_def reconciler_signal_handlers_def
      install_handlers_eq)+

lemma shutdown_cancelled [simp]: "pc_cancelled (fold (shutdown_effect component) steps p) = pc_cancelled p"
proof (induction steps arbitrary: p)
  case (Cons step steps)
  have "pc_cancelled (shutdown_effect component step p) = pc_cancelled p"
    by (cases step) (simp_all add: gateway_stop_def)
  with Cons show ?case by simp
qed simp

lemma waiting_cancels:
  assumes "\<And>step. starts step = Inr ()"
  shows "pc_cancelled (snd (run_process st component ups downs starts stops (await_first ended \<circ> running) p)) =
    filter (\<lambda>t. ended t = None) [Work_task, Stop_task]"
  using assms
  by (simp add: run_process_def run_startup_ok shut_down_def await_first_def split: prod.split)

text \<open>
  A signal the platform supports stops every one of the three processes: the flag \<^verbatim>\<open>main\<close> waits
  for is set, and the work that is not over is cancelled. So it is in the reconciler, where
  \<^verbatim>\<open>request_stop\<close> would let the loop end by itself after the tick in progress
  (\<open>reconciler_stops\<close>): the flag is set, but the task with the tick is cancelled like the others.
\<close>

theorem signal_cancels_work:
  assumes supported: "supported sig" and starts: "\<And>step. starts step = Inr ()"
    and h: "hs \<in> {consumer_signal_handlers supported, gateway_signal_handlers supported, reconciler_signal_handlers supported}"
  shows "\<exists>fl'. deliver_signal hs sig fl = Some fl' \<and> sf_stop_event fl' \<and>
    (hs = reconciler_signal_handlers supported \<longrightarrow> sf_worker_stop fl') \<and>
    (\<forall>main \<in> {consumer_main, gateway_main, reconciler_main}.
       pc_cancelled (snd (main st starts stops (tasks_ended fl' work) running p)) =
         (if work = None then [Work_task] else []))"
proof -
  obtain f where f: "hs sig = Some f" "f \<in> {set_stop_event, request_stop \<circ> set_stop_event}"
    using h supported handlers_of_signal [of supported sig] by auto
  moreover have last: "hs = reconciler_signal_handlers supported \<longrightarrow> f = request_stop \<circ> set_stop_event"
    using f(1) supported handlers_of_signal(3) [of supported sig] by auto
  ultimately have "sf_stop_event (f fl)" "f = request_stop \<circ> set_stop_event \<longrightarrow> sf_worker_stop (f fl)"
    by (auto simp: set_stop_event_def request_stop_def)
  with f last show ?thesis
    using waiting_cancels [where starts = starts, OF starts]
    by (auto simp: deliver_signal_def tasks_ended_def consumer_main_def gateway_main_def reconciler_main_def)
qed

theorem signal_cancels_work_witness:
  "\<exists>fl'. deliver_signal (reconciler_signal_handlers (\<lambda>_. True)) SIGTERM
      \<lparr>sf_stop_event = False, sf_worker_stop = False\<rparr> = Some fl' \<and> sf_worker_stop fl' \<and>
    pc_cancelled (snd (reconciler_main (default_settings ''k'') (\<lambda>_. Inr ()) (\<lambda>_. Inr ())
      (tasks_ended fl' None) id no_process)) = [Work_task]"
  using signal_cancels_work [of "\<lambda>_. True" SIGTERM "\<lambda>_. Inr ()" "reconciler_signal_handlers (\<lambda>_. True)"
      "\<lparr>sf_stop_event = False, sf_worker_stop = False\<rparr>" "default_settings ''k''" "\<lambda>_. Inr ()" None id no_process]
  by auto

end
