(* ===== verification/Row_Locks.thy ===== *)
theory Row_Locks
  imports State_Machine
begin

text \<open>
  Deliveries that run at the same time, with the locks the database gives them: the row of the
  ticket that \<^verbatim>\<open>get_by_id_for_update\<close> selects \<^verbatim>\<open>FOR UPDATE\<close>, and the identifier of the message
  that \<^verbatim>\<open>try_claim\<close> inserts, on which a second insert of the same identifier waits. The deliveries
  are those in which one transaction does the work: what the gateway writes after an
  acknowledgement, and a confirmed cancellation in the consumer. This theory has the locks, the
  steps, and what such a delivery reads and writes; \<open>Row_Lock_Properties\<close> has the theorems.
\<close>

section \<open>Locks\<close>

datatype resource = Claim uuid | Ticket_row uuid

text \<open>\<open>one_transaction c a\<close>: the call is a delivery whose work is one transaction.\<close>

fun one_transaction :: "codec \<Rightarrow> call \<Rightarrow> bool" where
  "one_transaction c (Transmit send fresh arrival body) = True"
| "one_transaction c (Consume client fresh arrival body) =
     (case message_validate c fresh arrival body of None \<Rightarrow> True | Some m \<Rightarrow> m_type m \<noteq> RECOMMENDATION)"
| "one_transaction c _ = False"

text \<open>What the gateway's acknowledged message asks for: the ticket and its new status.\<close>

definition acknowledged ::
  "codec \<Rightarrow> (message \<Rightarrow> exn + ack_payload) \<Rightarrow> uuid \<Rightarrow> instant \<Rightarrow> dict \<Rightarrow> (uuid \<times> ticket_status) option" where
  "acknowledged c send fresh arrival body =
     (case message_validate c fresh arrival body of
        None \<Rightarrow> None
      | Some m \<Rightarrow>
          (case (send m, m_ticket_id m, success_target (m_type m)) of
             (Inr _, Some i, Some target) \<Rightarrow> Some (i, target)
           | _ \<Rightarrow> None))"

text \<open>
  The locks a delivery asks for, in the order of its statements: the gateway the row of its
  ticket, the consumer the claim and then the row.
\<close>

fun requested_locks :: "codec \<Rightarrow> call \<Rightarrow> resource list" where
  "requested_locks c (Transmit send fresh arrival body) =
     (case acknowledged c send fresh arrival body of None \<Rightarrow> [] | Some (i, target) \<Rightarrow> [Ticket_row i])"
| "requested_locks c (Consume client fresh arrival body) =
     (case message_validate c fresh arrival body of
        None \<Rightarrow> []
      | Some m \<Rightarrow>
          if m_type m \<notin> HANDLED_TYPES then []
          else Claim (m_message_id m) #
            (case cancellation_applied_payload_validate c (m_payload m) of
               None \<Rightarrow> [] | Some p \<Rightarrow> [Ticket_row (ca_ticket_id p)]))"
| "requested_locks c _ = []"

text \<open>
  What is locked by a request that is granted on the database \<open>d\<close>: no row is locked when there
  is none, and a claim that is refused inserts nothing. After a refused claim the consumer
  returns, so that it asks for nothing more.
\<close>

fun locks_taken :: "resource \<Rightarrow> database \<Rightarrow> resource set" where
  "locks_taken (Ticket_row i) d = (if select_by t_id i (tickets d) = [] then {} else {Ticket_row i})"
| "locks_taken (Claim k) d = (if k \<in> claimed_ids d then {} else {Claim k})"

fun still_requested :: "resource \<Rightarrow> resource list \<Rightarrow> database \<Rightarrow> resource list" where
  "still_requested (Ticket_row i) rs d = rs"
| "still_requested (Claim k) rs d = (if k \<in> claimed_ids d then [] else rs)"

text \<open>What the holder of a lock sees of it is the same in two databases.\<close>

fun same_resource :: "resource \<Rightarrow> database \<Rightarrow> database \<Rightarrow> bool" where
  "same_resource (Ticket_row i) d d' \<longleftrightarrow> select_by t_id i (tickets d') = select_by t_id i (tickets d)"
| "same_resource (Claim k) d d' \<longleftrightarrow> (k \<in> claimed_ids d' \<longleftrightarrow> k \<in> claimed_ids d)"

section \<open>Commits\<close>

text \<open>
  A commit puts the rows a transaction changed or inserted (from \<open>old\<close> to \<open>new\<close>) into the tables
  as they are at that moment (\<open>now\<close>); the other rows are not touched.
\<close>

definition merge_rows :: "('r \<Rightarrow> uuid) \<Rightarrow> 'r list \<Rightarrow> 'r list \<Rightarrow> 'r list \<Rightarrow> 'r list" where
  "merge_rows key old new now =
     map (\<lambda>r. case find (\<lambda>q. key q = key r \<and> q \<notin> set old) new of None \<Rightarrow> r | Some q \<Rightarrow> q) now @
     filter (\<lambda>q. key q \<notin> key ` set old) new"

definition merge_commit :: "database \<Rightarrow> database \<Rightarrow> database \<Rightarrow> database" where
  "merge_commit old new now =
     \<lparr>tickets = merge_rows t_id (tickets old) (tickets new) (tickets now),
      outbox_events = merge_rows e_id (outbox_events old) (outbox_events new) (outbox_events now),
      processed = merge_rows p_message_id (processed old) (processed new) (processed now)\<rparr>"

section \<open>Steps\<close>

text \<open>
  An open delivery: what it still asks for, what it holds, and the database its last statement
  has seen (\<^verbatim>\<open>READ COMMITTED\<close>: each statement sees what is committed when it starts).
\<close>

record open_delivery =
  od_call :: call
  od_ambient :: ambient
  od_wait :: "resource list"
  od_held :: "resource set"
  od_seen :: database

record locking =
  lk_db :: database
  lk_open :: "nat \<Rightarrow> open_delivery option"

definition locking_start :: "database \<Rightarrow> locking" where
  "locking_start d = \<lparr>lk_db = d, lk_open = Map.empty\<rparr>"

definition begun :: "codec \<Rightarrow> call \<Rightarrow> ambient \<Rightarrow> database \<Rightarrow> open_delivery" where
  "begun c a w d = \<lparr>od_call = a, od_ambient = w, od_wait = requested_locks c a, od_held = {}, od_seen = d\<rparr>"

definition granted :: "resource \<Rightarrow> resource list \<Rightarrow> database \<Rightarrow> open_delivery \<Rightarrow> open_delivery" where
  "granted r rs d t =
     t\<lparr>od_wait := still_requested r rs d, od_held := od_held t \<union> locks_taken r d, od_seen := d\<rparr>"

definition others_hold :: "locking \<Rightarrow> nat \<Rightarrow> resource set" where
  "others_hold st p = {r. \<exists>q t. q \<noteq> p \<and> lk_open st q = Some t \<and> r \<in> od_held t}"

text \<open>The body of the delivery on the database it has seen, committed on the one there is.\<close>

definition finished :: "codec \<Rightarrow> open_delivery \<Rightarrow> database \<Rightarrow> database" where
  "finished c t d =
     merge_commit (od_seen t) (committed (perform c (od_ambient t) (od_call t) (session_on (od_seen t)))) d"

text \<open>The steps of the deliveries by themselves: a lock is granted, or a delivery ends.\<close>

inductive proceed :: "codec \<Rightarrow> locking \<Rightarrow> locking \<Rightarrow> bool" for c where
  grant: "lk_open st p = Some t \<Longrightarrow> od_wait t = r # rs \<Longrightarrow> r \<notin> others_hold st p \<Longrightarrow>
    proceed c st (st\<lparr>lk_open := (lk_open st)(p \<mapsto> granted r rs (lk_db st) t)\<rparr>)"
| finish: "lk_open st p = Some t \<Longrightarrow> od_wait t = [] \<Longrightarrow>
    proceed c st \<lparr>lk_db = finished c t (lk_db st), lk_open = (lk_open st)(p := None)\<rparr>"

text \<open>
  A delivery may also die or be rolled back, and any other call may run in one piece, as far as
  it leaves what is locked as it is.
\<close>

inductive locked_step :: "codec \<Rightarrow> locking \<Rightarrow> locking \<Rightarrow> bool" for c where
  start: "lk_open st p = None \<Longrightarrow> one_transaction c a \<Longrightarrow> quiet w \<Longrightarrow>
    locked_step c st (st\<lparr>lk_open := (lk_open st)(p \<mapsto> begun c a w (lk_db st))\<rparr>)"
| proceeds: "proceed c st st' \<Longrightarrow> locked_step c st st'"
| abort: "locked_step c st (st\<lparr>lk_open := (lk_open st)(p := None)\<rparr>)"
| call: "committed s = lk_db st \<Longrightarrow> quiet w \<Longrightarrow>
    (\<And>q t r. lk_open st q = Some t \<Longrightarrow> r \<in> od_held t \<Longrightarrow> same_resource r (lk_db st) (committed (perform c w a s))) \<Longrightarrow>
    locked_step c st (st\<lparr>lk_db := committed (perform c w a s)\<rparr>)"

inductive_cases grant_or_finish: "proceed c st st'"

inductive locked_steps :: "codec \<Rightarrow> locking \<Rightarrow> locking \<Rightarrow> bool" for c where
  stay: "locked_steps c st st"
| go: "locked_steps c st st' \<Longrightarrow> locked_step c st' st'' \<Longrightarrow> locked_steps c st st''"

section \<open>What a delivery writes\<close>

text \<open>
  The row a delivery rewrites, how, and the claims it inserts; \<open>None\<close>: it commits nothing. The
  two lemmas below say that this is what the code does.
\<close>

fun writes :: "codec \<Rightarrow> ambient \<Rightarrow> call \<Rightarrow> database \<Rightarrow> (uuid \<times> (ticket \<Rightarrow> ticket) \<times> processed_provider_message list) option" where
  "writes c w (Transmit send fresh arrival body) d =
     (case acknowledged c send fresh arrival body of
        None \<Rightarrow> None
      | Some (i, target) \<Rightarrow>
          (case select_by t_id i (tickets d) of
             [r] \<Rightarrow> if moves target (t_status r) then Some (i, moved_ticket w target, []) else None
           | _ \<Rightarrow> None))"
| "writes c w (Consume client fresh arrival body) d =
     (case message_validate c fresh arrival body of
        None \<Rightarrow> None
      | Some m \<Rightarrow>
          if m_type m \<notin> HANDLED_TYPES \<or> m_message_id m \<in> claimed_ids d then None
          else (case cancellation_applied_payload_validate c (m_payload m) of
                  None \<Rightarrow> None
                | Some p \<Rightarrow>
                    (case select_by t_id (ca_ticket_id p) (tickets d) of
                       [r] \<Rightarrow> if t_status r = CANCELLED then None
                              else Some (ca_ticket_id p, \<lambda>q. stamped (db_clock w 0) q (cancel_applied_ticket w q),
                                         [claim_row w m])
                     | _ \<Rightarrow> None)))"
| "writes c w _ d = None"

definition written :: "(uuid \<times> (ticket \<Rightarrow> ticket) \<times> processed_provider_message list) option \<Rightarrow> database \<Rightarrow> database" where
  "written x d =
     (case x of
        None \<Rightarrow> d
      | Some (i, f, ps) \<Rightarrow>
          d\<lparr>tickets := update_where (\<lambda>q. t_id q = i) f (tickets d), processed := processed d @ ps\<rparr>)"

lemma written_None [simp]: "written None d = d"
  by (simp add: written_def)

lemma success_target_cases: "success_target ty = Some target \<Longrightarrow> target \<in> {SENT_TO_PROVIDER, CONFIRMED, DECLINED}"
  by (auto simp: success_target_def split: if_splits)

lemma move_ticket_writes:
  assumes ok: "db_ok (committed s)" and target: "target \<in> {SENT_TO_PROVIDER, CONFIRMED, DECLINED}"
  shows "committed (snd (move_ticket w i target s)) =
    written (case select_by t_id i (tickets (committed s)) of
        [r] \<Rightarrow> if moves target (t_status r) then Some (i, moved_ticket w target, []) else None
      | _ \<Rightarrow> None) (committed s)"
proof -
  have uniq: "unique_by t_id (tickets (committed s))" using ok by (simp add: db_ok_def)
  then show ?thesis
  proof (cases rule: select_by_cases [where k = i])
    case none
    then show ?thesis
      using get_missing [of i "open_session s"]
      by (simp add: move_ticket_def session_scope_committed py_bind_def py_return_def)
  next
    case (one r)
    show ?thesis
    proof (cases "moves target (t_status r)")
      case False
      with one show ?thesis
        using get_fresh [of i "open_session s" r]
        by (auto simp: move_ticket_def session_scope_committed py_bind_def py_return_def moves_def)
    next
      case True
      with target have "target \<noteq> t_status r" by (auto simp: moves_def)
      from move_ticket_effect [OF ok one(1) True this, of w] True one(1) show ?thesis
        by (auto simp: written_def)
    qed
  qed
qed

lemma transmit_writes:
  assumes ok: "db_ok (committed s)"
  shows "committed (snd (send_to_provider c send w fresh arrival body s)) =
    written (writes c w (Transmit send fresh arrival body) (committed s)) (committed s)"
proof (cases "acknowledged c send fresh arrival body")
  case None
  then show ?thesis
    by (auto simp: acknowledged_def send_to_provider_def handle_message_success_ack_def handle_message_rejection_def
        py_bind_def py_lift_def raise_invalid_def py_try_def py_return_def py_raise_def
        split: option.splits sum.splits exn.splits)
next
  case (Some x)
  then obtain m a i target where m: "message_validate c fresh arrival body = Some m" "send m = Inr a"
    "m_ticket_id m = Some i" "success_target (m_type m) = Some target" "x = (i, target)"
    by (auto simp: acknowledged_def split: option.splits sum.splits)
  have "committed (snd (send_to_provider c send w fresh arrival body s)) = committed (snd (move_ticket w i target s))"
    using m by (simp add: send_to_provider_ok [where send = send, OF m(1,2)] handle_message_success_ack_def py_bind_def
        inc_def py_modify_def py_return_def split: prod.split sum.split option.split)
  with Some m(5) move_ticket_writes [OF ok success_target_cases [OF m(4)], of w i] show ?thesis by simp
qed

lemma consume_scope:
  assumes m: "message_validate c fresh arrival body = Some m" and ty: "m_type m \<in> HANDLED_TYPES"
  shows "committed (snd (consumer_handle c client w fresh arrival body s)) =
    (if m_message_id m \<in> claimed_ids (committed s) then committed s
     else committed (snd (dispatch c client w m ((open_session s)\<lparr>view := with_claim w m (committed s)\<rparr>))))"
  using assms
  by (simp add: consumer_handle_def py_bind_def py_lift_def raise_invalid_def session_scope_committed handle_claimed_def
      try_claim_eq inc_def py_modify_def with_claim_def claim_row_def insert_row_def)

lemma consume_writes:
  assumes ok: "db_ok (committed s)" and one: "one_transaction c (Consume client fresh arrival body)"
  shows "committed (snd (consumer_handle c client w fresh arrival body s)) =
    written (writes c w (Consume client fresh arrival body) (committed s)) (committed s)"
proof (cases "message_validate c fresh arrival body")
  case None
  then show ?thesis by (simp add: consumer_handle_def py_bind_def py_lift_def raise_invalid_def)
next
  case (Some m)
  let ?new = "m_message_id m \<notin> claimed_ids (committed s)"
  show ?thesis
  proof (cases "m_type m \<in> HANDLED_TYPES \<and> ?new")
    case False
    with Some consume_scope [OF Some, of client w s] show ?thesis
      by (auto simp: consumer_handle_def py_bind_def py_lift_def raise_invalid_def py_return_def)
  next
    case True
    with Some one have ty: "m_type m = CANCELLATION_APPLIED" by (auto simp: HANDLED_TYPES_def)
    let ?s = "(open_session s)\<lparr>view := with_claim w m (committed s)\<rparr>"
    have run: "committed (snd (consumer_handle c client w fresh arrival body s)) = committed (snd (dispatch c client w m ?s))"
      using True consume_scope [OF Some, of client w s] by simp
    show ?thesis
    proof (cases "cancellation_applied_payload_validate c (m_payload m)")
      case None
      with True Some run ty show ?thesis
        by (simp add: dispatch_def py_bind_def py_lift_def raise_invalid_def)
    next
      case p: (Some p)
      let ?i = "ca_ticket_id p"
      have d: "dispatch c client w m ?s = mark_cancellation_applied w ?i ?s"
        using ty p by (simp add: dispatch_def py_bind_def py_lift_def raise_invalid_def)
      have uniq: "unique_by t_id (tickets (committed s))" using ok by (simp add: db_ok_def)
      then show ?thesis
      proof (cases rule: select_by_cases [where k = ?i])
        case none
        then have "?i \<notin> t_id ` set (tickets (view ?s))" by (simp add: select_by_empty_iff)
        with none True Some p run show ?thesis by (simp add: d mark_cancellation_applied_missing)
      next
        case (one r)
        show ?thesis
        proof (cases "t_status r = CANCELLED")
          case True
          with one Some p run \<open>m_type m \<in> HANDLED_TYPES \<and> ?new\<close> mark_cancellation_applied_done [of ?s ?i r w]
          show ?thesis by (auto simp: d)
        next
          case False
          have "commits (mark_cancellation_applied w ?i) ?s (cancel_applied_db w ?i (view ?s))
              (counted (t_status r) CANCELLED (counters ?s))"
            using one True False with_claim_db_ok [OF ok, of m w] by (intro mark_cancellation_applied_effect) simp_all
          then have "committed (snd (mark_cancellation_applied w ?i ?s)) = cancel_applied_db w ?i (view ?s)"
            by (auto simp: commits_def)
          with one Some p True False show ?thesis
            unfolding run d by (simp add: written_def cancel_applied_db_def with_claim_def)
        qed
      qed
    qed
  qed
qed

lemma performs_writes:
  assumes "one_transaction c a" and "db_ok (committed s)"
  shows "committed (perform c w a s) = written (writes c w a (committed s)) (committed s)"
  using assms transmit_writes [OF assms(2)] consume_writes [OF assms(2)] by (cases a) simp_all

section \<open>Reads and writes are locked\<close>

lemma requested_forms:
  "requested_locks c a \<in> {[]} \<union> range (\<lambda>i. [Ticket_row i]) \<union> range (\<lambda>k. [Claim k]) \<union>
     (\<lambda>(k, i). [Claim k, Ticket_row i]) ` UNIV"
  by (cases a) (auto split: option.splits)

lemma row_is_last: "requested_locks c a = rs @ Ticket_row i # rs' \<Longrightarrow> rs' = []"
  using requested_forms [of c a] by (auto simp: Cons_eq_append_conv append_eq_Cons_conv)

lemma claim_is_first: "requested_locks c a = rs @ Claim k # rs' \<Longrightarrow> rs = []"
  using requested_forms [of c a] by (auto simp: Cons_eq_append_conv append_eq_Cons_conv)

text \<open>A delivery that gets no lock where it asks for one writes nothing.\<close>

lemma no_lock_no_write:
  "r \<in> set (requested_locks c a) \<Longrightarrow> locks_taken r d = {} \<Longrightarrow> writes c w a d = None"
  by (cases a) (auto split: option.splits if_splits)

text \<open>What it writes depends on what it asks for only, and is locked by it.\<close>

lemma same_writes:
  assumes "\<forall>r \<in> set (requested_locks c a). same_resource r d d'"
  shows "writes c w a d' = writes c w a d"
proof (cases a)
  case (Transmit send fresh arrival body)
  with assms show ?thesis by (cases "acknowledged c send fresh arrival body") auto
next
  case (Consume client fresh arrival body)
  show ?thesis
  proof (cases "message_validate c fresh arrival body")
    case (Some m)
    with Consume assms show ?thesis
      by (cases "cancellation_applied_payload_validate c (m_payload m)"; cases "m_type m \<in> HANDLED_TYPES") auto
  qed (simp add: Consume)
qed simp_all

lemma writes_locked:
  assumes "writes c w a d = Some (i, f, ps)"
  shows "Ticket_row i \<in> set (requested_locks c a)" and "\<And>q. t_id (f q) = t_id q"
    and "\<exists>r. select_by t_id i (tickets d) = [r]"
    and "ps = [] \<or> (\<exists>x. ps = [x] \<and> Claim (p_message_id x) \<in> set (requested_locks c a) \<and>
           p_message_id x \<notin> claimed_ids d)"
  using assms
  by (cases a; auto simp: moved_ticket_def stamped_def cancel_applied_ticket_def claim_row_def
      split: option.splits prod.splits list.splits if_splits)+

text \<open>Other resources stay as they are.\<close>

lemma written_elsewhere:
  assumes "writes c w a d = Some (i, f, ps)" and "r \<notin> set (requested_locks c a)"
  shows "same_resource r d' (written (Some (i, f, ps)) d')"
proof (cases r)
  case (Ticket_row j)
  then have "j \<noteq> i" using writes_locked(1) [OF assms(1)] assms(2) by auto
  with Ticket_row writes_locked(2) [OF assms(1)] show ?thesis by (simp add: written_def select_not_rewritten)
next
  case (Claim k)
  then show ?thesis using writes_locked(4) [OF assms(1)] assms(2) by (auto simp: written_def claimed_ids_def)
qed

section \<open>A commit writes what the delivery writes\<close>

lemma find_new_None:
  "(\<And>q. q \<in> set new \<Longrightarrow> key q = key r \<Longrightarrow> q \<in> set old) \<Longrightarrow> find (\<lambda>q. key q = key r \<and> q \<notin> set old) new = None"
  by (auto simp: find_None_iff)

lemma merge_same [simp]: "merge_rows key old old now = now"
proof -
  have "find (\<lambda>q. key q = key r \<and> q \<notin> set old) old = None" for r by (rule find_new_None)
  then show ?thesis by (auto simp: merge_rows_def filter_empty_conv)
qed

lemma merge_insert:
  assumes "key x \<notin> key ` set old" and "key x \<notin> key ` set now"
  shows "merge_rows key old (old @ [x]) now = now @ [x]"
proof -
  have "find (\<lambda>q. key q = key r \<and> q \<notin> set old) (old @ [x]) = None" if "r \<in> set now" for r
    using that assms(2) by (intro find_new_None) auto
  then have "map (\<lambda>r. case find (\<lambda>q. key q = key r \<and> q \<notin> set old) (old @ [x]) of None \<Rightarrow> r | Some q \<Rightarrow> q) now = now"
    by (simp add: map_idI)
  then show ?thesis using assms(1) by (simp add: merge_rows_def filter_empty_conv)
qed

lemma merge_update:
  assumes old: "unique_by key old" "select_by key i old = [r]" and now: "unique_by key now" "select_by key i now = [r]"
    and key: "\<And>q. key (f q) = key q"
  shows "merge_rows key old (update_where (\<lambda>q. key q = i) f old) now = update_where (\<lambda>q. key q = i) f now"
proof -
  let ?new = "update_where (\<lambda>q. key q = i) f old"
  have r: "r \<in> set old" "key r = i" using old(2) by (auto simp: select_by_def filter_eq_Cons_iff)
  have new: "q \<in> set ?new \<longleftrightarrow> q = f r \<or> (q \<in> set old \<and> key q \<noteq> i)" for q
  proof -
    have "x = r" if "x \<in> set old" "key x = i" for x using same_row [OF old(1) that(1) r(1)] that(2) r(2) by simp
    moreover have "q \<in> set ?new \<longleftrightarrow> (\<exists>x \<in> set old. q = (if key x = i then f x else x))"
      by (simp only: update_where_def set_map image_iff)
    ultimately show ?thesis using r by (metis (full_types))
  qed
  have ids: "key ` set ?new = key ` set old" by (metis key map_key_update set_map)
  have at: "(case find (\<lambda>q. key q = key x \<and> q \<notin> set old) ?new of None \<Rightarrow> x | Some q \<Rightarrow> q) =
      (if key x = i then f x else x)" if "x \<in> set now" for x
  proof (cases "key x = i")
    case True
    with that now have "x = r" using select_by_unique [OF now(1) that] by auto
    moreover have "find (\<lambda>q. key q = key x \<and> q \<notin> set old) ?new = (if f r \<in> set old then None else Some (f r))"
    proof (cases "f r \<in> set old")
      case False
      have "f r \<in> set ?new" "key (f r) = key x" using new [of "f r"] True key r(2) by simp_all
      then have "find (\<lambda>q. key q = key x \<and> q \<notin> set old) ?new \<noteq> None"
        using False by (metis (mono_tags, lifting) find_None_iff)
      then obtain q where q: "find (\<lambda>q. key q = key x \<and> q \<notin> set old) ?new = Some q" by blast
      then have "q \<in> set ?new" "key q = i" "q \<notin> set old" using True by (auto simp: find_Some_iff)
      with new have "q = f r" by auto
      with q False show ?thesis by simp
    qed (use new True in \<open>auto intro!: find_new_None\<close>)
    moreover have "f r = r" if "f r \<in> set old" using same_row [OF old(1) that r(1)] key by simp
    ultimately show ?thesis using True by (cases "f r \<in> set old") simp_all
  next
    case False
    have "find (\<lambda>q. key q = key x \<and> q \<notin> set old) ?new = None"
      using False new key r by (intro find_new_None) auto
    with False show ?thesis by simp
  qed
  have "key q \<in> key ` set old" if "q \<in> set ?new" for q using that unfolding ids [symmetric] by (rule imageI)
  then have "filter (\<lambda>q. key q \<notin> key ` set old) ?new = []" by (simp add: filter_empty_conv del: image_iff)
  moreover have "map (\<lambda>x. case find (\<lambda>q. key q = key x \<and> q \<notin> set old) ?new of None \<Rightarrow> x | Some q \<Rightarrow> q) now =
      update_where (\<lambda>q. key q = i) f now"
    unfolding update_where_def [of _ f now] by (rule map_cong [OF refl at])
  ultimately show ?thesis by (simp only: merge_rows_def append_Nil2)
qed

lemma merge_writes:
  assumes seen: "db_ok seen" and now: "db_ok d" and x: "writes c w a seen = Some (i, f, ps)"
    and same: "\<forall>r \<in> set (requested_locks c a). same_resource r seen d"
  shows "merge_commit seen (written (Some (i, f, ps)) seen) d = written (Some (i, f, ps)) d"
proof -
  note x = writes_locked [OF x]
  obtain r where r: "select_by t_id i (tickets seen) = [r]" using x(3) by blast
  have "select_by t_id i (tickets d) = [r]" using same x(1) r by force
  then have rows: "merge_rows t_id (tickets seen) (update_where (\<lambda>q. t_id q = i) f (tickets seen)) (tickets d) =
      update_where (\<lambda>q. t_id q = i) f (tickets d)"
    using seen now r x(2) by (intro merge_update) (auto simp: db_ok_def)
  have claims: "merge_rows p_message_id (processed seen) (processed seen @ ps) (processed d) = processed d @ ps"
    using x(4)
  proof (elim disjE exE conjE)
    fix y assume y: "ps = [y]" "Claim (p_message_id y) \<in> set (requested_locks c a)" "p_message_id y \<notin> claimed_ids seen"
    then have "p_message_id y \<notin> claimed_ids d" using same by force
    with y show ?thesis by (simp add: claimed_ids_def merge_insert)
  qed simp
  from rows claims show ?thesis by (simp add: merge_commit_def written_def)
qed

end
