(* ===== verification/Row_Lock_Properties.thy ===== *)
theory Row_Lock_Properties
  imports Row_Locks
begin

text \<open>
  Deliveries under row locks: whatever their interleaving, each takes effect as if it had run in
  one piece when it commits, so that a history of them is one of calls one after the other; and
  they never block each other for good, because all of them lock in the same order.
\<close>

section \<open>The invariant\<close>

text \<open>
  An open delivery has seen what it holds as it is now, and holds or still asks for all it
  needs, unless the last thing it asked for was not there to be locked. What it has seen is a
  database of the history, and what there is now has come from it.
\<close>

definition open_ok :: "codec \<Rightarrow> database \<Rightarrow> open_delivery \<Rightarrow> bool" where
  "open_ok c d t \<longleftrightarrow>
     one_transaction c (od_call t) \<and> quiet (od_ambient t) \<and> db_ok (od_seen t) \<and>
     (\<forall>r \<in> od_held t. same_resource r (od_seen t) d) \<and>
     (set (requested_locks c (od_call t)) \<subseteq> od_held t \<union> set (od_wait t) \<or>
      od_wait t = [] \<and> (\<exists>r \<in> set (requested_locks c (od_call t)). locks_taken r (od_seen t) = {})) \<and>
     (\<exists>rs. requested_locks c (od_call t) = rs @ od_wait t \<and> od_held t \<subseteq> set rs \<or> od_wait t = [])"

definition locking_ok :: "codec \<Rightarrow> database \<Rightarrow> locking \<Rightarrow> bool" where
  "locking_ok c d st \<longleftrightarrow>
     serial c d (lk_db st) \<and> finite (dom (lk_open st)) \<and>
     (\<forall>p t. lk_open st p = Some t \<longrightarrow> open_ok c (lk_db st) t \<and> od_held t \<inter> others_hold st p = {} \<and>
        serial c d (od_seen t) \<and> serial c (od_seen t) (lk_db st))"

lemma serial_trans:
  assumes "serial c b e" and "serial c a b"
  shows "serial c a e"
  using assms by (induction rule: serial.induct) (auto intro: serial.call)

lemma open_okD:
  assumes "locking_ok c d st" and "lk_open st p = Some t"
  shows "open_ok c (lk_db st) t" and "od_held t \<inter> others_hold st p = {}"
    and "serial c d (od_seen t)" and "serial c (od_seen t) (lk_db st)"
  using assms by (auto simp: locking_ok_def)

lemma same_refl [simp]: "same_resource r d d"
  by (cases r) simp_all

lemma same_trans: "same_resource r d d' \<Longrightarrow> same_resource r d' d'' \<Longrightarrow> same_resource r d d''"
  by (cases r) simp_all

lemma locks_taken_sub: "locks_taken r d \<subseteq> {r}"
  by (cases r) simp_all

lemma open_ok_moves:
  assumes "open_ok c d t" and "\<And>r. r \<in> od_held t \<Longrightarrow> same_resource r d d'"
  shows "open_ok c d' t"
  using assms same_trans unfolding open_ok_def by blast

lemma begun_ok:
  "one_transaction c a \<Longrightarrow> quiet w \<Longrightarrow> db_ok d \<Longrightarrow> open_ok c d (begun c a w d)"
  by (auto simp: open_ok_def begun_def)

lemma granted_ok:
  assumes t: "open_ok c d t" and wait: "od_wait t = r # rs" and ok: "db_ok d"
  shows "open_ok c d (granted r rs d t)"
proof -
  from t wait obtain qs where qs: "requested_locks c (od_call t) = qs @ r # rs" "od_held t \<subseteq> set qs"
    and all: "set (requested_locks c (od_call t)) \<subseteq> od_held t \<union> set (r # rs)"
    by (auto simp: open_ok_def)
  show ?thesis
  proof (cases "locks_taken r d = {}")
    case True
    then have "\<exists>r \<in> set (requested_locks c (od_call t)). locks_taken r d = {}" using qs(1) by auto
    moreover have "still_requested r rs d = []"
      using True qs(1) row_is_last [of c "od_call t" qs _ rs] by (cases r) (auto split: if_splits)
    ultimately show ?thesis using t ok True by (auto simp: open_ok_def granted_def)
  next
    case False
    then have "locks_taken r d = {r}" "still_requested r rs d = rs" by (cases r; auto split: if_splits)+
    with t ok qs all show ?thesis
      by (auto simp: open_ok_def granted_def intro!: exI [of _ "qs @ [r]"])
  qed
qed

section \<open>A commit is the call in one piece\<close>

lemma finished_cases:
  assumes t: "open_ok c d t" and wait: "od_wait t = []" and ok: "db_ok d"
  obtains (void) "finished c t d = d" "writes c (od_ambient t) (od_call t) (od_seen t) = None"
  | (atomic) "finished c t d = committed (perform c (od_ambient t) (od_call t) (session_on d))"
      "\<And>r. r \<notin> od_held t \<Longrightarrow> same_resource r d (finished c t d)"
proof (cases "writes c (od_ambient t) (od_call t) (od_seen t)")
  case None
  have "finished c t d = d"
    using performs_writes [of c "od_call t" "session_on (od_seen t)" "od_ambient t"] t None
    by (simp add: finished_def open_ok_def merge_commit_def)
  from this None show ?thesis by (rule void)
next
  case (Some x)
  then obtain i f ps where x: "writes c (od_ambient t) (od_call t) (od_seen t) = Some (i, f, ps)" by (cases x) auto
  from t x wait no_lock_no_write have held: "set (requested_locks c (od_call t)) \<subseteq> od_held t"
    by (fastforce simp: open_ok_def)
  then have same: "\<forall>r \<in> set (requested_locks c (od_call t)). same_resource r (od_seen t) d"
    using t by (auto simp: open_ok_def)
  have one: "one_transaction c (od_call t)" "db_ok (od_seen t)" using t by (simp_all add: open_ok_def)
  have fin: "finished c t d = written (Some (i, f, ps)) d"
    using performs_writes [of c "od_call t" "session_on (od_seen t)" "od_ambient t"] one x
      merge_writes [OF one(2) ok x same] by (simp add: finished_def)
  have "committed (perform c (od_ambient t) (od_call t) (session_on d)) = written (Some (i, f, ps)) d"
    using performs_writes [of c "od_call t" "session_on d" "od_ambient t"] one ok x same_writes [OF same] by simp
  moreover have "same_resource r d (finished c t d)" if "r \<notin> od_held t" for r
    using written_elsewhere [OF x, of r d] that held fin by auto
  ultimately show ?thesis using fin atomic by simp
qed

lemma serial_ok: "sound c d \<Longrightarrow> serial c d d' \<Longrightarrow> db_ok d'"
  using runs_reaches [OF serial_runs] by (simp add: reaches_def sound_def)

lemma others_hold_simps:
  "others_hold (st\<lparr>lk_db := d\<rparr>) p = others_hold st p"
  "others_hold (st\<lparr>lk_open := (lk_open st)(q := None)\<rparr>) p \<subseteq> others_hold st p"
  by (auto simp: others_hold_def split: if_splits)

lemma others_hold_put:
  "others_hold (st\<lparr>lk_open := (lk_open st)(q \<mapsto> t)\<rparr>) p =
    (if p = q then others_hold st p else others_hold (st\<lparr>lk_open := (lk_open st)(q := None)\<rparr>) p \<union> od_held t)"
  by (auto simp: others_hold_def)

lemma close_ok:
  assumes st: "locking_ok c d st" and d': "serial c (lk_db st) d'"
    and same: "\<And>q u r. q \<noteq> p \<Longrightarrow> lk_open st q = Some u \<Longrightarrow> r \<in> od_held u \<Longrightarrow> same_resource r (lk_db st) d'"
  shows "locking_ok c d \<lparr>lk_db = d', lk_open = (lk_open st)(p := None)\<rparr>"
proof -
  have "open_ok c d' u \<and> od_held u \<inter> others_hold \<lparr>lk_db = d', lk_open = (lk_open st)(p := None)\<rparr> q = {} \<and>
      serial c d (od_seen u) \<and> serial c (od_seen u) d'"
    if "((lk_open st)(p := None)) q = Some u" for q u
  proof -
    from that have q: "q \<noteq> p" "lk_open st q = Some u" by (auto split: if_splits)
    have "open_ok c d' u" by (rule open_ok_moves [OF open_okD(1) [OF st q(2)] same [OF q]])
    moreover have "others_hold \<lparr>lk_db = d', lk_open = (lk_open st)(p := None)\<rparr> q \<subseteq> others_hold st q"
      by (auto simp: others_hold_def split: if_splits)
    ultimately show ?thesis using open_okD(2-4) [OF st q(2)] serial_trans [OF d'] by blast
  qed
  moreover have "serial c d d'" using st serial_trans [OF d'] by (simp add: locking_ok_def)
  ultimately show ?thesis using st by (simp add: locking_ok_def del: fun_upd_apply)
qed

lemma put_ok:
  assumes st: "locking_ok c d st" and t: "open_ok c (lk_db st) t"
    and held: "od_held t \<inter> others_hold st p = {}" and seen: "od_seen t = lk_db st"
  shows "locking_ok c d (st\<lparr>lk_open := (lk_open st)(p \<mapsto> t)\<rparr>)"
proof -
  let ?st = "st\<lparr>lk_open := (lk_open st)(p \<mapsto> t)\<rparr>"
  have "od_held u \<inter> others_hold ?st q = {}" if u: "lk_open ?st q = Some u" for q u
  proof (cases "q = p")
    case True
    with u held show ?thesis by (simp add: others_hold_put)
  next
    case False
    with u have q: "lk_open st q = Some u" by simp
    then have "od_held u \<subseteq> others_hold st p" using False by (auto simp: others_hold_def)
    with False open_okD(2) [OF st q] held others_hold_simps(2) [of st p q] show ?thesis
      unfolding others_hold_put by auto
  qed
  with st t seen show ?thesis by (auto simp: locking_ok_def intro: serial.start)
qed

lemma proceed_ok:
  assumes "proceed c st st'" and st: "locking_ok c d st" and sound: "sound c d"
  shows "locking_ok c d st'"
  using assms(1)
proof cases
  case (grant p t r rs)
  have ok: "db_ok (lk_db st)" using st serial_ok [OF sound] by (simp add: locking_ok_def)
  note t = open_okD [OF st grant(2)]
  have "od_held (granted r rs (lk_db st) t) \<inter> others_hold st p = {}"
    using t(2) grant(4) locks_taken_sub [of r "lk_db st"] by (auto simp: granted_def)
  then show ?thesis unfolding grant(1) by (intro put_ok st granted_ok t grant(3) ok) (simp_all add: granted_def)
next
  case (finish p t)
  have ser: "serial c d (lk_db st)" using st by (simp add: locking_ok_def)
  note t = open_okD [OF st finish(2)]
  from t(1) finish(3) serial_ok [OF sound ser] show ?thesis
  proof (cases rule: finished_cases)
    case void
    then show ?thesis unfolding finish(1) by (intro close_ok [OF st]) (simp_all add: serial.start)
  next
    case atomic
    have "serial c (lk_db st) (finished c t (lk_db st))"
      using serial.call [of c "lk_db st" "session_on (lk_db st)"] serial.start t(1) atomic(1)
      by (simp add: open_ok_def del: perform.simps)
    then show ?thesis
      unfolding finish(1) using atomic(2) t(2) by (intro close_ok [OF st]) (auto simp: others_hold_def)
  qed
qed

lemma step_ok:
  assumes "locked_step c st st'" and st: "locking_ok c d st" and sound: "sound c d"
  shows "locking_ok c d st'"
  using assms(1)
proof cases
  case (start p a w)
  have "db_ok (lk_db st)" using st serial_ok [OF sound] by (simp add: locking_ok_def)
  with start show ?thesis
    unfolding start(1) by (intro put_ok st begun_ok) (simp_all add: begun_def)
next
  case proceeds
  then show ?thesis using st sound by (rule proceed_ok)
next
  case (abort p)
  have "locking_ok c d \<lparr>lk_db = lk_db st, lk_open = (lk_open st)(p := None)\<rparr>"
    by (intro close_ok [OF st]) (simp_all add: serial.start)
  then show ?thesis unfolding abort by (cases st) simp
next
  case (call s w a)
  have one: "serial c (lk_db st) (committed (perform c w a s))"
    using serial.call [of c "lk_db st" s w a] serial.start call(2,3) by simp
  then have ser: "serial c d (committed (perform c w a s))"
    using st serial_trans by (auto simp: locking_ok_def simp del: perform.simps)
  have "open_ok c (committed (perform c w a s)) t" if "lk_open st p = Some t" for p t
    by (rule open_ok_moves [OF open_okD(1) [OF st that] call(4) [OF that]])
  with ser st one show ?thesis
    unfolding call(1)
    by (auto simp: locking_ok_def others_hold_simps intro: serial_trans simp del: perform.simps)
qed

lemma steps_ok:
  assumes "locked_steps c st st'" and "locking_ok c d st" and "sound c d"
  shows "locking_ok c d st'"
  using assms by (induction rule: locked_steps.induct) (auto intro: step_ok)

lemma start_ok: "locking_ok c d (locking_start d)"
  by (simp add: locking_ok_def locking_start_def serial.start)

lemma reached_ok:
  "runs c empty_db d \<Longrightarrow> locked_steps c (locking_start d) st \<Longrightarrow> locking_ok c d st"
  by (rule steps_ok [OF _ start_ok reachable_sound])

lemma serial_evolves: "sound c d \<Longrightarrow> serial c d d' \<Longrightarrow> db_evolves d d'"
  using runs_reaches [OF serial_runs] by (simp add: reaches_def)

lemma serial_sound: "sound c d \<Longrightarrow> serial c d d' \<Longrightarrow> sound c d'"
  using runs_reaches [OF serial_runs] by (simp add: reaches_def)

lemma serial_keeps_claim:
  assumes "sound c d" and "serial c d d'" and "k \<in> claimed_ids d"
  shows "k \<in> claimed_ids d'"
  using serial_evolves [OF assms(1,2)] assms(3) by (auto simp: db_evolves_def claimed_ids_def)

text \<open>
  C11: a delivery under its locks takes effect as if it had run in one piece. For deliveries of
  the gateway and deliveries of the consumer that are no recommendations, for tickets that
  existed when the delivery looked for them: whatever other deliveries and calls came between
  its statements, once it has the locks it asks for its commit leaves exactly the database that
  the whole call leaves when it is run alone on the database as it is at the commit. It is
  enough for this that \<^verbatim>\<open>get_by_id_for_update\<close> locks the row and \<^verbatim>\<open>try_claim\<close> the identifier. (A
  ticket that is created after the delivery has found none is what the equation does not hold
  for: the call alone would find it.)
\<close>

theorem delivery_is_atomic:
  assumes run: "runs c empty_db d" and steps: "locked_steps c (locking_start d) st"
    and t: "lk_open st p = Some t" and wait: "od_wait t = []"
    and known: "\<And>i. Ticket_row i \<in> set (requested_locks c (od_call t)) \<Longrightarrow> i \<in> t_id ` set (tickets (od_seen t))"
  shows "finished c t (lk_db st) = committed (perform c (od_ambient t) (od_call t) (session_on (lk_db st)))"
proof -
  have sound: "sound c d" by (rule reachable_sound [OF run])
  have st: "locking_ok c d st" by (rule reached_ok [OF run steps])
  then have ok: "db_ok (lk_db st)" using serial_ok [OF sound] by (simp add: locking_ok_def)
  note t = open_okD [OF st t]
  show ?thesis
  proof (rule finished_cases [OF t(1) wait ok])
    assume void: "finished c t (lk_db st) = lk_db st" "writes c (od_ambient t) (od_call t) (od_seen t) = None"
    have "writes c (od_ambient t) (od_call t) (lk_db st) = None"
    proof (cases "set (requested_locks c (od_call t)) \<subseteq> od_held t")
      case True
      then have "\<forall>r \<in> set (requested_locks c (od_call t)). same_resource r (od_seen t) (lk_db st)"
        using t(1) by (auto simp: open_ok_def)
      from same_writes [OF this] show ?thesis by (simp add: void(2))
    next
      case False
      with t(1) wait obtain r where r: "r \<in> set (requested_locks c (od_call t))" "locks_taken r (od_seen t) = {}"
        by (auto simp: open_ok_def)
      show ?thesis
      proof (cases r)
        case (Claim k)
        with r(2) have "k \<in> claimed_ids (od_seen t)" by (simp split: if_splits)
        then have "locks_taken r (lk_db st) = {}"
          using serial_keeps_claim [OF serial_sound [OF sound t(3)] t(4)] Claim by simp
        with r(1) show ?thesis by (rule no_lock_no_write)
      next
        case (Ticket_row i)
        then have "select_by t_id i (tickets (od_seen t)) \<noteq> []"
          using known r(1) by (auto simp: select_by_empty_iff)
        with r(2) Ticket_row show ?thesis by simp
      qed
    qed
    then show ?thesis
      using performs_writes [of c "od_call t" "session_on (lk_db st)" "od_ambient t"] t(1) ok void(1)
      by (simp add: open_ok_def del: perform.simps)
  qed simp
qed

text \<open>
  C10: concurrent deliveries amount to calls one after the other. However deliveries of the
  gateway and confirmed cancellations interleave under their locks, die, and are joined by any
  other calls in one piece, the database is one that calls without any overlap produce. So a
  ticket that is final stays as it is, but for a late confirmation of a cancellation, none
  returns to \<open>SENT_TO_PROVIDER\<close>, and no provider message has more than one claim. (The calls with
  several transactions are the ones this does not hold for when they are interrupted:
  \<open>apply_recommendation_overwrites_concurrent_status\<close>.)
\<close>

theorem concurrent_deliveries_serialize:
  assumes run: "runs c empty_db d" and steps: "locked_steps c (locking_start d) st"
  shows "serial c d (lk_db st) \<and> unique_by p_message_id (processed (lk_db st)) \<and>
    (\<forall>r \<in> set (tickets d). \<exists>r' \<in> set (tickets (lk_db st)). t_id r' = t_id r \<and>
      (terminal (t_status r) \<longrightarrow> t_status r' \<in> {t_status r, CANCELLED}) \<and>
      (t_status r' = SENT_TO_PROVIDER \<longrightarrow> t_status r \<in> {NEW, SENT_TO_PROVIDER}) \<and> t_status r' \<noteq> EXPIRED)"
proof -
  have ser: "serial c d (lk_db st)" using reached_ok [OF run steps] by (simp add: locking_ok_def)
  moreover from serial_ok [OF reachable_sound [OF run] ser] have "unique_by p_message_id (processed (lk_db st))"
    by (simp add: db_ok_def)
  ultimately show ?thesis using final_ticket_stays [OF run ser] by blast
qed

section \<open>No deadlock\<close>

lemma others_hold_unchanged:
  "others_hold \<lparr>lk_db = d, lk_open = (lk_open st)(p \<mapsto> t)\<rparr> p = others_hold st p"
  by (auto simp: others_hold_def)

lemma run_alone:
  assumes "lk_open st p = Some t" and "set (od_wait t) \<inter> others_hold st p = {}"
  shows "\<exists>d. (proceed c)\<^sup>*\<^sup>* st \<lparr>lk_db = d, lk_open = (lk_open st)(p := None)\<rparr>"
  using assms
proof (induction "length (od_wait t)" arbitrary: st t rule: less_induct)
  case less
  show ?case
  proof (cases "od_wait t")
    case Nil
    then show ?thesis using finish [OF less.prems(1), of c] by blast
  next
    case (Cons r rs)
    let ?t = "granted r rs (lk_db st) t" and ?st = "st\<lparr>lk_open := (lk_open st)(p \<mapsto> granted r rs (lk_db st) t)\<rparr>"
    have rest: "set (still_requested r rs (lk_db st)) \<subseteq> set rs" "length (still_requested r rs (lk_db st)) \<le> length rs"
      by (cases r; simp)+
    have step: "proceed c st ?st" using less.prems Cons by (intro grant) auto
    have "\<exists>d. (proceed c)\<^sup>*\<^sup>* ?st \<lparr>lk_db = d, lk_open = (lk_open ?st)(p := None)\<rparr>"
      using less.prems(2) Cons rest
      by (intro less.hyps [of ?t]) (auto simp: granted_def others_hold_put)
    then obtain d where "(proceed c)\<^sup>*\<^sup>* ?st \<lparr>lk_db = d, lk_open = (lk_open st)(p := None)\<rparr>" by auto
    from converse_rtranclp_into_rtranclp [of "proceed c", OF step this] show ?thesis by blast
  qed
qed

text \<open>
  A row is the last lock a delivery asks for, a claim the first: the holder of a row can end,
  and while no row is held the one who waits for a row can.
\<close>

lemma someone_free:
  assumes st: "locking_ok c d st" and some: "lk_open st p0 = Some t0"
  shows "\<exists>p t. lk_open st p = Some t \<and> set (od_wait t) \<inter> others_hold st p = {}"
proof (cases "\<exists>p t. lk_open st p = Some t \<and> od_wait t = []")
  case True
  then show ?thesis by fastforce
next
  case waiting: False
  have shape: "\<exists>rs. requested_locks c (od_call t) = rs @ od_wait t \<and> od_held t \<subseteq> set rs" if "lk_open st p = Some t" for p t
    using open_okD(1) [OF st that] waiting that by (auto simp: open_ok_def)
  have no_row: "Ticket_row i \<notin> od_held t" if "lk_open st p = Some t" for p t i
  proof
    assume "Ticket_row i \<in> od_held t"
    with shape [OF that] obtain xs ys where "requested_locks c (od_call t) = xs @ Ticket_row i # ys @ od_wait t"
      by (metis append.assoc append_Cons in_mono split_list)
    from row_is_last [OF this] waiting that show False by auto
  qed
  show ?thesis
  proof (cases "\<exists>p t i rs. lk_open st p = Some t \<and> od_wait t = Ticket_row i # rs")
    case True
    then obtain p t i rs where t: "lk_open st p = Some t" "od_wait t = Ticket_row i # rs" by blast
    obtain qs where "requested_locks c (od_call t) = qs @ od_wait t" using shape [OF t(1)] by blast
    with t(2) have "rs = []" using row_is_last by metis
    with t no_row have "set (od_wait t) \<inter> others_hold st p = {}" by (auto simp: others_hold_def)
    with t(1) show ?thesis by blast
  next
    case False
    have "od_held t = {}" if t: "lk_open st p = Some t" for p t
    proof -
      obtain qs where qs: "requested_locks c (od_call t) = qs @ od_wait t" "od_held t \<subseteq> set qs" using shape [OF t] by blast
      obtain r rs where "od_wait t = r # rs" using waiting t by (cases "od_wait t") auto
      moreover from this obtain k where "r = Claim k" using False t by (cases r) auto
      ultimately have "qs = []" using qs(1) claim_is_first by metis
      with qs(2) show ?thesis by simp
    qed
    then have "others_hold st p0 = {}" by (auto simp: others_hold_def)
    with some show ?thesis by blast
  qed
qed

lemma all_end:
  assumes "locking_ok c d st" and "sound c d"
  shows "\<exists>st'. (proceed c)\<^sup>*\<^sup>* st st' \<and> lk_open st' = Map.empty"
  using assms(1)
proof (induction "card (dom (lk_open st))" arbitrary: st rule: less_induct)
  case less
  show ?case
  proof (cases "lk_open st = Map.empty")
    case False
    then obtain p0 t0 where "lk_open st p0 = Some t0" by (metis option.exhaust)
    from someone_free [OF less.prems this] obtain p t where t: "lk_open st p = Some t"
      "set (od_wait t) \<inter> others_hold st p = {}" by blast
    from run_alone [OF this] obtain d' where run: "(proceed c)\<^sup>*\<^sup>* st \<lparr>lk_db = d', lk_open = (lk_open st)(p := None)\<rparr>"
      by blast
    let ?st = "\<lparr>lk_db = d', lk_open = (lk_open st)(p := None)\<rparr>"
    have "locking_ok c d ?st"
      using run by (induction rule: rtranclp_induct) (auto intro: less.prems proceed_ok assms(2))
    moreover have "card (dom (lk_open ?st)) < card (dom (lk_open st))"
      using t(1) less.prems card_Diff1_less [of "dom (lk_open st)" p] by (simp add: locking_ok_def domI)
    ultimately obtain st' where "(proceed c)\<^sup>*\<^sup>* ?st st'" "lk_open st' = Map.empty" using less.hyps by blast
    with run show ?thesis by (meson rtranclp_trans)
  qed blast
qed

text \<open>
  C12: the deliveries never block each other for good. From every state of the locks that can be
  reached, however many deliveries are open, granting locks that are free and ending
  deliveries that have theirs is enough to end all of them.
\<close>

theorem deliveries_never_deadlock:
  assumes "runs c empty_db d" and "locked_steps c (locking_start d) st"
  shows "\<exists>st'. (proceed c)\<^sup>*\<^sup>* st st' \<and> lk_open st' = Map.empty"
  by (rule all_end [OF reached_ok [OF assms] reachable_sound [OF assms(1)]])

section \<open>Two deliveries for one ticket\<close>

text \<open>
  The ticket of the sample request. Delivery \<open>0\<close>, a confirmed cancellation, has its claim when
  delivery \<open>1\<close>, the acknowledgement of the \<open>TICKET\<close> message, takes the row; \<open>0\<close> waits for it.
\<close>

definition sample_ticket_ack :: call where
  "sample_ticket_ack = Transmit (\<lambda>m. Inr \<lparr>ack_of = m_message_id m, ack_status = ACK_OK, ack_error_code = None,
       ack_error_detail = None\<rparr>) 0 0
     (message_dump ref_codec \<lparr>m_message_id = 800, m_ticket_id = Some 100, m_type = TICKET, m_timestamp = 40, m_payload = []\<rparr>)"

definition sample_cancel_call :: call where
  "sample_cancel_call = Consume sample_client 0 0 (sample_cancelled CANCELLATION_APPLIED)"

definition sample_locking :: locking where
  "sample_locking =
     (let w = sample_ambient 0 id; d = sample_stored;
          t0 = granted (Claim 900) [Ticket_row 100] d (begun ref_codec sample_cancel_call w d);
          t1 = granted (Ticket_row 100) [] d (begun ref_codec sample_ticket_ack w d)
      in \<lparr>lk_db = d, lk_open = [0 \<mapsto> t0, 1 \<mapsto> t1]\<rparr>)"

lemma sample_requests:
  "requested_locks ref_codec sample_cancel_call = [Claim 900, Ticket_row 100]"
  "requested_locks ref_codec sample_ticket_ack = [Ticket_row 100]"
  "one_transaction ref_codec sample_cancel_call" "one_transaction ref_codec sample_ticket_ack"
  using sample_cancelled_message [of CANCELLATION_APPLIED]
    ref.cancellation_applied_payload_roundtrip [of "\<lparr>ca_ticket_id = 100\<rparr>"]
    ref.message_roundtrip [of 0 0 "\<lparr>m_message_id = 800, m_ticket_id = Some 100, m_type = TICKET, m_timestamp = 40, m_payload = []\<rparr>"]
  by (auto simp: sample_cancel_call_def sample_ticket_ack_def body_message_def HANDLED_TYPES_def acknowledged_def
      success_target_def)

lemma sample_locks_taken:
  "locks_taken (Ticket_row 100) sample_stored = {Ticket_row 100}" "locks_taken (Claim 900) sample_stored = {Claim 900}"
  "still_requested (Claim 900) rs sample_stored = rs"
  using sample_stored_rows by (auto simp: select_by_def claimed_ids_def)

lemma sample_locking_reached: "locked_steps ref_codec (locking_start sample_stored) sample_locking"
proof -
  let ?d = sample_stored and ?w = "sample_ambient 0 id"
  let ?a0 = "begun ref_codec sample_cancel_call ?w ?d" and ?a1 = "begun ref_codec sample_ticket_ack ?w ?d"
  let ?st = "\<lambda>m. \<lparr>lk_db = ?d, lk_open = m\<rparr>"
  have first: "locked_step ref_codec (?st m) (?st (m(p \<mapsto> begun ref_codec a ?w ?d)))"
    if "m p = None" "one_transaction ref_codec a" for m p a
    using locked_step.start [of "?st m" p ref_codec a ?w] that by simp
  have take: "locked_step ref_codec (?st m) (?st (m(p \<mapsto> granted r rs ?d t)))"
    if "m p = Some t" "od_wait t = r # rs" "r \<notin> others_hold (?st m) p" for m p t r rs
    using proceeds [OF grant [of "?st m" p t r rs ref_codec]] that by simp
  have "locked_steps ref_codec (locking_start ?d) (?st [0 \<mapsto> ?a0])"
    using go [OF stay first [of Map.empty 0 sample_cancel_call]] sample_requests by (simp add: locking_start_def)
  from go [OF this first [of _ 1 sample_ticket_ack]] sample_requests
  have "locked_steps ref_codec (locking_start ?d) (?st [0 \<mapsto> ?a0, 1 \<mapsto> ?a1])" by simp
  from go [OF this take [of _ 0 ?a0 "Claim 900" "[Ticket_row 100]"]] sample_requests
  have "locked_steps ref_codec (locking_start ?d) (?st [0 \<mapsto> granted (Claim 900) [Ticket_row 100] ?d ?a0, 1 \<mapsto> ?a1])"
    by (auto simp: begun_def others_hold_def fun_upd_twist)
  from go [OF this take [of _ 1 ?a1 "Ticket_row 100" "[]"]] sample_requests
  show ?thesis
    by (auto simp: begun_def others_hold_def granted_def sample_locks_taken sample_locking_def Let_def)
qed

theorem delivery_is_atomic_witness:
  "\<exists>t. lk_open sample_locking 1 = Some t \<and> finished ref_codec t sample_stored =
      committed (perform ref_codec (sample_ambient 0 id) sample_ticket_ack (session_on sample_stored))"
  using delivery_is_atomic [OF sample_stored_runs sample_locking_reached, of 1] sample_stored_rows
  by (auto simp: sample_locking_def Let_def granted_def begun_def sample_requests simp del: perform.simps)

theorem concurrent_deliveries_serialize_witness:
  "serial ref_codec sample_stored (lk_db sample_locking) \<and> (\<exists>r' \<in> set (tickets (lk_db sample_locking)). t_id r' = 100)"
  using concurrent_deliveries_serialize [OF sample_stored_runs sample_locking_reached] sample_stored_rows by fastforce

theorem deliveries_never_deadlock_witness:
  "od_wait (the (lk_open sample_locking 0)) = [Ticket_row 100] \<and> Ticket_row 100 \<in> others_hold sample_locking 0 \<and>
   (\<exists>st'. (proceed ref_codec)\<^sup>*\<^sup>* sample_locking st' \<and> lk_open st' = Map.empty)"
  using deliveries_never_deadlock [OF sample_stored_runs sample_locking_reached]
  by (auto simp: sample_locking_def Let_def granted_def begun_def others_hold_def sample_locks_taken
      simp del: locks_taken.simps still_requested.simps)

end
