(* ===== verification/Spec2Isabelle.thy ===== *)
theory Spec2Isabelle
  imports Ticket_Properties Outbox_Queue Consumer_Properties Gateway_Properties
    Reconciler_Properties Broker Api_Properties Schema Probes Entry_Points Delivery
    System_Properties Journey Producer_Runs Reconcilers Migration_Env Logging Routes State_Machine Signals
    Row_Lock_Properties
begin

text \<open>
  A verification development of the ticket integration backend (\<^verbatim>\<open>src/backend\<close>).

  The program. A client posts a ticket (a bet) to the HTTP API. The ticket service stores it
  together with an entry of the outbox in one transaction. The outbox producer gives pending
  entries to RabbitMQ; the provider gateway sends what it finds on the outbound queue to the
  risk provider and writes what the provider's acknowledgement means for the ticket; the
  provider's own messages come back over the gateway and the inbound queue to the consumer,
  which lets the ticket service settle or cancel the ticket with the local service (the
  \<^verbatim>\<open>monolith\<close>) and queue the answer for the provider. The reconciler requests the
  cancellation of tickets that do not move. All processes share one PostgreSQL database.

  The theories, bottom up, and what they model.

  \<^item> \<open>Prelude\<close>: a calculus of Python computations (a state, and a value or an exception), and
    tables of rows with select, insert, update and ordered select; the collections of lemmas
    the other theories share.
  \<^item> \<open>Domain\<close>: \<^verbatim>\<open>constants.py\<close> and \<^verbatim>\<open>transport/topology.py\<close>. The locale \<open>str_enum\<close> is what the
    code relies on of a \<^verbatim>\<open>StrEnum\<close>, interpreted for each enumeration.
  \<^item> \<open>Wire\<close>: \<^verbatim>\<open>workers/provider_gateway/schemas.py\<close>, the messages of the provider with their
    dump and validation. How pydantic renders uuid, decimal and datetime values is the
    parameter \<open>codec\<close>; the law is that it reads what it wrote (\<open>codec_ok\<close>, locale
    \<open>leaf_codec\<close>). \<open>Codec_Reference\<close> gives one codec that obeys it.
  \<^item> \<open>Database\<close>: \<^verbatim>\<open>db/models\<close>, rows with the widths of their columns, the checks and the keys,
    and the statements on them. \<open>Schema\<close>: the declared tables and the two migrations of
    \<^verbatim>\<open>src/alembic/versions\<close>, both through the naming convention of \<^verbatim>\<open>db/base.py\<close>.
  \<^item> \<open>Session\<close>: \<^verbatim>\<open>db/session.py\<close>. A unit of work has the committed database, its own view, the
    objects loaded by the session with the attributes last read and now assigned, the
    counters, and the frames given to the broker. \<^verbatim>\<open>expire_on_commit=False\<close> and
    \<^verbatim>\<open>autoflush=False\<close> are kept: an object that is held is not read again. Other processes
    commit in the gaps where no lock is held (\<open>interfere\<close>, from the record \<open>ambient\<close>, which
    also holds the clocks, the identifiers and the random draws).
  \<^item> \<open>Repositories\<close>: \<^verbatim>\<open>db/repositories\<close>, one definition for each statement. The locale
    \<open>claim_store\<close> is the contract of the inbox.
  \<^item> \<open>Ticket_Service\<close>: \<^verbatim>\<open>services/ticket.py\<close> and \<^verbatim>\<open>services/monolith.py\<close>, all methods with their
    early returns and errors; \<open>Ticket_Creation\<close> and \<open>Ticket_Lifecycle\<close> compute their effects,
    \<open>Ticket_Properties\<close> states them.
  \<^item> \<open>Outbox_Service\<close>, \<open>Outbox_Properties\<close>, \<open>Outbox_Queue\<close>: \<^verbatim>\<open>services/outbox.py\<close> and
    \<^verbatim>\<open>workers/outbox_producer\<close>; the last one is the abstract queue the loop refines, by the
    locale \<open>simulation\<close> of \<open>Prelude\<close>. \<open>Producers\<close>: several producers at once, step by step, with the
    rows \<^verbatim>\<open>FOR UPDATE SKIP LOCKED\<close> holds for each of them, crashes and lost transactions included;
    \<open>Producer_Runs\<close>: what one of them does there is a run of \<open>send_batch\<close>.
  \<^item> \<open>Consumer_Worker\<close>, \<open>Consumer_Properties\<close>: \<^verbatim>\<open>workers/provider_consumer/worker.py\<close>.
  \<^item> \<open>Mock_Provider\<close>: \<^verbatim>\<open>workers/provider_gateway/client.py\<close>; the abstract client is the locale
    \<open>provider_client\<close>, in which the gateway's reaction to a failed send is proved.
    \<open>Gateway_Worker\<close>, \<open>Gateway_Properties\<close>: \<^verbatim>\<open>worker.py\<close> of the gateway.
  \<^item> \<open>Reconciler\<close>, \<open>Reconciler_Properties\<close>: \<^verbatim>\<open>workers/reconciler/worker.py\<close>; \<open>Reconcilers\<close>: two of
    them over the same tickets.
  \<^item> \<open>Config\<close>, \<open>Broker\<close>, \<open>Delivery\<close>: \<^verbatim>\<open>config.py\<close>; \<^verbatim>\<open>transport/broker.py\<close> with the routing and
    the redelivery of RabbitMQ the code relies on; the handlers under redelivery.
  \<^item> \<open>Api\<close>, \<open>Api_Properties\<close>: \<^verbatim>\<open>api\<close>, the schemas, the key, the endpoints, the error handlers;
    \<open>Routes\<close>: \<^verbatim>\<open>api/v1/router.py\<close> and \<^verbatim>\<open>create_app\<close>, which endpoint a request reaches, and what
    a whole request does.
  \<^item> \<open>Probes\<close>, \<open>Processes\<close>, \<open>Entry_Points\<close>: \<^verbatim>\<open>observability\<close>, and the entry points \<^verbatim>\<open>api/app.py\<close>
    and \<^verbatim>\<open>main.py\<close> of the workers: start-up, waiting, shutdown, health endpoints. \<open>Signals\<close>: the
    handlers the workers install, and what a signal ends. \<open>Logging\<close>: \<^verbatim>\<open>logging.py\<close>.
  \<^item> \<open>Migration_Env\<close>: \<^verbatim>\<open>alembic/env.py\<close>, the address of the database in the configuration
    parser, the revisions from the version found to the head, the transaction around them.
  \<^item> \<open>History\<close>, \<open>Guarantees\<close>, \<open>System\<close>, \<open>System_Properties\<close>, \<open>Journey\<close>: all processes together.
    \<open>State_Machine\<close>: the statuses of a ticket under every call, against the diagram of the README.
    \<open>Row_Locks\<close>, \<open>Row_Lock_Properties\<close>: deliveries of the gateway and the consumer at the same
    time, statement by statement, under the locks they take.

  What is shown.

  \<^item> Each operation, on every branch: what creation, recommendation, cancellation, a batch of
    the outbox, a delivery, a pass of the reconciler and a request do to every table, to the
    counters and to the frames sent, and what their errors leave behind.
  \<^item> The system: a step relation \<open>runs\<close> in which any process may make any call at any time and
    calls interrupt each other wherever no lock is held. Each operation is shown to keep the
    tables sound, and to let them evolve in one direction only, when the others do
    (\<open>Guarantees\<close>); the induction over \<open>runs\<close> then gives it for all processes. From it follow:
    every ticket is announced to the provider, all that is announced can be read, nothing is
    lost or taken back, a provider message takes effect at most once, a creation is idempotent
    for ever, a ticket sent twice counts once. Locks are not modelled as such in \<open>runs\<close>: the
    relation allows more interleavings than the database does, which makes these statements
    stronger. A process that dies between its commits is covered (\<open>System\<close>).
  \<^item> Several producers: with the row locks as steps of their own, an entry is never in two
    batches, and is given to the broker once, and once more for every transaction that is lost;
    the steps of one of them amount to one run of \<open>send_batch\<close>, whose condition on the others
    the locks provide.
  \<^item> Concurrent deliveries: with the locks of \<^verbatim>\<open>FOR UPDATE\<close> and of the claim as steps of their own,
    a delivery that is one transaction (of the gateway, or of the consumer when it is no
    recommendation) commits what it does when it runs alone, so that the atomic calls of
    \<open>System\<close> are what the locks give; and no two of them deadlock. A recommendation has two
    transactions and is left to \<open>runs\<close>, where others come in between.
  \<^item> The state machine: what each call can do to a status; a final ticket stays final while
    calls follow each other, up to a late confirmation of a cancellation.
  \<^item> Progress: from a request to \<open>CONFIRMED\<close> or \<open>DECLINED\<close>, and from a timeout to \<open>CANCELLED\<close>,
    when nothing fails; retries up to the delivery limit; queues that drain in order.
  \<^item> Contracts: the producer loop refines a queue; the migrations build the declared schema
    (\<open>target_metadata\<close>) up to three server defaults and the name of one check, from every
    version they can find, or leave the database as it was; the wire format loses nothing.
  \<^item> Where the code does not do what it means to: among others a status overwritten by a
    settlement that did not read it again, a settlement lost with its claim committed, final
    tickets that are cancelled, enum defaults that are no members, a check whose name got its
    prefix twice, shutdowns that stop at a method that does not exist, a pass of the reconciler
    that ends at the first request the database refuses, a cancellation requested twice by two
    reconcilers, passwords the migrations cannot connect with.

  Bounds and fuel. No definition needs fuel: loops over rows, entries and messages are
  structural, the endless loops of the producer, the reconciler and the gateway are cut after
  the list of rounds, ticks or items they are given, and the theorems hold for every list.
  Identifiers are 128-bit words; stakes are decimals of a coefficient and an exponent, rounded
  and bounded as \<^verbatim>\<open>Numeric(18, 2)\<close> does; times are integers (microseconds).

  What is assumed of third parties: the codec contract above; that PostgreSQL keeps keys unique
  and rows locked by \<^verbatim>\<open>FOR UPDATE\<close> unchanged (in theorems about one operation, by the hypothesis
  on the interference; in \<open>Producers\<close> and \<open>Row_Locks\<close> by the steps themselves, where a statement
  sees what is committed when it starts), that RabbitMQ routes by exact key and redelivers up to the limit.

  That the standard library's \<^verbatim>\<open>ConfigParser\<close> interpolates percent signs and \<^verbatim>\<open>logging\<close> knows its
  names of levels is modelled as documented; of alembic, that it runs the revisions between
  the version it finds and the one asked for, and of PostgreSQL, that a transaction can hold
  statements that change tables; of alembic and SQLAlchemy, that a table of a migration gets the
  naming convention of the metadata it is run with.

  Not modelled: requests whose body is no JSON (FastAPI answers them with 422 before the key is
  looked at; the body of a request is its parsed JSON here); the text of \<^verbatim>\<open>/metrics\<close>; the delays of the simulated services; the pages FastAPI
  adds for its schema and its redirection of trailing slashes; the loggers alembic configures
  from its own file; \<^verbatim>\<open>api/deps.py\<close> and the constructors that only hand a session to a service or
  a repository (the session is the state of every operation); the abstract methods of the
  provider client, which are the locale \<open>provider_client\<close>; and what FastAPI, FastStream,
  SQLAlchemy and asyncio do beyond what is said above.
\<close>

end
